(* ===== verification/LltdPrelude.thy ===== *)
theory LltdPrelude
  imports Main "HOL-Library.Word" "HOL-Library.Monad_Syntax"
begin

text \<open>
  Shared vocabulary of the development: the machine integers of the C code, the byte
  memory its buffers live in, and the generic lemmas the component theories lean on.

  A computation of type \<^typ>\<open>'a option\<close> is \<^term>\<open>None\<close> when the C program has no
  defined outcome: an access outside the object it points into, a dereferenced null
  pointer, or a recursion that never returns.  A buffer is the list of its bytes; every
  store and load below checks its bounds, so a write or read past the end of an object is
  \<^term>\<open>None\<close> and never an unspecified list element.
\<close>

unbundle bit_operations_syntax

type_synonym u8 = "8 word"
type_synonym u16 = "16 word"
type_synonym u32 = "32 word"
type_synonym u64 = "64 word"

named_theorems mem_simps "evaluation of loads and stores on concatenated buffers"
named_theorems wire_simps "byte images of the values the code puts on the wire"
named_theorems world_simps "how the port operations change the world"

section \<open>Byte memory\<close>

definition store_bytes :: "u8 list \<Rightarrow> nat \<Rightarrow> u8 list \<Rightarrow> u8 list option" where
  "store_bytes buf off bs =
     (if off + length bs \<le> length buf
      then Some (take off buf @ bs @ drop (off + length bs) buf) else None)"

definition load_bytes :: "u8 list \<Rightarrow> nat \<Rightarrow> nat \<Rightarrow> u8 list option" where
  "load_bytes buf off n =
     (if off + n \<le> length buf then Some (take n (drop off buf)) else None)"

definition store_u8 :: "u8 list \<Rightarrow> nat \<Rightarrow> u8 \<Rightarrow> u8 list option" where
  "store_u8 buf off v = store_bytes buf off [v]"

definition load_u8 :: "u8 list \<Rightarrow> nat \<Rightarrow> u8 option" where
  "load_u8 buf off = (if off < length buf then Some (buf ! off) else None)"

lemma store_bytes_skip [mem_simps]:
  "length xs \<le> n \<Longrightarrow>
   store_bytes (xs @ ys) n bs = map_option ((@) xs) (store_bytes ys (n - length xs) bs)"
  by (auto simp: store_bytes_def)

lemma store_bytes_Cons [mem_simps]:
  "0 < n \<Longrightarrow> store_bytes (x # ys) n bs = map_option ((#) x) (store_bytes ys (n - 1) bs)"
  by (cases n) (auto simp: store_bytes_def)

lemma store_bytes_byte [mem_simps]: "store_bytes (x # ys) 0 [v] = Some (v # ys)"
  by (simp add: store_bytes_def)

lemma store_bytes_here [mem_simps]:
  "length bs = length xs \<Longrightarrow> store_bytes (xs @ ys) 0 bs = Some (bs @ ys)"
  by (simp add: store_bytes_def)

lemma store_bytes_all [mem_simps]:
  "length bs = length xs \<Longrightarrow> store_bytes xs 0 bs = Some bs"
  by (simp add: store_bytes_def)

lemma store_bytes_front:
  "length bs \<le> length ys \<Longrightarrow> store_bytes ys 0 bs = Some (bs @ drop (length bs) ys)"
  by (simp add: store_bytes_def)

lemma store_bytes_length: "store_bytes buf off bs = Some buf' \<Longrightarrow> length buf' = length buf"
  by (auto simp: store_bytes_def split: if_splits)

lemma store_bytes_SomeI:
  "off + length bs \<le> length buf \<Longrightarrow>
   store_bytes buf off bs = Some (take off buf @ bs @ drop (off + length bs) buf)"
  by (simp add: store_bytes_def)

lemma store_bytes_None_iff [simp]:
  "store_bytes buf off bs = None \<longleftrightarrow> length buf < off + length bs"
  by (auto simp: store_bytes_def)

lemma load_bytes_skip [mem_simps]:
  "length xs \<le> n \<Longrightarrow> load_bytes (xs @ ys) n k = load_bytes ys (n - length xs) k"
  by (auto simp: load_bytes_def)

lemma load_bytes_Cons [mem_simps]:
  "0 < n \<Longrightarrow> load_bytes (x # ys) n k = load_bytes ys (n - 1) k"
  by (cases n) (auto simp: load_bytes_def)

lemma load_u8_Cons_Suc [mem_simps]: "0 < n \<Longrightarrow> load_u8 (x # ys) n = load_u8 ys (n - 1)"
  by (cases n) (auto simp: load_u8_def)

lemma load_bytes_here [mem_simps]:
  "length xs = k \<Longrightarrow> load_bytes (xs @ ys) 0 k = Some xs"
  by (auto simp: load_bytes_def)

lemma load_bytes_all [mem_simps]: "length xs = k \<Longrightarrow> load_bytes xs 0 k = Some xs"
  by (auto simp: load_bytes_def)

lemma load_bytes_length: "load_bytes buf off n = Some bs \<Longrightarrow> length bs = n"
  by (auto simp: load_bytes_def split: if_splits)

lemma load_bytes_SomeI:
  "off + n \<le> length buf \<Longrightarrow> load_bytes buf off n = Some (take n (drop off buf))"
  by (simp add: load_bytes_def)

lemma load_bytes_None_iff [simp]:
  "load_bytes buf off n = None \<longleftrightarrow> length buf < off + n"
  by (auto simp: load_bytes_def)

lemma load_u8_skip [mem_simps]:
  "length xs \<le> n \<Longrightarrow> load_u8 (xs @ ys) n = load_u8 ys (n - length xs)"
  by (auto simp: load_u8_def nth_append)

lemma load_u8_Cons [mem_simps]: "load_u8 (x # xs) 0 = Some x"
  by (simp add: load_u8_def)

lemma load_u8_None_iff [simp]: "load_u8 buf off = None \<longleftrightarrow> length buf \<le> off"
  by (auto simp: load_u8_def)

lemma bind_map_option [mem_simps]:
  "Option.bind (map_option f x) g = Option.bind x (\<lambda>y. g (f y))"
  by (cases x) auto

lemma load_u8_drop: "drop p f = x # ys \<Longrightarrow> load_u8 f p = Some x"
  by (auto simp: load_u8_def nth_via_drop intro: ccontr)

lemma load_bytes_drop: "p \<le> length f \<Longrightarrow> load_bytes f (p + q) n = load_bytes (drop p f) q n"
  by (auto simp: load_bytes_def add.commute)

lemma load_u8_drop_add: "p \<le> length f \<Longrightarrow> load_u8 f (p + q) = load_u8 (drop p f) q"
  by (auto simp: load_u8_def)

section \<open>Narrowing casts\<close>

lemma unat_ucast_mod: "unat (ucast (w :: 'a::len word) :: 'b::len word) = unat w mod 2 ^ LENGTH('b)"
  by (simp add: unsigned_ucast_eq unsigned_take_bit_eq take_bit_eq_mod)

lemma unat_of_nat_small: "n < 2 ^ LENGTH('a) \<Longrightarrow> unat (of_nat n :: 'a::len word) = n"
  by (simp add: unat_of_nat)

lemma unat_of_nat_le: "unat (of_nat n :: 'a::len word) \<le> n"
  by (simp add: unat_of_nat)

section \<open>First match in a list\<close>

text \<open>The C loops that scan an array or a linked list for the first match and stop.\<close>

fun first_index :: "('a \<Rightarrow> bool) \<Rightarrow> 'a list \<Rightarrow> nat option" where
  "first_index p [] = None"
| "first_index p (x # xs) = (if p x then Some 0 else map_option Suc (first_index p xs))"

lemma first_index_None_iff: "first_index p xs = None \<longleftrightarrow> (\<forall>x \<in> set xs. \<not> p x)"
  by (induction xs) auto

lemma first_index_SomeD:
  "first_index p xs = Some i \<Longrightarrow> i < length xs \<and> p (xs ! i) \<and> (\<forall>j < i. \<not> p (xs ! j))"
proof (induction xs arbitrary: i)
  case (Cons x xs)
  show ?case
  proof (cases "p x")
    case False
    with Cons.prems obtain k where k: "first_index p xs = Some k" "i = Suc k" by auto
    with Cons.IH [OF k(1)] False show ?thesis by (auto simp: nth_Cons split: nat.splits)
  qed (use Cons.prems in auto)
qed simp

lemma first_index_lt: "first_index p xs = Some i \<Longrightarrow> i < length xs"
  by (simp add: first_index_SomeD)

lemma first_index_sat: "first_index p xs = Some i \<Longrightarrow> p (xs ! i)"
  by (simp add: first_index_SomeD)

lemma first_index_exI: "x \<in> set xs \<Longrightarrow> p x \<Longrightarrow> \<exists>i. first_index p xs = Some i"
  by (meson first_index_None_iff not_None_eq)

lemma first_index_cong:
  "(\<And>x. x \<in> set xs \<Longrightarrow> p x = q x) \<Longrightarrow> first_index p xs = first_index q xs"
  by (induction xs) auto

section \<open>Lists updated in place\<close>

lemma filter_update_len:
  "i < length xs \<Longrightarrow>
   length (filter p (xs[i := y])) + (if p (xs ! i) then 1 else 0) =
   length (filter p xs) + (if p y then 1 else 0)"
proof (induction xs arbitrary: i)
  case (Cons x xs)
  then show ?case by (cases i) auto
qed simp

lemma filter_length_pos: "i < length xs \<Longrightarrow> p (xs ! i) \<Longrightarrow> 0 < length (filter p xs)"
  by (induction xs arbitrary: i) (auto simp: nth_Cons split: nat.splits)

section \<open>Optional out-parameters\<close>

text \<open>A C out-parameter keeps the caller's initial value unless the callee writes it.\<close>

definition out_param :: "'a \<Rightarrow> int \<times> 'a option \<Rightarrow> 'a" where
  "out_param old r = (case snd r of None \<Rightarrow> old | Some v \<Rightarrow> v)"

lemma out_param_simps [simp]:
  "out_param old (rc, None) = old" "out_param old (rc, Some v) = v"
  by (simp_all add: out_param_def)

end
