(* ===== verification/LltdEndian.thy ===== *)
theory LltdEndian
  imports LltdPrelude
begin

text \<open>
  lltdEndian.h: byte swapping and host/network order, with the host's byte order a
  parameter (\<open>le\<close> is the value of \<open>lltd_is_little_endian()\<close>), and the in-memory images
  of 16 and 32-bit integers.  Writing \<open>lltd_htons(v)\<close> to memory gives the same
  big-endian bytes on either kind of host.
\<close>

section \<open>lltdEndian.h\<close>

definition lltd_bswap16 :: "u16 \<Rightarrow> u16" where
  "lltd_bswap16 value = push_bit 8 value OR drop_bit 8 value"

definition lltd_bswap32 :: "u32 \<Rightarrow> u32" where
  "lltd_bswap32 value =
     push_bit 24 (value AND 0x000000FF) OR
     push_bit 8 (value AND 0x0000FF00) OR
     drop_bit 8 (value AND 0x00FF0000) OR
     drop_bit 24 (value AND 0xFF000000)"

definition lltd_htons :: "bool \<Rightarrow> u16 \<Rightarrow> u16" where
  "lltd_htons le value = (if le then lltd_bswap16 value else value)"

definition lltd_ntohs :: "bool \<Rightarrow> u16 \<Rightarrow> u16" where
  "lltd_ntohs le value = lltd_htons le value"

definition lltd_htonl :: "bool \<Rightarrow> u32 \<Rightarrow> u32" where
  "lltd_htonl le value = (if le then lltd_bswap32 value else value)"

definition lltd_ntohl :: "bool \<Rightarrow> u32 \<Rightarrow> u32" where
  "lltd_ntohl le value = lltd_htonl le value"

section \<open>Integers in memory\<close>

definition be16 :: "u16 \<Rightarrow> u8 list" where
  "be16 v = [ucast (drop_bit 8 v), ucast v]"

definition be32 :: "u32 \<Rightarrow> u8 list" where
  "be32 v = [ucast (drop_bit 24 v), ucast (drop_bit 16 v), ucast (drop_bit 8 v), ucast v]"

definition mem_of_u16 :: "bool \<Rightarrow> u16 \<Rightarrow> u8 list" where
  "mem_of_u16 le v = (if le then rev (be16 v) else be16 v)"

definition mem_of_u32 :: "bool \<Rightarrow> u32 \<Rightarrow> u8 list" where
  "mem_of_u32 le v = (if le then rev (be32 v) else be32 v)"

definition u16_of_be :: "u8 list \<Rightarrow> u16" where
  "u16_of_be bs = push_bit 8 (ucast (bs ! 0)) OR ucast (bs ! 1)"

definition u32_of_be :: "u8 list \<Rightarrow> u32" where
  "u32_of_be bs = push_bit 24 (ucast (bs ! 0)) OR push_bit 16 (ucast (bs ! 1)) OR
     push_bit 8 (ucast (bs ! 2)) OR ucast (bs ! 3)"

definition u16_of_mem :: "bool \<Rightarrow> u8 list \<Rightarrow> u16" where
  "u16_of_mem le bs = u16_of_be (if le then rev bs else bs)"

definition store_u16 :: "bool \<Rightarrow> u8 list \<Rightarrow> nat \<Rightarrow> u16 \<Rightarrow> u8 list option" where
  "store_u16 le buf off v = store_bytes buf off (mem_of_u16 le v)"

definition store_u32 :: "bool \<Rightarrow> u8 list \<Rightarrow> nat \<Rightarrow> u32 \<Rightarrow> u8 list option" where
  "store_u32 le buf off v = store_bytes buf off (mem_of_u32 le v)"

definition load_u16 :: "bool \<Rightarrow> u8 list \<Rightarrow> nat \<Rightarrow> u16 option" where
  "load_u16 le buf off = map_option (u16_of_mem le) (load_bytes buf off 2)"

section \<open>Lemmas\<close>

lemma length_be [simp]: "length (be16 v) = 2" "length (be32 w) = 4"
  by (simp_all add: be16_def be32_def)

lemma length_mem_of [simp]: "length (mem_of_u16 le v) = 2" "length (mem_of_u32 le w) = 4"
  by (simp_all add: mem_of_u16_def mem_of_u32_def)

lemma be16_bswap: "be16 (lltd_bswap16 v) = rev (be16 v)"
  by (auto simp: be16_def lltd_bswap16_def bit_simps intro!: bit_word_eqI)

lemma byte_masks:
  "(0xFF :: u32) = mask 8" "(0xFF00 :: u32) = push_bit 8 (mask 8)"
  "(0xFF0000 :: u32) = push_bit 16 (mask 8)" "(0xFF000000 :: u32) = push_bit 24 (mask 8)"
  by (simp_all add: mask_eq_exp_minus_1 push_bit_eq_mult)

lemma bit_lltd_bswap32:
  "bit (lltd_bswap32 v) n \<longleftrightarrow>
   (if n < 8 then bit v (24 + n) else if n < 16 then bit v (n + 8)
    else if n < 24 then bit v (n - 8) else n < 32 \<and> bit v (n - 24))"
  unfolding lltd_bswap32_def byte_masks by (auto simp: bit_simps add.commute)

lemma be32_bswap: "be32 (lltd_bswap32 v) = rev (be32 v)"
  by (auto simp: be32_def bit_lltd_bswap32 bit_simps add.commute intro!: bit_word_eqI)

lemma mem_of_htons [wire_simps]: "mem_of_u16 le (lltd_htons le v) = be16 v"
  by (simp add: mem_of_u16_def lltd_htons_def be16_bswap)

lemma mem_of_htonl [wire_simps]: "mem_of_u32 le (lltd_htonl le v) = be32 v"
  by (simp add: mem_of_u32_def lltd_htonl_def be32_bswap)

lemma bswap16_invol: "lltd_bswap16 (lltd_bswap16 v) = v"
  by (auto simp: lltd_bswap16_def bit_simps intro!: bit_word_eqI)

lemma u16_of_be_be16 [simp]: "u16_of_be (be16 v) = v"
  by (auto simp: u16_of_be_def be16_def bit_simps intro!: bit_word_eqI)

lemma u32_of_be_be32 [simp]: "u32_of_be (be32 v) = v"
proof (rule bit_word_eqI)
  fix n
  assume "n < LENGTH(32)"
  then consider "n < 8" | "8 \<le> n" "n < 16" | "16 \<le> n" "n < 24" | "24 \<le> n" "n < 32"
    by fastforce
  then show "bit (u32_of_be (be32 v)) n = bit v n"
    by cases (auto simp: u32_of_be_def be32_def bit_simps)
qed

lemma bswap32_invol: "lltd_bswap32 (lltd_bswap32 v) = v"
  by (metis be32_bswap rev_rev_ident u32_of_be_be32)

lemma be16_inj: "be16 v = be16 w \<Longrightarrow> v = w"
  by (metis u16_of_be_be16)

lemma ntohs_mem [wire_simps]: "lltd_ntohs le (u16_of_mem le (be16 v)) = v"
  by (simp add: lltd_ntohs_def lltd_htons_def u16_of_mem_def flip: be16_bswap)
    (simp add: bswap16_invol)

end
