(* ===== verification/LltdProtocol.thy ===== *)
theory LltdProtocol
  imports LltdEndian "HOL-Library.List_Lexorder"
begin

text \<open>
  lltdProtocol.h: the wire structures, packed to two bytes, and the protocol constants.
  A structure is read from memory field by field at its packed offset; multi-byte fields
  keep the raw value the C structure member would have, so the byte order of the host
  shows until \<^term>\<open>lltd_ntohs\<close> is applied.
\<close>

section \<open>Addresses\<close>

datatype ethernet_address_t =
  EthAddr (a0: u8) (a1: u8) (a2: u8) (a3: u8) (a4: u8) (a5: u8)

fun mac_bytes :: "ethernet_address_t \<Rightarrow> u8 list" where
  "mac_bytes (EthAddr b0 b1 b2 b3 b4 b5) = [b0, b1, b2, b3, b4, b5]"

definition mac_of_bytes :: "u8 list \<Rightarrow> ethernet_address_t" where
  "mac_of_bytes bs = EthAddr (bs ! 0) (bs ! 1) (bs ! 2) (bs ! 3) (bs ! 4) (bs ! 5)"

definition load_mac :: "u8 list \<Rightarrow> nat \<Rightarrow> ethernet_address_t option" where
  "load_mac buf off = map_option mac_of_bytes (load_bytes buf off 6)"

definition store_mac :: "u8 list \<Rightarrow> nat \<Rightarrow> ethernet_address_t \<Rightarrow> u8 list option" where
  "store_mac buf off m = store_bytes buf off (mac_bytes m)"

definition zero_mac :: ethernet_address_t where
  "zero_mac = EthAddr 0 0 0 0 0 0"

lemma length_mac_bytes [simp]: "length (mac_bytes m) = 6"
  by (cases m) simp

lemma mac_of_bytes_mac_bytes [simp]: "mac_of_bytes (mac_bytes m) = m"
  by (cases m) (simp add: mac_of_bytes_def)

lemma mac_bytes_inj: "mac_bytes m = mac_bytes n \<longleftrightarrow> m = n"
  by (metis mac_of_bytes_mac_bytes)

lemma mac_bytes_of_bytes: "length bs = 6 \<Longrightarrow> mac_bytes (mac_of_bytes bs) = bs"
  by (auto simp: mac_of_bytes_def numeral_eq_Suc length_Suc_conv)

text \<open>Addresses are ordered as their bytes are on the wire.\<close>

instantiation ethernet_address_t :: linorder
begin

definition less_eq_ethernet_address_t :: "ethernet_address_t \<Rightarrow> ethernet_address_t \<Rightarrow> bool" where
  "less_eq_ethernet_address_t m n = (mac_bytes m \<le> mac_bytes n)"

definition less_ethernet_address_t :: "ethernet_address_t \<Rightarrow> ethernet_address_t \<Rightarrow> bool" where
  "less_ethernet_address_t m n = (mac_bytes m < mac_bytes n)"

instance
  by standard
    (auto simp: less_eq_ethernet_address_t_def less_ethernet_address_t_def mac_bytes_inj
      order.strict_iff_order)

end

section \<open>Structures\<close>

record ethernet_header_t =
  destination :: ethernet_address_t
  source :: ethernet_address_t
  ethertype :: u16

record lltd_demultiplex_header_t =
  frameHeader :: ethernet_header_t
  version :: u8
  tos :: u8
  reserved :: u8
  opcode :: u8
  realDestination :: ethernet_address_t
  realSource :: ethernet_address_t
  seqNumber :: u16

text \<open>A probe the responder has seen, kept in a linked list; \<open>probe_type\<close> is in network order.\<close>

record probe_t =
  probe_type :: u16
  realSourceAddr :: ethernet_address_t
  sourceAddr :: ethernet_address_t
  destAddr :: ethernet_address_t

text \<open>One descriptor of an Emit frame.\<close>

record emitee_descs =
  emitee_type :: u8
  emitee_pause :: u8
  emitee_source :: ethernet_address_t
  emitee_dest :: ethernet_address_t

text \<open>The packed sizes.\<close>

abbreviation (input) sizeof_ethernet_header :: nat where "sizeof_ethernet_header \<equiv> 14"
abbreviation (input) sizeof_demux_header :: nat where "sizeof_demux_header \<equiv> 32"
abbreviation (input) sizeof_hello_header :: nat where "sizeof_hello_header \<equiv> 14"
abbreviation (input) sizeof_emit_header :: nat where "sizeof_emit_header \<equiv> 2"
abbreviation (input) sizeof_emitee_descs :: nat where "sizeof_emitee_descs \<equiv> 14"
abbreviation (input) sizeof_qry_resp_header :: nat where "sizeof_qry_resp_header \<equiv> 2"
abbreviation (input) sizeof_qry_large_tlv_resp :: nat where "sizeof_qry_large_tlv_resp \<equiv> 2"
abbreviation (input) sizeof_probe_desc_wire :: nat where "sizeof_probe_desc_wire \<equiv> 20"
abbreviation (input) sizeof_probe_t :: nat where "sizeof_probe_t \<equiv> 28"
abbreviation (input) sizeof_generic_tlv :: nat where "sizeof_generic_tlv \<equiv> 2"

section \<open>Constants\<close>

abbreviation (input) lltdEtherType :: u16 where "lltdEtherType \<equiv> 0x88D9"

abbreviation (input) tos_discovery :: u8 where "tos_discovery \<equiv> 0x00"
abbreviation (input) tos_quick_discovery :: u8 where "tos_quick_discovery \<equiv> 0x01"
abbreviation (input) tos_qos_diagnostics :: u8 where "tos_qos_diagnostics \<equiv> 0x02"

abbreviation (input) opcode_discover :: "'a::len word" where "opcode_discover \<equiv> 0x00"
abbreviation (input) opcode_hello :: "'a::len word" where "opcode_hello \<equiv> 0x01"
abbreviation (input) opcode_emit :: "'a::len word" where "opcode_emit \<equiv> 0x02"
abbreviation (input) opcode_train :: "'a::len word" where "opcode_train \<equiv> 0x03"
abbreviation (input) opcode_probe :: "'a::len word" where "opcode_probe \<equiv> 0x04"
abbreviation (input) opcode_ack :: "'a::len word" where "opcode_ack \<equiv> 0x05"
abbreviation (input) opcode_query :: "'a::len word" where "opcode_query \<equiv> 0x06"
abbreviation (input) opcode_queryResp :: "'a::len word" where "opcode_queryResp \<equiv> 0x07"
abbreviation (input) opcode_reset :: "'a::len word" where "opcode_reset \<equiv> 0x08"
abbreviation (input) opcode_charge :: "'a::len word" where "opcode_charge \<equiv> 0x09"
abbreviation (input) opcode_flat :: "'a::len word" where "opcode_flat \<equiv> 0x0A"
abbreviation (input) opcode_queryLargeTlv :: "'a::len word" where "opcode_queryLargeTlv \<equiv> 0x0B"
abbreviation (input) opcode_queryLargeTlvResp :: "'a::len word" where
  "opcode_queryLargeTlvResp \<equiv> 0x0C"

abbreviation (input) tlv_hostId :: u8 where "tlv_hostId \<equiv> 0x01"
abbreviation (input) tlv_characterisics :: u8 where "tlv_characterisics \<equiv> 0x02"
abbreviation (input) tlv_ifType :: u8 where "tlv_ifType \<equiv> 0x03"
abbreviation (input) tlv_wifimode :: u8 where "tlv_wifimode \<equiv> 0x04"
abbreviation (input) tlv_bssid :: u8 where "tlv_bssid \<equiv> 0x05"
abbreviation (input) tlv_ssid :: u8 where "tlv_ssid \<equiv> 0x06"
abbreviation (input) tlv_ipv4 :: u8 where "tlv_ipv4 \<equiv> 0x07"
abbreviation (input) tlv_ipv6 :: u8 where "tlv_ipv6 \<equiv> 0x08"
abbreviation (input) tlv_wifiMaxRate :: u8 where "tlv_wifiMaxRate \<equiv> 0x09"
abbreviation (input) tlv_perfCounterFrequency :: u8 where "tlv_perfCounterFrequency \<equiv> 0x0A"
abbreviation (input) tlv_linkSpeed :: u8 where "tlv_linkSpeed \<equiv> 0x0C"
abbreviation (input) tlv_wifiRssi :: u8 where "tlv_wifiRssi \<equiv> 0x0D"
abbreviation (input) tlv_iconImage :: u8 where "tlv_iconImage \<equiv> 0x0E"
abbreviation (input) tlv_hostname :: u8 where "tlv_hostname \<equiv> 0x0F"
abbreviation (input) tlv_supportUrl :: u8 where "tlv_supportUrl \<equiv> 0x10"
abbreviation (input) tlv_friendlyName :: u8 where "tlv_friendlyName \<equiv> 0x11"
abbreviation (input) tlv_uuid :: u8 where "tlv_uuid \<equiv> 0x12"
abbreviation (input) tlv_hwIdProperty :: u8 where "tlv_hwIdProperty \<equiv> 0x13"
abbreviation (input) tlv_qos_characteristics :: u8 where "tlv_qos_characteristics \<equiv> 0x14"
abbreviation (input) tlv_component_table :: u8 where "tlv_component_table \<equiv> 0x1a"

abbreviation (input) Config_TLV_NetworkInterfaceDuplex_Value :: u32 where
  "Config_TLV_NetworkInterfaceDuplex_Value \<equiv> 0x2000"
abbreviation (input) Config_TLV_HasManagementURL_Value :: u16 where
  "Config_TLV_HasManagementURL_Value \<equiv> 0x1000"
abbreviation (input) Config_TLV_InterfaceIsLoopback_Value :: u32 where
  "Config_TLV_InterfaceIsLoopback_Value \<equiv> 0x800"
abbreviation (input) Config_TLV_QOS_L2Fwd :: u32 where "Config_TLV_QOS_L2Fwd \<equiv> 0x8000"
abbreviation (input) Config_TLV_QOS_VLAN :: u32 where "Config_TLV_QOS_VLAN \<equiv> 0x4000"
abbreviation (input) Config_TLV_QOS_PrioTag :: u32 where "Config_TLV_QOS_PrioTag \<equiv> 0x2000"

abbreviation (input) eofpropmarker :: u8 where "eofpropmarker \<equiv> 0x00"

section \<open>Reading structures\<close>

definition load_demux_header :: "bool \<Rightarrow> u8 list \<Rightarrow> lltd_demultiplex_header_t option" where
  "load_demux_header le f = do {
     d \<leftarrow> load_mac f 0;
     s \<leftarrow> load_mac f 6;
     et \<leftarrow> load_u16 le f 12;
     v \<leftarrow> load_u8 f 14;
     t \<leftarrow> load_u8 f 15;
     r \<leftarrow> load_u8 f 16;
     oc \<leftarrow> load_u8 f 17;
     rd \<leftarrow> load_mac f 18;
     rs \<leftarrow> load_mac f 24;
     sq \<leftarrow> load_u16 le f 30;
     Some \<lparr>frameHeader = \<lparr>destination = d, source = s, ethertype = et\<rparr>,
           version = v, tos = t, reserved = r, opcode = oc,
           realDestination = rd, realSource = rs, seqNumber = sq\<rparr>
   }"

definition load_emitee :: "u8 list \<Rightarrow> nat \<Rightarrow> emitee_descs option" where
  "load_emitee f off = do {
     t \<leftarrow> load_u8 f off;
     p \<leftarrow> load_u8 f (off + 1);
     s \<leftarrow> load_mac f (off + 2);
     d \<leftarrow> load_mac f (off + 8);
     Some \<lparr>emitee_type = t, emitee_pause = p, emitee_source = s, emitee_dest = d\<rparr>
   }"

text \<open>The wire image of a base header, given in host-order values.\<close>

definition demux_bytes ::
    "ethernet_address_t \<Rightarrow> ethernet_address_t \<Rightarrow> u16 \<Rightarrow> u8 \<Rightarrow> u8 \<Rightarrow> u8 \<Rightarrow> u8 \<Rightarrow>
     ethernet_address_t \<Rightarrow> ethernet_address_t \<Rightarrow> u16 \<Rightarrow> u8 list" where
  "demux_bytes d s et v t r oc rd rs sq =
     mac_bytes d @ mac_bytes s @ be16 et @ [v, t, r, oc] @ mac_bytes rd @ mac_bytes rs @ be16 sq"

definition emitee_bytes :: "emitee_descs \<Rightarrow> u8 list" where
  "emitee_bytes e =
     [emitee_type e, emitee_pause e] @ mac_bytes (emitee_source e) @ mac_bytes (emitee_dest e)"

lemma length_demux_bytes [simp]: "length (demux_bytes d s et v t r oc rd rs sq) = 32"
  by (simp add: demux_bytes_def)

lemma length_emitee_bytes [simp]: "length (emitee_bytes e) = 14"
  by (simp add: emitee_bytes_def)

lemma load_mac_None_iff [simp]: "load_mac buf off = None \<longleftrightarrow> length buf < off + 6"
  by (simp add: load_mac_def)

lemma load_u16_None_iff [simp]: "load_u16 le buf off = None \<longleftrightarrow> length buf < off + 2"
  by (simp add: load_u16_def)

lemma load_u16_drop: "p \<le> length f \<Longrightarrow> load_u16 le f (p + q) = load_u16 le (drop p f) q"
  by (simp add: load_u16_def load_bytes_drop)

lemma load_u16_in:
  assumes "off + 2 \<le> length buf"
  obtains v where "load_u16 le buf off = Some v"
  using assms by (metis load_u16_None_iff not_None_eq not_less)

lemma load_mac_Cons [mem_simps]: "0 < n \<Longrightarrow> load_mac (x # ys) n = load_mac ys (n - 1)"
  by (simp add: load_mac_def mem_simps)

lemma load_u16_Cons [mem_simps]: "0 < n \<Longrightarrow> load_u16 le (x # ys) n = load_u16 le ys (n - 1)"
  by (simp add: load_u16_def mem_simps)

lemma load_mac_skip [mem_simps]:
  "length xs \<le> n \<Longrightarrow> load_mac (xs @ ys) n = load_mac ys (n - length xs)"
  by (simp add: load_mac_def mem_simps)

lemma load_mac_here [mem_simps]: "load_mac (mac_bytes m @ ys) 0 = Some m"
  by (simp add: load_mac_def mem_simps)

lemma load_u16_skip [mem_simps]:
  "length xs \<le> n \<Longrightarrow> load_u16 le (xs @ ys) n = load_u16 le ys (n - length xs)"
  by (simp add: load_u16_def mem_simps)

lemma load_u16_here [mem_simps]:
  "load_u16 le (be16 v @ ys) 0 = Some (u16_of_mem le (be16 v))"
  by (simp add: load_u16_def mem_simps)

lemma load_demux_header_Some_iff:
  "(\<exists>h. load_demux_header le f = Some h) \<longleftrightarrow> 32 \<le> length f"
proof
  assume "\<exists>h. load_demux_header le f = Some h"
  then obtain sq where "load_u16 le f 30 = Some sq"
    by (auto simp: load_demux_header_def bind_eq_Some_conv)
  then have "load_u16 le f 30 \<noteq> None" by (simp del: load_u16_None_iff)
  then show "32 \<le> length f" by simp
next
  assume "32 \<le> length f"
  then have "load_u16 le f 30 \<noteq> None" "load_mac f 24 \<noteq> None" "load_mac f 18 \<noteq> None"
    "load_u8 f 17 \<noteq> None" "load_u8 f 16 \<noteq> None" "load_u8 f 15 \<noteq> None" "load_u8 f 14 \<noteq> None"
    "load_u16 le f 12 \<noteq> None" "load_mac f 6 \<noteq> None" "load_mac f 0 \<noteq> None"
    by simp_all
  then show "\<exists>h. load_demux_header le f = Some h"
    by (auto simp: load_demux_header_def simp del: load_mac_None_iff load_u16_None_iff
        load_u8_None_iff)
qed

end
