(* ===== verification/LltdPort.thy ===== *)
theory LltdPort
  imports LltdProtocol
begin

text \<open>
  lltdPort.h: the functions the protocol core needs from the platform.  A \<open>port\<close> record
  holds one implementation of them; clock readings, allocation results and the return
  codes of the send function are indexed by how often the function was called, so a port
  stands for any behaviour of the platform over time.  What a run does to the platform is
  the \<open>world\<close>: the number of clock readings and allocations so far, the number of
  live heap blocks, and the ordered list of pauses and frames handed to the driver.

  Getters that fill a buffer return the bytes they wrote and their return value
  separately, because the callers clamp the return value themselves.
\<close>

section \<open>The world\<close>

type_synonym iface = nat  \<comment> \<open>the \<open>iface_ctx\<close> pointer; 0 is NULL\<close>

datatype port_event =
    SleepMs u32
  | SendFrame iface "u8 list" int  \<comment> \<open>interface, frame, return code\<close>

record world =
  w_reads :: nat
  w_mallocs :: nat
  w_live :: int
  w_events :: "port_event list"

definition world0 :: world where
  "world0 = \<lparr>w_reads = 0, w_mallocs = 0, w_live = 0, w_events = []\<rparr>"

section \<open>The port interface\<close>

record port =
  p_little_endian :: bool
  p_seconds :: "nat \<Rightarrow> u64"
  p_millis :: "nat \<Rightarrow> u64"
  p_malloc :: "nat \<Rightarrow> nat \<Rightarrow> bool"
  p_send :: "nat \<Rightarrow> iface \<Rightarrow> u8 list \<Rightarrow> int"
  p_mtu :: "iface \<Rightarrow> int \<times> nat option"
  p_icon_image :: "world \<Rightarrow> (int \<times> u8 list option \<times> nat) \<times> world"
  p_friendly_name :: "world \<Rightarrow> (int \<times> u8 list option \<times> nat) \<times> world"
  p_hostname :: "nat \<Rightarrow> u8 list \<times> nat"
  p_support_url :: "nat \<Rightarrow> u8 list \<times> nat"
  p_upnp_uuid :: "int \<times> u8 list"
  p_hw_id :: "nat \<Rightarrow> u8 list \<times> nat"
  p_mac_address :: "iface \<Rightarrow> int \<times> ethernet_address_t option"
  p_characteristics_flags :: "iface \<Rightarrow> u32"
  p_if_type :: "iface \<Rightarrow> int \<times> u32 option"
  p_ipv4_address :: "iface \<Rightarrow> int \<times> u32 option"
  p_ipv6_address :: "iface \<Rightarrow> int \<times> u8 list option"
  p_link_speed_100bps :: "iface \<Rightarrow> int \<times> u32 option"
  p_wifi_mode :: "iface \<Rightarrow> int \<times> u8 option"
  p_bssid :: "iface \<Rightarrow> int \<times> ethernet_address_t"
  p_ssid :: "iface \<Rightarrow> nat \<Rightarrow> u8 list \<times> nat"
  p_wifi_max_rate_0_5mbps :: "iface \<Rightarrow> int \<times> u16 option"
  p_wifi_rssi_dbm :: "iface \<Rightarrow> int \<times> u8 option"
  p_wifi_phy_medium :: "iface \<Rightarrow> int \<times> u32 option"

section \<open>Calling the port\<close>

definition lltd_port_monotonic_seconds :: "port \<Rightarrow> world \<Rightarrow> u64 \<times> world" where
  "lltd_port_monotonic_seconds P w = (p_seconds P (w_reads w), w\<lparr>w_reads := Suc (w_reads w)\<rparr>)"

definition lltd_port_monotonic_milliseconds :: "port \<Rightarrow> world \<Rightarrow> u64 \<times> world" where
  "lltd_port_monotonic_milliseconds P w =
     (p_millis P (w_reads w), w\<lparr>w_reads := Suc (w_reads w)\<rparr>)"

text \<open>\<open>lltd_port_malloc(n)\<close>: whether the pointer is not NULL.\<close>

definition alloc_with :: "(nat \<Rightarrow> nat \<Rightarrow> bool) \<Rightarrow> nat \<Rightarrow> world \<Rightarrow> bool \<times> world" where
  "alloc_with alloc n w =
     (let ok = alloc (w_mallocs w) n in
      (ok, w\<lparr>w_mallocs := Suc (w_mallocs w), w_live := w_live w + (if ok then 1 else 0)\<rparr>))"

definition lltd_port_malloc :: "port \<Rightarrow> nat \<Rightarrow> world \<Rightarrow> bool \<times> world" where
  "lltd_port_malloc P n w =
     (let ok = p_malloc P (w_mallocs w) n in
      (ok, w\<lparr>w_mallocs := Suc (w_mallocs w), w_live := w_live w + (if ok then 1 else 0)\<rparr>))"

definition lltd_port_free :: "world \<Rightarrow> world" where
  "lltd_port_free w = w\<lparr>w_live := w_live w - 1\<rparr>"

definition lltd_port_sleep_ms :: "u32 \<Rightarrow> world \<Rightarrow> world" where
  "lltd_port_sleep_ms ms w = w\<lparr>w_events := w_events w @ [SleepMs ms]\<rparr>"

definition lltd_port_send_frame :: "port \<Rightarrow> iface \<Rightarrow> u8 list \<Rightarrow> world \<Rightarrow> int \<times> world" where
  "lltd_port_send_frame P ctx frame w =
     (let rc = p_send P (length (w_events w)) ctx frame in
      (rc, w\<lparr>w_events := w_events w @ [SendFrame ctx frame rc]\<rparr>))"

text \<open>The calls that fill a local variable the caller has initialised.\<close>

definition port_mac :: "port \<Rightarrow> iface \<Rightarrow> ethernet_address_t" where
  "port_mac P ctx = out_param zero_mac (p_mac_address P ctx)"

definition port_mtu :: "port \<Rightarrow> iface \<Rightarrow> nat" where
  "port_mtu P ctx =
     (let mtu = out_param 0 (p_mtu P ctx)
      in if fst (p_mtu P ctx) \<noteq> 0 \<or> mtu = 0 then 1500 else mtu)"

definition sent_frames :: "port_event list \<Rightarrow> u8 list list" where
  "sent_frames es = concat (map (\<lambda>e. case e of SendFrame _ f _ \<Rightarrow> [f] | _ \<Rightarrow> []) es)"

lemma sent_frames_simps [simp]:
  "sent_frames [] = []"
  "sent_frames (SleepMs ms # es) = sent_frames es"
  "sent_frames (SendFrame c f rc # es) = f # sent_frames es"
  "sent_frames (es @ es') = sent_frames es @ sent_frames es'"
  by (simp_all add: sent_frames_def)

lemma port_mtu_pos: "0 < port_mtu P ctx"
  by (simp add: port_mtu_def Let_def)

lemma malloc_world [world_simps]:
  "w_reads (snd (lltd_port_malloc P n w)) = w_reads w"
  "w_mallocs (snd (lltd_port_malloc P n w)) = Suc (w_mallocs w)"
  "w_live (snd (lltd_port_malloc P n w)) =
     w_live w + (if fst (lltd_port_malloc P n w) then 1 else 0)"
  "w_events (snd (lltd_port_malloc P n w)) = w_events w"
  "fst (lltd_port_malloc P n w) = p_malloc P (w_mallocs w) n"
  by (simp_all add: lltd_port_malloc_def Let_def)

lemma free_world [world_simps]:
  "w_reads (lltd_port_free w) = w_reads w"
  "w_mallocs (lltd_port_free w) = w_mallocs w"
  "w_live (lltd_port_free w) = w_live w - 1"
  "w_events (lltd_port_free w) = w_events w"
  by (simp_all add: lltd_port_free_def)

lemma send_world [world_simps]:
  "w_reads (snd (lltd_port_send_frame P ctx f w)) = w_reads w"
  "w_mallocs (snd (lltd_port_send_frame P ctx f w)) = w_mallocs w"
  "w_live (snd (lltd_port_send_frame P ctx f w)) = w_live w"
  "w_events (snd (lltd_port_send_frame P ctx f w)) =
     w_events w @ [SendFrame ctx f (p_send P (length (w_events w)) ctx f)]"
  "fst (lltd_port_send_frame P ctx f w) = p_send P (length (w_events w)) ctx f"
  by (simp_all add: lltd_port_send_frame_def Let_def)

lemma sleep_world [world_simps]:
  "w_reads (lltd_port_sleep_ms ms w) = w_reads w"
  "w_mallocs (lltd_port_sleep_ms ms w) = w_mallocs w"
  "w_live (lltd_port_sleep_ms ms w) = w_live w"
  "w_events (lltd_port_sleep_ms ms w) = w_events w @ [SleepMs ms]"
  by (simp_all add: lltd_port_sleep_ms_def)

section \<open>The contract of a port\<close>

text \<open>The buffers a getter fills for its caller.\<close>

definition port_ipv6 :: "port \<Rightarrow> iface \<Rightarrow> u8 list" where
  "port_ipv6 P ctx = out_param (replicate 16 0) (p_ipv6_address P ctx)"

text \<open>
  What the protocol core relies on: byte counts respect the capacity the caller passes, a
  getter reports no more bytes than it wrote, and fixed-size out-parameters have their
  size.  The implementations under os/ are shown to keep it where they are modelled.
\<close>

locale lltd_port_contract =
  fixes P :: port
  assumes hostname_cap: "length (fst (p_hostname P n)) \<le> n"
    and hostname_ret: "snd (p_hostname P n) \<le> length (fst (p_hostname P n))"
    and support_url_cap: "length (fst (p_support_url P n)) \<le> n"
    and support_url_ret: "snd (p_support_url P n) \<le> length (fst (p_support_url P n))"
    and hw_id_cap: "length (fst (p_hw_id P n)) \<le> n"
    and hw_id_ret: "snd (p_hw_id P n) \<le> length (fst (p_hw_id P n))"
    and ssid_cap: "length (fst (p_ssid P ctx n)) \<le> n"
    and ssid_ret: "snd (p_ssid P ctx n) \<le> length (fst (p_ssid P ctx n))"
    and uuid_size: "fst (p_upnp_uuid P) = 0 \<Longrightarrow> length (snd (p_upnp_uuid P)) = 16"
    and ipv6_size: "snd (p_ipv6_address P ctx) = Some bs \<Longrightarrow> length bs = 16"
begin

lemma length_port_ipv6 [simp]: "length (port_ipv6 P ctx) = 16"
  using ipv6_size [of ctx] by (auto simp: port_ipv6_def out_param_def split: option.split)

end

text \<open>
  What the heap accounting relies on: the two getters that hand over an allocated object
  either fail and hand over nothing, or hand over one live block of at least the reported
  size; neither sends anything.
\<close>

definition hands_over :: "(world \<Rightarrow> (int \<times> u8 list option \<times> nat) \<times> world) \<Rightarrow> bool" where
  "hands_over g \<longleftrightarrow> (\<forall>w rc d n w'. g w = ((rc, d, n), w') \<longrightarrow>
     w_events w' = w_events w \<and>
     w_live w' = w_live w + (if d = None then 0 else 1) \<and>
     (rc \<noteq> 0 \<longrightarrow> d = None) \<and> (case d of None \<Rightarrow> n = 0 | Some x \<Rightarrow> n \<le> length x))"

locale lltd_port_heap = lltd_port_contract +
  assumes icon_hands_over: "hands_over (p_icon_image P)"
    and name_hands_over: "hands_over (p_friendly_name P)"

lemma hands_overD:
  assumes "hands_over g" "g w = ((rc, d, n), w')"
  shows "w_events w' = w_events w" "w_live w' = w_live w + (if d = None then 0 else 1)"
    "rc \<noteq> 0 \<Longrightarrow> d = None" "d = None \<Longrightarrow> n = 0" "d = Some x \<Longrightarrow> n \<le> length x"
  using assms unfolding hands_over_def by fastforce+

end
