(* ===== verification/LltdWire.thy ===== *)
theory LltdWire
  imports LltdPort
begin

text \<open>
  lltdWire.c: address comparison and the writers of the base header and of the Hello upper
  header.  Each writer stores its fields at their packed offsets, in the order of the code;
  the byte \<open>reserved\<close> is the one the base header leaves alone.
\<close>

definition EthernetBroadcast :: ethernet_address_t where
  "EthernetBroadcast = EthAddr 0xFF 0xFF 0xFF 0xFF 0xFF 0xFF"

definition compareEthernetAddress :: "ethernet_address_t \<Rightarrow> ethernet_address_t \<Rightarrow> bool" where
  "compareEthernetAddress A B \<longleftrightarrow>
     a0 A = a0 B \<and> a1 A = a1 B \<and> a2 A = a2 B \<and> a3 A = a3 B \<and> a4 A = a4 B \<and> a5 A = a5 B"

definition setLltdHeader ::
    "bool \<Rightarrow> u8 list \<Rightarrow> ethernet_address_t \<Rightarrow> ethernet_address_t \<Rightarrow> u16 \<Rightarrow> u8 \<Rightarrow> u8 \<Rightarrow>
     (u8 list \<times> nat) option" where
  "setLltdHeader le buffer src dst seqNo opc tosv = do {
     b \<leftarrow> store_u16 le buffer 12 (lltd_htons le lltdEtherType);
     b \<leftarrow> store_mac b 6 src;
     b \<leftarrow> store_mac b 0 dst;
     b \<leftarrow> store_mac b 24 src;
     b \<leftarrow> store_mac b 18 dst;
     b \<leftarrow> store_u16 le b 30 (lltd_htons le seqNo);
     b \<leftarrow> store_u8 b 17 opc;
     b \<leftarrow> store_u8 b 15 tosv;
     b \<leftarrow> store_u8 b 14 1;
     Some (b, sizeof_demux_header)
   }"

definition setLltdHeaderEx ::
    "bool \<Rightarrow> u8 list \<Rightarrow> ethernet_address_t \<Rightarrow> ethernet_address_t \<Rightarrow> ethernet_address_t \<Rightarrow>
     ethernet_address_t \<Rightarrow> u16 \<Rightarrow> u8 \<Rightarrow> u8 \<Rightarrow> (u8 list \<times> nat) option" where
  "setLltdHeaderEx le buffer ethSource ethDest realSrc realDest seqNo opc tosv = do {
     b \<leftarrow> store_u16 le buffer 12 (lltd_htons le lltdEtherType);
     b \<leftarrow> store_mac b 6 ethSource;
     b \<leftarrow> store_mac b 0 ethDest;
     b \<leftarrow> store_mac b 24 realSrc;
     b \<leftarrow> store_mac b 18 realDest;
     b \<leftarrow> store_u16 le b 30 (lltd_htons le seqNo);
     b \<leftarrow> store_u8 b 17 opc;
     b \<leftarrow> store_u8 b 15 tosv;
     b \<leftarrow> store_u8 b 14 1;
     Some (b, sizeof_demux_header)
   }"

definition setHelloHeader ::
    "bool \<Rightarrow> u8 list \<Rightarrow> nat \<Rightarrow> ethernet_address_t \<Rightarrow> ethernet_address_t \<Rightarrow> u16 \<Rightarrow>
     (u8 list \<times> nat) option" where
  "setHelloHeader le buffer off apparentMapper currentMapper generation = do {
     b \<leftarrow> store_mac buffer (off + 8) apparentMapper;
     b \<leftarrow> store_mac b (off + 2) currentMapper;
     b \<leftarrow> store_u16 le b off (lltd_htons le generation);
     Some (b, sizeof_hello_header)
   }"

section \<open>Lemmas\<close>

lemma compareEthernetAddress_eq [simp]: "compareEthernetAddress A B \<longleftrightarrow> A = B"
  by (cases A; cases B) (auto simp: compareEthernetAddress_def)

lemma setLltdHeader_Ex:
  "setLltdHeader le b src dst sq oc t = setLltdHeaderEx le b src dst src dst sq oc t"
  by (simp add: setLltdHeader_def setLltdHeaderEx_def)

text \<open>A buffer of at least 32 bytes splits into the fields of a base header and a rest.\<close>

lemma split_header:
  assumes "32 \<le> length (b :: u8 list)"
  obtains d s e v t oc rd rs sq where
    "b = d @ s @ e @ [v, t, b ! 16, oc] @ rd @ rs @ sq @ drop 32 b"
    "length d = 6" "length s = 6" "length e = 2" "length rd = 6" "length rs = 6" "length sq = 2"
proof -
  let ?sl = "\<lambda>n k. take k (drop n b)"
  have glue: "?sl n k @ drop m b = drop n b" if "m = n + k" for n k m
    using that by (metis append_take_drop_id drop_drop add.commute)
  have four: "\<exists>v t r oc. xs = [v, t, r, oc]" if "length xs = 4" for xs :: "u8 list"
    using that by (auto simp: numeral_eq_Suc length_Suc_conv)
  obtain v t r oc where m: "?sl 14 4 = [v, t, r, oc]"
    using four [of "?sl 14 4"] assms by auto
  have "r = ?sl 14 4 ! 2" by (simp add: m)
  also have "\<dots> = b ! 16" using assms by simp
  finally have r: "r = b ! 16" .
  have "b = ?sl 0 6 @ ?sl 6 6 @ ?sl 12 2 @ ?sl 14 4 @ ?sl 18 6 @ ?sl 24 6 @ ?sl 30 2 @ drop 32 b"
    by (simp add: glue del: take_drop)
  then show ?thesis
    unfolding m r by (rule that) (use assms in simp_all)
qed

lemma setLltdHeaderEx_eq:
  assumes "32 \<le> length b"
  shows "setLltdHeaderEx le b es ed rs rd sq oc t =
    Some (demux_bytes ed es lltdEtherType 1 t (b ! 16) oc rd rs sq @ drop 32 b, 32)"
proof -
  obtain d s e v t' oc' rd' rs' sq' where b:
    "b = d @ s @ e @ [v, t', b ! 16, oc'] @ rd' @ rs' @ sq' @ drop 32 b"
    "length d = 6" "length s = 6" "length e = 2" "length rd' = 6" "length rs' = 6" "length sq' = 2"
    using split_header [OF assms] by blast
  have "setLltdHeaderEx le (d @ s @ e @ [v, t', r, oc'] @ rd' @ rs' @ sq' @ rest) es ed rs rd sq oc t =
      Some (demux_bytes ed es lltdEtherType 1 t r oc rd rs sq @ rest, 32)" for r rest
    unfolding setLltdHeaderEx_def store_u16_def store_u8_def store_mac_def
    by (simp only: wire_simps) (simp add: b(2-7) mem_simps demux_bytes_def)
  from this [of "b ! 16" "drop 32 b"] show ?thesis by (simp only: b(1) [symmetric])
qed

lemma setLltdHeader_eq:
  "32 \<le> length b \<Longrightarrow> setLltdHeader le b src dst sq oc t =
    Some (demux_bytes dst src lltdEtherType 1 t (b ! 16) oc dst src sq @ drop 32 b, 32)"
  by (simp add: setLltdHeader_Ex setLltdHeaderEx_eq)

lemma setHelloHeader_eq:
  assumes "off + 14 \<le> length b"
  shows "setHelloHeader le b off am cm gen =
    Some (take off b @ be16 gen @ mac_bytes cm @ mac_bytes am @ drop (off + 14) b, 14)"
proof -
  let ?g = "take 2 (drop off b)" and ?c = "take 6 (drop (off + 2) b)"
    and ?a = "take 6 (drop (off + 8) b)"
  have glue: "take k (drop n b) @ drop m b = drop n b" if "m = n + k" for n k m
    using that by (metis append_take_drop_id drop_drop add.commute)
  have b: "b = take off b @ ?g @ ?c @ ?a @ drop (off + 14) b"
    by (simp add: glue del: take_drop)
  have "length (take off b) = off" "length ?g = 2" "length ?c = 6" "length ?a = 6"
    using assms by simp_all
  then have "setHelloHeader le (take off b @ ?g @ ?c @ ?a @ drop (off + 14) b) off am cm gen =
    Some (take off b @ be16 gen @ mac_bytes cm @ mac_bytes am @ drop (off + 14) b, 14)"
    unfolding setHelloHeader_def store_u16_def store_mac_def
    by (simp only: wire_simps) (simp add: mem_simps)
  then show ?thesis by (simp only: b [symmetric])
qed

lemma load_demux_bytes:
  "load_demux_header le (demux_bytes d s et v t r oc rd rs sq @ rest) =
    Some \<lparr>frameHeader = \<lparr>destination = d, source = s, ethertype = u16_of_mem le (be16 et)\<rparr>,
          version = v, tos = t, reserved = r, opcode = oc,
          realDestination = rd, realSource = rs, seqNumber = u16_of_mem le (be16 sq)\<rparr>"
  unfolding load_demux_header_def demux_bytes_def append_assoc
  by (simp add: mem_simps)

end
