(* ===== verification/LltdTlvOps.thy ===== *)
theory LltdTlvOps
  imports LltdWire
begin

text \<open>
  lltdTlvOps.c: one writer per property of a Hello frame.  A writer gets the frame buffer
  and an offset and returns the buffer and the number of bytes it added; a store outside
  the buffer is \<^term>\<open>None\<close>.  The locale \<open>tlv_op\<close> is the contract the Hello assembler relies
  on: given room for its \<open>reach\<close> bytes, a writer leaves everything before the offset
  alone and puts its encoding right after it.
\<close>

type_synonym tlv_writer = "u8 list \<Rightarrow> nat \<Rightarrow> (u8 list \<times> nat) option"

section \<open>Host specific TLVs\<close>

definition setHostnameTLV :: "port \<Rightarrow> tlv_writer" where
  "setHostnameTLV P buffer offset = do {
     b \<leftarrow> store_u8 buffer offset tlv_hostname;
     let (bytes, written) = p_hostname P 32;
     b \<leftarrow> store_bytes b (offset + 2) bytes;
     let written = (if 32 < written then 32 else written);
     b \<leftarrow> store_u8 b (offset + 1) (of_nat written);
     Some (b, 2 + written)
   }"

definition setHostIdTLV :: "port \<Rightarrow> iface \<Rightarrow> tlv_writer" where
  "setHostIdTLV P ctx buffer offset = do {
     b \<leftarrow> store_u8 buffer offset tlv_hostId;
     b \<leftarrow> store_u8 b (offset + 1) 6;
     let mac = out_param zero_mac (p_mac_address P ctx);
     b \<leftarrow> store_mac b (offset + 2) mac;
     Some (b, 2 + 6)
   }"

definition setCharacteristicsTLV :: "port \<Rightarrow> iface \<Rightarrow> tlv_writer" where
  "setCharacteristicsTLV P ctx buffer offset = do {
     b \<leftarrow> store_u8 buffer offset tlv_characterisics;
     b \<leftarrow> store_u8 b (offset + 1) 4;
     let flags = p_characteristics_flags P ctx;
     b \<leftarrow> store_u32 (p_little_endian P) b (offset + 2)
           (lltd_htonl (p_little_endian P) (push_bit 16 flags));
     Some (b, 2 + 4)
   }"

definition perf_bytes :: "u64 \<Rightarrow> u8 list" where
  "perf_bytes freq =
     [ucast (drop_bit 56 freq AND 0xFF), ucast (drop_bit 48 freq AND 0xFF),
      ucast (drop_bit 40 freq AND 0xFF), ucast (drop_bit 32 freq AND 0xFF),
      ucast (drop_bit 24 freq AND 0xFF), ucast (drop_bit 16 freq AND 0xFF),
      ucast (drop_bit 8 freq AND 0xFF), ucast (freq AND 0xFF)]"

definition setPerfCounterTLV :: tlv_writer where
  "setPerfCounterTLV buffer offset = do {
     b \<leftarrow> store_u8 buffer offset tlv_perfCounterFrequency;
     b \<leftarrow> store_u8 b (offset + 1) 8;
     b \<leftarrow> store_bytes b (offset + 2) (perf_bytes 1000000);
     Some (b, 2 + 8)
   }"

definition setIconImageTLV :: tlv_writer where
  "setIconImageTLV buffer offset = do {
     b \<leftarrow> store_u8 buffer offset tlv_iconImage;
     b \<leftarrow> store_u8 b (offset + 1) 0;
     Some (b, 2)
   }"

definition setSupportInfoTLV :: "port \<Rightarrow> tlv_writer" where
  "setSupportInfoTLV P buffer offset = do {
     b \<leftarrow> store_u8 buffer offset tlv_supportUrl;
     let (bytes, written) = p_support_url P 64;
     b \<leftarrow> store_bytes b (offset + 2) bytes;
     let written = (if 64 < written then 64 else written);
     b \<leftarrow> store_u8 b (offset + 1) (of_nat written);
     Some (b, 2 + written)
   }"

definition setFriendlyNameTLV :: tlv_writer where
  "setFriendlyNameTLV buffer offset = do {
     b \<leftarrow> store_u8 buffer offset tlv_friendlyName;
     b \<leftarrow> store_u8 b (offset + 1) 0;
     Some (b, 2)
   }"

definition setUuidTLV :: "port \<Rightarrow> tlv_writer" where
  "setUuidTLV P buffer offset = do {
     b \<leftarrow> store_u8 buffer offset tlv_uuid;
     let (rc, uuid) = p_upnp_uuid P;
     if rc = 0 then do {
       b \<leftarrow> store_u8 b (offset + 1) 16;
       bytes \<leftarrow> load_bytes uuid 0 16;
       b \<leftarrow> store_bytes b (offset + 2) bytes;
       Some (b, 2 + 16)
     } else do {
       b \<leftarrow> store_u8 b (offset + 1) 0;
       Some (b, 2)
     }
   }"

definition setHardwareIdTLV :: "port \<Rightarrow> tlv_writer" where
  "setHardwareIdTLV P buffer offset = do {
     let (bytes, dataLen) = p_hw_id P 64;
     b \<leftarrow> store_bytes buffer (offset + 2) bytes;
     let dataLen = (if 64 < dataLen then 64 else dataLen);
     if dataLen = 0 then Some (b, 0)
     else do {
       b \<leftarrow> store_u8 b offset tlv_hwIdProperty;
       b \<leftarrow> store_u8 b (offset + 1) (of_nat dataLen);
       Some (b, 2 + dataLen)
     }
   }"

definition setQosCharacteristicsTLV :: "bool \<Rightarrow> tlv_writer" where
  "setQosCharacteristicsTLV le buffer offset = do {
     b \<leftarrow> store_u8 buffer offset tlv_qos_characteristics;
     b \<leftarrow> store_u8 b (offset + 1) 4;
     let qosCharacteristics = lltd_htonl le
       (push_bit 16 (Config_TLV_QOS_L2Fwd OR Config_TLV_QOS_PrioTag OR Config_TLV_QOS_VLAN));
     b \<leftarrow> store_u32 le b (offset + 2) qosCharacteristics;
     Some (b, 2 + 4)
   }"

definition setDetailedIconTLV :: tlv_writer where
  "setDetailedIconTLV buffer offset = Some (buffer, 0)"

definition setComponentTableTLV :: tlv_writer where
  "setComponentTableTLV buffer offset = Some (buffer, 0)"

definition setEndOfPropertyTLV :: tlv_writer where
  "setEndOfPropertyTLV buffer offset = do {
     b \<leftarrow> store_u8 buffer offset eofpropmarker;
     Some (b, 1)
   }"

section \<open>Interface specific TLVs\<close>

definition setPhysicalMediumTLV :: "port \<Rightarrow> iface \<Rightarrow> tlv_writer" where
  "setPhysicalMediumTLV P ctx buffer offset = do {
     b \<leftarrow> store_u8 buffer offset tlv_ifType;
     b \<leftarrow> store_u8 b (offset + 1) 4;
     let ifType = out_param 0 (p_if_type P ctx);
     b \<leftarrow> store_u32 (p_little_endian P) b (offset + 2) (lltd_htonl (p_little_endian P) ifType);
     Some (b, 2 + 4)
   }"

text \<open>The IPv4 address is delivered, and copied, in network order.\<close>

definition setIPv4TLV :: "port \<Rightarrow> iface \<Rightarrow> tlv_writer" where
  "setIPv4TLV P ctx buffer offset = do {
     b \<leftarrow> store_u8 buffer offset tlv_ipv4;
     b \<leftarrow> store_u8 b (offset + 1) 4;
     let ipv4_be = out_param 0 (p_ipv4_address P ctx);
     b \<leftarrow> store_u32 (p_little_endian P) b (offset + 2) ipv4_be;
     Some (b, 2 + 4)
   }"

definition setIPv6TLV :: "port \<Rightarrow> iface \<Rightarrow> tlv_writer" where
  "setIPv6TLV P ctx buffer offset = do {
     b \<leftarrow> store_u8 buffer offset tlv_ipv6;
     b \<leftarrow> store_u8 b (offset + 1) 16;
     bytes \<leftarrow> load_bytes (port_ipv6 P ctx) 0 16;
     b \<leftarrow> store_bytes b (offset + 2) bytes;
     Some (b, 2 + 16)
   }"

definition setLinkSpeedTLV :: "port \<Rightarrow> iface \<Rightarrow> tlv_writer" where
  "setLinkSpeedTLV P ctx buffer offset = do {
     b \<leftarrow> store_u8 buffer offset tlv_linkSpeed;
     b \<leftarrow> store_u8 b (offset + 1) 4;
     let speed_100bps = out_param 0 (p_link_speed_100bps P ctx);
     b \<leftarrow> store_u32 (p_little_endian P) b (offset + 2)
           (lltd_htonl (p_little_endian P) speed_100bps);
     Some (b, 2 + 4)
   }"

definition setSeeslistWorkingSetTLV :: tlv_writer where
  "setSeeslistWorkingSetTLV buffer offset = Some (buffer, 0)"

section \<open>802.11 interface specific TLVs\<close>

definition setWirelessTLV :: "port \<Rightarrow> iface \<Rightarrow> tlv_writer" where
  "setWirelessTLV P ctx buffer offset =
     (if fst (p_wifi_mode P ctx) \<noteq> 0 then Some (buffer, 0)
      else do {
        let mode = out_param 0 (p_wifi_mode P ctx);
        b \<leftarrow> store_u8 buffer offset tlv_wifimode;
        b \<leftarrow> store_u8 b (offset + 1) 1;
        b \<leftarrow> store_u8 b (offset + 2) mode;
        Some (b, 3)
      })"

definition setComponentTable :: tlv_writer where
  "setComponentTable buffer offset = Some (buffer, 0)"

definition setBSSIDTLV :: "port \<Rightarrow> iface \<Rightarrow> tlv_writer" where
  "setBSSIDTLV P ctx buffer offset = do {
     let (rc, bssid) = p_bssid P ctx;
     if rc \<noteq> 0 then Some (buffer, 0)
     else do {
       b \<leftarrow> store_u8 buffer offset tlv_bssid;
       b \<leftarrow> store_u8 b (offset + 1) 6;
       b \<leftarrow> store_mac b (offset + 2) bssid;
       Some (b, 8)
     }
   }"

definition setSSIDTLV :: "port \<Rightarrow> iface \<Rightarrow> tlv_writer" where
  "setSSIDTLV P ctx buffer offset = do {
     b \<leftarrow> store_u8 buffer offset tlv_ssid;
     b \<leftarrow> store_u8 b (offset + 1) 0;
     let (bytes, ssidSize) = p_ssid P ctx 32;
     b \<leftarrow> store_bytes b (offset + 2) bytes;
     let ssidSize = (if 32 < ssidSize then 32 else ssidSize);
     b \<leftarrow> store_u8 b (offset + 1) (of_nat ssidSize);
     Some (b, 2 + ssidSize)
   }"

definition setWifiMaxRateTLV :: "port \<Rightarrow> iface \<Rightarrow> tlv_writer" where
  "setWifiMaxRateTLV P ctx buffer offset = do {
     b \<leftarrow> store_u8 buffer offset tlv_wifiMaxRate;
     b \<leftarrow> store_u8 b (offset + 1) 2;
     let units_0_5mbps = out_param 0 (p_wifi_max_rate_0_5mbps P ctx);
     b \<leftarrow> store_u16 (p_little_endian P) b (offset + 2)
           (lltd_htons (p_little_endian P) units_0_5mbps);
     Some (b, 2 + 2)
   }"

text \<open>The signal strength is a signed byte, sign-extended to 32 bits.\<close>

definition setWifiRssiTLV :: "port \<Rightarrow> iface \<Rightarrow> tlv_writer" where
  "setWifiRssiTLV P ctx buffer offset = do {
     b \<leftarrow> store_u8 buffer offset tlv_wifiRssi;
     b \<leftarrow> store_u8 b (offset + 1) 4;
     let rssi_dbm = out_param 0 (p_wifi_rssi_dbm P ctx);
     b \<leftarrow> store_u32 (p_little_endian P) b (offset + 2)
           (lltd_htonl (p_little_endian P) (scast rssi_dbm));
     Some (b, 2 + 4)
   }"

definition set80211MediumTLV :: "port \<Rightarrow> iface \<Rightarrow> tlv_writer" where
  "set80211MediumTLV P ctx buffer offset = do {
     b \<leftarrow> store_u8 buffer offset tlv_ifType;
     b \<leftarrow> store_u8 b (offset + 1) 4;
     let phyMedium = out_param 0 (p_wifi_phy_medium P ctx);
     b \<leftarrow> store_u32 (p_little_endian P) b (offset + 2)
           (lltd_htonl (p_little_endian P) phyMedium);
     Some (b, 2 + 4)
   }"

definition setAPAssociationTableTLV :: tlv_writer where
  "setAPAssociationTableTLV buffer offset = Some (buffer, 0)"

definition setRepeaterAPLineageTLV :: tlv_writer where
  "setRepeaterAPLineageTLV buffer offset = Some (buffer, 0)"

definition setRepeaterAPTableTLV :: tlv_writer where
  "setRepeaterAPTableTLV buffer offset = Some (buffer, 0)"

text \<open>The statement \<open>offset += op(buffer, offset)\<close> on the pair of buffer and offset.\<close>

definition tlv_adv :: "tlv_writer \<Rightarrow> u8 list \<times> nat \<Rightarrow> (u8 list \<times> nat) option" where
  "tlv_adv op s = map_option (\<lambda>(b, n). (b, snd s + n)) (op (fst s) (snd s))"

section \<open>The contract of a writer\<close>

definition tlv_bytes :: "u8 \<Rightarrow> u8 list \<Rightarrow> u8 list" where
  "tlv_bytes t v = [t, of_nat (length v)] @ v"

lemma length_tlv_bytes [simp]: "length (tlv_bytes t v) = 2 + length v"
  by (simp add: tlv_bytes_def)

text \<open>
  \<open>written s pre n\<close>: the buffer has \<open>n\<close> bytes, the offset is behind \<open>pre\<close>, and the bytes
  before the offset are \<open>pre\<close>.
\<close>

definition written :: "u8 list \<times> nat \<Rightarrow> u8 list \<Rightarrow> nat \<Rightarrow> bool" where
  "written s pre n \<longleftrightarrow>
     length (fst s) = n \<and> snd s = length pre \<and> length pre \<le> n \<and> take (length pre) (fst s) = pre"

lemma written_load: "written s pre n \<Longrightarrow> load_bytes (fst s) 0 (snd s) = Some pre"
  by (simp add: written_def load_bytes_def)

lemma written_store:
  assumes "written (b, off) pre n" "off + length bs \<le> n"
  obtains b' where "store_bytes b off bs = Some b'" "written (b', off + length bs) (pre @ bs) n"
  using assms by (intro that [of "take off b @ bs @ drop (off + length bs) b"])
    (auto simp: written_def store_bytes_def)

lemma written_header:
  assumes "32 \<le> n"
  obtains b where "setLltdHeader le (replicate n 0) src dst sq oc t = Some (b, 32)"
    "written (b, 32) (demux_bytes dst src lltdEtherType 1 t 0 oc dst src sq) n"
  using assms by (intro that [of "demux_bytes dst src lltdEtherType 1 t 0 oc dst src sq @
    drop 32 (replicate n 0)"]) (simp_all add: setLltdHeader_eq written_def)

locale tlv_op =
  fixes op :: tlv_writer and enc :: "u8 list" and reach :: nat
  assumes appends: "\<And>pre n s. written s pre n \<Longrightarrow> length pre + reach \<le> n \<Longrightarrow>
      \<exists>s'. tlv_adv op s = Some s' \<and> written s' (pre @ enc) n"
    and within_reach: "length enc \<le> reach"
begin

lemma more_room:
  assumes "written s pre n" "length pre + reach \<le> n"
  obtains s' where "tlv_adv op s = Some s'" "written s' (pre @ enc) n"
  using appends [OF assms] by blast

end

text \<open>
  The same contract for a step of the Hello assembler, which is built from writers by
  running one after the other on the buffer and the running offset.
\<close>

definition tlv_step :: "(u8 list \<times> nat \<Rightarrow> (u8 list \<times> nat) option) \<Rightarrow> u8 list \<Rightarrow> nat \<Rightarrow> bool" where
  "tlv_step F enc reach \<longleftrightarrow> length enc \<le> reach \<and>
     (\<forall>pre n s. written s pre n \<and> length pre + reach \<le> n \<longrightarrow>
        (\<exists>s'. F s = Some s' \<and> written s' (pre @ enc) n))"

context tlv_op begin

lemma is_step: "tlv_step (tlv_adv op) enc reach"
  using appends within_reach by (auto simp: tlv_step_def)

end

lemma tlv_step_bind:
  assumes "tlv_step F e r" "tlv_step G e' r'"
  shows "tlv_step (\<lambda>s. F s \<bind> G) (e @ e') (r + r')"
  unfolding tlv_step_def
proof (intro conjI allI impI)
  show "length (e @ e') \<le> r + r'" using assms by (auto simp: tlv_step_def)
  fix pre n and s :: "u8 list \<times> nat"
  assume w: "written s pre n \<and> length pre + (r + r') \<le> n"
  then obtain s' where s': "F s = Some s'" "written s' (pre @ e) n"
    using assms(1) unfolding tlv_step_def by (metis add_leD1 add.assoc)
  moreover have "length (pre @ e) + r' \<le> n"
    using w assms(1) by (auto simp: tlv_step_def)
  ultimately obtain s'' where "G s' = Some s''" "written s'' ((pre @ e) @ e') n"
    using assms(2) unfolding tlv_step_def by blast
  with s' show "\<exists>s'. (F s \<bind> G) = Some s' \<and> written s' (pre @ e @ e') n" by simp
qed

lemma tlv_stepE:
  assumes "tlv_step F e r" "written s pre n" "length pre + r \<le> n"
  obtains s' where "F s = Some s'" "written s' (pre @ e) n"
  using assms unfolding tlv_step_def by blast

lemma tlv_step_Some: "tlv_step Some [] 0"
  by (simp add: tlv_step_def)

lemma tlv_step_mono: "tlv_step F e r \<Longrightarrow> r \<le> r' \<Longrightarrow> tlv_step F e r'"
  unfolding tlv_step_def by (meson add_le_cancel_left order_trans)

lemma tlv_opI:
  assumes "length enc \<le> reach"
    and "\<And>pre mid rest. length mid = reach \<Longrightarrow>
      \<exists>rest'. op (pre @ mid @ rest) (length pre) = Some (pre @ enc @ rest', length enc) \<and>
        length enc + length rest' = reach + length rest"
  shows "tlv_op op enc reach"
proof
  fix pre n and s :: "u8 list \<times> nat"
  assume w: "written s pre n" and room: "length pre + reach \<le> n"
  define mid where "mid = take reach (drop (length pre) (fst s))"
  define rest where "rest = drop (length pre + reach) (fst s)"
  have "mid @ rest = drop (length pre) (fst s)"
    unfolding mid_def rest_def by (metis append_take_drop_id drop_drop add.commute)
  then have b: "fst s = pre @ mid @ rest" "length mid = reach" "snd s = length pre"
    using w room append_take_drop_id [of "length pre" "fst s"]
    by (simp_all add: written_def mid_def)
  obtain rest' where "op (pre @ mid @ rest) (length pre) = Some (pre @ enc @ rest', length enc)"
    "length enc + length rest' = reach + length rest"
    using assms(2) [OF b(2)] by blast
  moreover have "length (pre @ mid @ rest) = n" using w b(1) by (simp add: written_def)
  ultimately show "\<exists>s'. tlv_adv op s = Some s' \<and> written s' (pre @ enc) n"
    using b by (simp add: tlv_adv_def written_def)
qed (rule assms(1))

section \<open>Every writer keeps the contract\<close>

text \<open>The writers of a type, a length and a payload that is stored in one piece.\<close>

lemma put_tlv:
  assumes "length mid = 2 + length v"
  shows "store_u8 (pre @ mid @ rest) (length pre) t \<bind> (\<lambda>b.
      store_u8 b (Suc (length pre)) l \<bind> (\<lambda>b. store_bytes b (Suc (Suc (length pre))) v \<bind> k)) =
    k (pre @ [t, l] @ v @ rest)"
proof -
  obtain x y m where "mid = x # y # m" "length m = length v"
    using assms by (auto simp: length_Suc_conv)
  then show ?thesis by (simp add: store_u8_def mem_simps)
qed

lemma put_tlv_late:
  assumes "length mid = 2 + cap" "length bytes \<le> cap"
  shows "store_u8 (pre @ mid @ rest) (length pre) t \<bind> (\<lambda>b.
      store_bytes b (Suc (Suc (length pre))) bytes \<bind>
      (\<lambda>b. store_u8 b (Suc (length pre)) l \<bind> k)) =
    k (pre @ [t, l] @ bytes @ drop (2 + length bytes) mid @ rest)"
proof -
  obtain x y m where m: "mid = x # y # m" "length m = cap"
    using assms by (auto simp: length_Suc_conv)
  define m1 m2 where "m1 = take (length bytes) m" and "m2 = drop (length bytes) m"
  have "m = m1 @ m2" "length bytes = length m1" using assms m by (simp_all add: m1_def m2_def)
  with m show ?thesis by (simp add: store_u8_def mem_simps)
qed


definition hostname_enc :: "port \<Rightarrow> u8 list" where
  "hostname_enc P = tlv_bytes tlv_hostname (take (snd (p_hostname P 32)) (fst (p_hostname P 32)))"

definition host_id_enc :: "port \<Rightarrow> iface \<Rightarrow> u8 list" where
  "host_id_enc P ctx = tlv_bytes tlv_hostId (mac_bytes (port_mac P ctx))"

definition characteristics_enc :: "port \<Rightarrow> iface \<Rightarrow> u8 list" where
  "characteristics_enc P ctx =
     tlv_bytes tlv_characterisics (be32 (push_bit 16 (p_characteristics_flags P ctx)))"

definition perf_counter_enc :: "u8 list" where
  "perf_counter_enc = tlv_bytes tlv_perfCounterFrequency [0, 0, 0, 0, 0, 0x0F, 0x42, 0x40]"

definition support_info_enc :: "port \<Rightarrow> u8 list" where
  "support_info_enc P =
     tlv_bytes tlv_supportUrl (take (snd (p_support_url P 64)) (fst (p_support_url P 64)))"

definition uuid_enc :: "port \<Rightarrow> u8 list" where
  "uuid_enc P = tlv_bytes tlv_uuid (if fst (p_upnp_uuid P) = 0 then snd (p_upnp_uuid P) else [])"

definition hw_id_enc :: "port \<Rightarrow> u8 list" where
  "hw_id_enc P =
     (let v = take (snd (p_hw_id P 64)) (fst (p_hw_id P 64))
      in if v = [] then [] else tlv_bytes tlv_hwIdProperty v)"

definition qos_enc :: "u8 list" where
  "qos_enc = tlv_bytes tlv_qos_characteristics [0xE0, 0, 0, 0]"

definition if_type_enc :: "port \<Rightarrow> iface \<Rightarrow> u8 list" where
  "if_type_enc P ctx = tlv_bytes tlv_ifType (be32 (out_param 0 (p_if_type P ctx)))"

definition ipv4_enc :: "port \<Rightarrow> iface \<Rightarrow> u8 list" where
  "ipv4_enc P ctx =
     tlv_bytes tlv_ipv4 (mem_of_u32 (p_little_endian P) (out_param 0 (p_ipv4_address P ctx)))"

definition ipv6_enc :: "port \<Rightarrow> iface \<Rightarrow> u8 list" where
  "ipv6_enc P ctx = tlv_bytes tlv_ipv6 (port_ipv6 P ctx)"

definition link_speed_enc :: "port \<Rightarrow> iface \<Rightarrow> u8 list" where
  "link_speed_enc P ctx = tlv_bytes tlv_linkSpeed (be32 (out_param 0 (p_link_speed_100bps P ctx)))"

definition wireless_enc :: "port \<Rightarrow> iface \<Rightarrow> u8 list" where
  "wireless_enc P ctx =
     (if fst (p_wifi_mode P ctx) \<noteq> 0 then []
      else tlv_bytes tlv_wifimode [out_param 0 (p_wifi_mode P ctx)])"

definition bssid_enc :: "port \<Rightarrow> iface \<Rightarrow> u8 list" where
  "bssid_enc P ctx =
     (if fst (p_bssid P ctx) \<noteq> 0 then [] else tlv_bytes tlv_bssid (mac_bytes (snd (p_bssid P ctx))))"

definition ssid_enc :: "port \<Rightarrow> iface \<Rightarrow> u8 list" where
  "ssid_enc P ctx = tlv_bytes tlv_ssid (take (snd (p_ssid P ctx 32)) (fst (p_ssid P ctx 32)))"

definition wifi_max_rate_enc :: "port \<Rightarrow> iface \<Rightarrow> u8 list" where
  "wifi_max_rate_enc P ctx =
     tlv_bytes tlv_wifiMaxRate (be16 (out_param 0 (p_wifi_max_rate_0_5mbps P ctx)))"

definition wifi_rssi_enc :: "port \<Rightarrow> iface \<Rightarrow> u8 list" where
  "wifi_rssi_enc P ctx =
     tlv_bytes tlv_wifiRssi (be32 (scast (out_param 0 (p_wifi_rssi_dbm P ctx))))"

definition phy_medium_enc :: "port \<Rightarrow> iface \<Rightarrow> u8 list" where
  "phy_medium_enc P ctx = tlv_bytes tlv_ifType (be32 (out_param 0 (p_wifi_phy_medium P ctx)))"

text \<open>Three shapes of writer: a fixed payload, no output, and a getter filling the buffer.\<close>

lemma tlv_op_fixed:
  assumes "\<And>b off. op b off = store_u8 b off t \<bind> (\<lambda>b. store_u8 b (Suc off) l \<bind>
      (\<lambda>b. store_bytes b (Suc (Suc off)) v \<bind> (\<lambda>b. Some (b, 2 + length v))))"
    and "l = of_nat (length v)"
  shows "tlv_op op (tlv_bytes t v) (2 + length v)"
proof (rule tlv_opI)
  fix pre mid rest :: "u8 list"
  assume "length mid = 2 + length v"
  note put_tlv [OF this, of pre rest t l "\<lambda>b. Some (b, 2 + length v)"]
  then show "\<exists>rest'. op (pre @ mid @ rest) (length pre) =
      Some (pre @ tlv_bytes t v @ rest', length (tlv_bytes t v)) \<and>
      length (tlv_bytes t v) + length rest' = 2 + length v + length rest"
    by (simp add: assms tlv_bytes_def)
qed simp

lemma tlv_op_none: "(\<And>b off. op b off = Some (b, 0)) \<Longrightarrow> tlv_op op [] r"
  by (rule tlv_opI) auto

lemma tlv_op_getter:
  assumes "\<And>b off. op b off = store_u8 b off t \<bind> (\<lambda>b. store_bytes b (Suc (Suc off)) bytes \<bind>
      (\<lambda>b. store_u8 b (Suc off) (of_nat n) \<bind> (\<lambda>b. Some (b, 2 + n))))"
    and "length bytes \<le> cap" and "n \<le> length bytes"
  shows "tlv_op op (tlv_bytes t (take n bytes)) (2 + cap)"
proof (rule tlv_opI)
  fix pre mid rest :: "u8 list"
  assume mid: "length mid = 2 + cap"
  have "pre @ [t, of_nat n] @ bytes @ drop (2 + length bytes) mid @ rest =
      pre @ tlv_bytes t (take n bytes) @ drop n bytes @ drop (2 + length bytes) mid @ rest"
    using assms(3) by (simp add: tlv_bytes_def flip: append_assoc)
  with put_tlv_late [OF mid assms(2), of pre rest t "of_nat n" "\<lambda>b. Some (b, 2 + n)"]
  show "\<exists>rest'. op (pre @ mid @ rest) (length pre) =
      Some (pre @ tlv_bytes t (take n bytes) @ rest', length (tlv_bytes t (take n bytes))) \<and>
      length (tlv_bytes t (take n bytes)) + length rest' = 2 + cap + length rest"
    by (intro exI [of _ "drop n bytes @ drop (2 + length bytes) mid @ rest"])
      (use assms mid in simp)
qed (use assms in simp)

interpretation host_id: tlv_op "setHostIdTLV P ctx" "host_id_enc P ctx" 8 for P ctx
  unfolding host_id_enc_def
  by (rule tlv_op_fixed [where v = "mac_bytes (port_mac P ctx)", simplified])
    (simp_all add: setHostIdTLV_def store_mac_def port_mac_def)


interpretation characteristics: tlv_op "setCharacteristicsTLV P ctx" "characteristics_enc P ctx" 6 for P ctx
  unfolding characteristics_enc_def
  by (rule tlv_op_fixed [where v = "be32 (push_bit 16 (p_characteristics_flags P ctx))", simplified])
    (simp_all add: setCharacteristicsTLV_def store_u32_def mem_of_htonl)

interpretation if_type: tlv_op "setPhysicalMediumTLV P ctx" "if_type_enc P ctx" 6 for P ctx
  unfolding if_type_enc_def
  by (rule tlv_op_fixed [where v = "be32 (out_param 0 (p_if_type P ctx))", simplified])
    (simp_all add: setPhysicalMediumTLV_def store_u32_def mem_of_htonl)

interpretation ipv4: tlv_op "setIPv4TLV P ctx" "ipv4_enc P ctx" 6 for P ctx
  unfolding ipv4_enc_def
  by (rule tlv_op_fixed [where v = "mem_of_u32 (p_little_endian P) (out_param 0 (p_ipv4_address P ctx))", simplified])
    (simp_all add: setIPv4TLV_def store_u32_def)

interpretation link_speed: tlv_op "setLinkSpeedTLV P ctx" "link_speed_enc P ctx" 6 for P ctx
  unfolding link_speed_enc_def
  by (rule tlv_op_fixed [where v = "be32 (out_param 0 (p_link_speed_100bps P ctx))", simplified])
    (simp_all add: setLinkSpeedTLV_def store_u32_def mem_of_htonl)

interpretation wifi_rssi: tlv_op "setWifiRssiTLV P ctx" "wifi_rssi_enc P ctx" 6 for P ctx
  unfolding wifi_rssi_enc_def
  by (rule tlv_op_fixed [where v = "be32 (scast (out_param 0 (p_wifi_rssi_dbm P ctx)))", simplified])
    (simp_all add: setWifiRssiTLV_def store_u32_def mem_of_htonl)

interpretation phy_medium: tlv_op "set80211MediumTLV P ctx" "phy_medium_enc P ctx" 6 for P ctx
  unfolding phy_medium_enc_def
  by (rule tlv_op_fixed [where v = "be32 (out_param 0 (p_wifi_phy_medium P ctx))", simplified])
    (simp_all add: set80211MediumTLV_def store_u32_def mem_of_htonl)

interpretation wifi_max_rate: tlv_op "setWifiMaxRateTLV P ctx" "wifi_max_rate_enc P ctx" 4 for P ctx
  unfolding wifi_max_rate_enc_def
  by (rule tlv_op_fixed [where v = "be16 (out_param 0 (p_wifi_max_rate_0_5mbps P ctx))", simplified])
    (simp_all add: setWifiMaxRateTLV_def store_u16_def mem_of_htons)

lemma perf_bytes_1MHz: "perf_bytes 1000000 = [0, 0, 0, 0, 0, 0x0F, 0x42, 0x40]"
  by (simp add: perf_bytes_def)

lemma qos_bytes:
  "be32 (push_bit 16 (Config_TLV_QOS_L2Fwd OR Config_TLV_QOS_PrioTag OR Config_TLV_QOS_VLAN)) =
   [0xE0, 0, 0, 0]"
  by (simp add: be32_def)

interpretation perf_counter: tlv_op setPerfCounterTLV perf_counter_enc 10
  unfolding perf_counter_enc_def
  by (rule tlv_op_fixed [where v = "[0, 0, 0, 0, 0, 0x0F, 0x42, 0x40]", simplified])
    (simp_all add: setPerfCounterTLV_def perf_bytes_1MHz)

interpretation qos: tlv_op "setQosCharacteristicsTLV le" qos_enc 6 for le
  unfolding qos_enc_def
  by (rule tlv_op_fixed [where v = "[0xE0, 0, 0, 0]", simplified])
    (simp_all only: setQosCharacteristicsTLV_def store_u32_def mem_of_htonl qos_bytes Let_def,
      simp_all)

lemma tlv_op_empty:
  assumes "\<And>b off. op b off = store_u8 b off t \<bind> (\<lambda>b. store_u8 b (Suc off) 0 \<bind>
      (\<lambda>b. Some (b, 2)))"
  shows "tlv_op op (tlv_bytes t []) 2"
proof (rule tlv_opI)
  fix pre mid rest :: "u8 list"
  assume "length mid = 2"
  then obtain x y where "mid = [x, y]" by (auto simp: numeral_2_eq_2 length_Suc_conv)
  then show "\<exists>rest'. op (pre @ mid @ rest) (length pre) =
      Some (pre @ tlv_bytes t [] @ rest', length (tlv_bytes t [])) \<and>
      length (tlv_bytes t []) + length rest' = 2 + length rest"
    by (simp add: assms tlv_bytes_def store_u8_def mem_simps)
qed simp

interpretation icon_image: tlv_op setIconImageTLV "tlv_bytes tlv_iconImage []" 2
  by (rule tlv_op_empty) (simp add: setIconImageTLV_def)

interpretation friendly_name: tlv_op setFriendlyNameTLV "tlv_bytes tlv_friendlyName []" 2
  by (rule tlv_op_empty) (simp add: setFriendlyNameTLV_def)

interpretation end_of_property: tlv_op setEndOfPropertyTLV "[eofpropmarker]" 1
proof (rule tlv_opI)
  fix pre mid rest :: "u8 list"
  assume "length mid = 1"
  then obtain x where "mid = [x]" by (auto simp: length_Suc_conv)
  then show "\<exists>rest'. setEndOfPropertyTLV (pre @ mid @ rest) (length pre) =
      Some (pre @ [eofpropmarker] @ rest', length [eofpropmarker]) \<and>
      length [eofpropmarker] + length rest' = 1 + length rest"
    by (simp add: setEndOfPropertyTLV_def store_u8_def mem_simps)
qed simp

interpretation detailed_icon: tlv_op setDetailedIconTLV "[]" 0
  by (rule tlv_op_none) (simp add: setDetailedIconTLV_def)

interpretation component_table_tlv: tlv_op setComponentTableTLV "[]" 0
  by (rule tlv_op_none) (simp add: setComponentTableTLV_def)

interpretation component_table: tlv_op setComponentTable "[]" 0
  by (rule tlv_op_none) (simp add: setComponentTable_def)

interpretation seeslist: tlv_op setSeeslistWorkingSetTLV "[]" 0
  by (rule tlv_op_none) (simp add: setSeeslistWorkingSetTLV_def)

interpretation ap_table: tlv_op setAPAssociationTableTLV "[]" 0
  by (rule tlv_op_none) (simp add: setAPAssociationTableTLV_def)

interpretation ap_lineage: tlv_op setRepeaterAPLineageTLV "[]" 0
  by (rule tlv_op_none) (simp add: setRepeaterAPLineageTLV_def)

interpretation repeater_table: tlv_op setRepeaterAPTableTLV "[]" 0
  by (rule tlv_op_none) (simp add: setRepeaterAPTableTLV_def)

lemma tlv_op_weaken: "tlv_op op e r \<Longrightarrow> r \<le> r' \<Longrightarrow> tlv_op op e r'"
  unfolding tlv_op_def by (meson add_le_cancel_left order_trans)

interpretation bssid: tlv_op "setBSSIDTLV P ctx" "bssid_enc P ctx" 8 for P ctx
proof (cases "fst (p_bssid P ctx) = 0")
  case True
  have "tlv_op (setBSSIDTLV P ctx) (tlv_bytes tlv_bssid (mac_bytes (snd (p_bssid P ctx)))) 8"
    by (rule tlv_op_fixed [where v = "mac_bytes (snd (p_bssid P ctx))", simplified])
      (simp_all add: setBSSIDTLV_def store_mac_def True case_prod_beta)
  with True show "tlv_op (setBSSIDTLV P ctx) (bssid_enc P ctx) 8" by (simp add: bssid_enc_def)
next
  case False
  then show "tlv_op (setBSSIDTLV P ctx) (bssid_enc P ctx) 8"
    unfolding bssid_enc_def
    by (simp, intro tlv_op_none) (simp add: setBSSIDTLV_def case_prod_beta)
qed

interpretation wireless: tlv_op "setWirelessTLV P ctx" "wireless_enc P ctx" 3 for P ctx
proof (cases "fst (p_wifi_mode P ctx) = 0")
  case True
  have "tlv_op (setWirelessTLV P ctx)
      (tlv_bytes tlv_wifimode [out_param 0 (p_wifi_mode P ctx)]) 3"
    by (rule tlv_op_fixed [where v = "[out_param 0 (p_wifi_mode P ctx)]", simplified])
      (simp_all add: setWirelessTLV_def store_u8_def True)
  with True show "tlv_op (setWirelessTLV P ctx) (wireless_enc P ctx) 3"
    by (simp add: wireless_enc_def)
next
  case False
  then show "tlv_op (setWirelessTLV P ctx) (wireless_enc P ctx) 3"
    by (simp add: wireless_enc_def setWirelessTLV_def tlv_op_none)
qed

text \<open>The writers whose payload a getter delivers need the contract of the port.\<close>

sublocale lltd_port_contract \<subseteq> hostname: tlv_op "setHostnameTLV P" "hostname_enc P" 34
  unfolding hostname_enc_def
  by (rule tlv_op_getter [where cap = 32, simplified])
    (use hostname_cap [of 32] hostname_ret [of 32] in
      \<open>auto simp: setHostnameTLV_def case_prod_beta Let_def\<close>)

sublocale lltd_port_contract \<subseteq> support_info: tlv_op "setSupportInfoTLV P" "support_info_enc P" 66
  unfolding support_info_enc_def
  by (rule tlv_op_getter [where cap = 64, simplified])
    (use support_url_cap [of 64] support_url_ret [of 64] in
      \<open>auto simp: setSupportInfoTLV_def case_prod_beta Let_def\<close>)

sublocale lltd_port_contract \<subseteq> ipv6: tlv_op "setIPv6TLV P ctx" "ipv6_enc P ctx" 18 for ctx
  unfolding ipv6_enc_def
  by (rule tlv_op_fixed [where v = "port_ipv6 P ctx", simplified])
    (simp_all add: setIPv6TLV_def mem_simps)

sublocale lltd_port_contract \<subseteq> uuid: tlv_op "setUuidTLV P" "uuid_enc P" 18
proof (cases "fst (p_upnp_uuid P) = 0")
  case True
  have len: "length (snd (p_upnp_uuid P)) = 16" by (rule uuid_size [OF True])
  have "load_bytes (snd (p_upnp_uuid P)) 0 16 = Some (snd (p_upnp_uuid P))"
    using len by (rule load_bytes_all)
  then have "tlv_op (setUuidTLV P) (tlv_bytes tlv_uuid (snd (p_upnp_uuid P)))
      (2 + length (snd (p_upnp_uuid P)))"
    by (intro tlv_op_fixed [where l = 16]) (simp_all add: setUuidTLV_def case_prod_beta True len)
  with True len show "tlv_op (setUuidTLV P) (uuid_enc P) 18" by (simp add: uuid_enc_def)
next
  case False
  have "tlv_op (setUuidTLV P) (tlv_bytes tlv_uuid []) 2"
    by (rule tlv_op_empty) (simp add: setUuidTLV_def case_prod_beta False)
  with False show "tlv_op (setUuidTLV P) (uuid_enc P) 18"
    by (simp add: uuid_enc_def tlv_op_weaken)
qed

text \<open>Splitting the room of a writer that fills the payload before it knows the length.\<close>

lemma getter_room:
  assumes "length mid = 2 + cap" "length (bytes :: u8 list) \<le> cap"
  obtains x y m1 m2 where "mid = x # y # m1 @ m2" "length m1 = length bytes"
    "length bytes + length m2 = cap"
proof -
  obtain x y m where m: "mid = x # y # m" "length m = cap"
    using assms by (auto simp: length_Suc_conv)
  show ?thesis
    by (rule that [of x y "take (length bytes) m" "drop (length bytes) m"]) (use m assms in simp_all)
qed

sublocale lltd_port_contract \<subseteq> ssid: tlv_op "setSSIDTLV P ctx" "ssid_enc P ctx" 34 for ctx
proof (rule tlv_opI)
  let ?n = "snd (p_ssid P ctx 32)" and ?v = "fst (p_ssid P ctx 32)"
  have n: "?n \<le> length ?v" "length ?v \<le> 32" using ssid_ret ssid_cap by auto
  then show "length (ssid_enc P ctx) \<le> 34" by (simp add: ssid_enc_def)
  fix pre mid rest :: "u8 list"
  assume "length mid = 34"
  then obtain x y m1 m2 where m: "mid = x # y # m1 @ m2" "length m1 = length ?v"
    "length ?v + length m2 = 32"
    by (elim getter_room [of mid 32 ?v, simplified, OF _ n(2)])
  have "setSSIDTLV P ctx (pre @ mid @ rest) (length pre) =
      Some (pre @ [tlv_ssid, of_nat ?n] @ ?v @ m2 @ rest, 2 + ?n)"
    using n m by (simp add: setSSIDTLV_def case_prod_beta Let_def store_u8_def mem_simps)
  moreover have "[tlv_ssid, of_nat ?n] @ ?v = ssid_enc P ctx @ drop ?n ?v"
    using n by (simp add: ssid_enc_def tlv_bytes_def)
  ultimately show "\<exists>rest'. setSSIDTLV P ctx (pre @ mid @ rest) (length pre) =
      Some (pre @ ssid_enc P ctx @ rest', length (ssid_enc P ctx)) \<and>
      length (ssid_enc P ctx) + length rest' = 34 + length rest"
    by (intro exI [of _ "drop ?n ?v @ m2 @ rest"]) (use n m in \<open>simp add: ssid_enc_def\<close>)
qed

sublocale lltd_port_contract \<subseteq> hw_id: tlv_op "setHardwareIdTLV P" "hw_id_enc P" 66
proof (rule tlv_opI)
  let ?n = "snd (p_hw_id P 64)" and ?v = "fst (p_hw_id P 64)"
  have n: "?n \<le> length ?v" "length ?v \<le> 64" using hw_id_ret hw_id_cap by auto
  then show "length (hw_id_enc P) \<le> 66" by (auto simp: hw_id_enc_def Let_def)
  fix pre mid rest :: "u8 list"
  assume "length mid = 66"
  then obtain x y m1 m2 where m: "mid = x # y # m1 @ m2" "length m1 = length ?v"
    "length ?v + length m2 = 64"
    by (elim getter_room [of mid 64 ?v, simplified, OF _ n(2)])
  show "\<exists>rest'. setHardwareIdTLV P (pre @ mid @ rest) (length pre) =
      Some (pre @ hw_id_enc P @ rest', length (hw_id_enc P)) \<and>
      length (hw_id_enc P) + length rest' = 66 + length rest"
  proof (cases "?n = 0")
    case True
    then show ?thesis
      using n m by (simp add: setHardwareIdTLV_def hw_id_enc_def case_prod_beta Let_def mem_simps)
  next
    case False
    then have "setHardwareIdTLV P (pre @ mid @ rest) (length pre) =
        Some (pre @ [tlv_hwIdProperty, of_nat ?n] @ ?v @ m2 @ rest, 2 + ?n)"
      using n m
      by (simp add: setHardwareIdTLV_def case_prod_beta Let_def store_u8_def mem_simps)
    moreover have "take ?n ?v \<noteq> []" using False n by auto
    then have "[tlv_hwIdProperty, of_nat ?n] @ ?v = hw_id_enc P @ drop ?n ?v"
      using n by (simp add: hw_id_enc_def Let_def tlv_bytes_def)
    ultimately show ?thesis
      by (intro exI [of _ "drop ?n ?v @ m2 @ rest"])
        (use n m \<open>take ?n ?v \<noteq> []\<close> in \<open>simp add: hw_id_enc_def Let_def\<close>)
  qed
qed

end
