(* ===== verification/LltdBlockState.thy ===== *)
theory LltdBlockState
  imports LltdTlvOps
begin

text \<open>
  lltdBlock.c, the per-interface state: the list of probes the responder has seen, the
  mapper it is bound to with its two generation numbers, and the icon cache.  The global
  list \<open>g_iface_states\<close> is the list of the states, newest first; \<open>lltd_state_for_iface\<close>
  returns a position in it.  The invariants \<open>state_ok\<close> and \<open>states_ok\<close> are kept by
  every handler of the theories built on this one.
\<close>

section \<open>State\<close>

record lltd_iface_state =
  iface_ctx :: iface
  see_list :: "probe_t list"
  see_list_count :: u32
  mapper_real :: ethernet_address_t
  mapper_apparent :: ethernet_address_t
  mapper_known :: u8
  mapper_seq :: u16
  mapper_gen_topology :: u16
  mapper_gen_quick :: u16
  small_icon :: "u8 list option"
  small_icon_size :: nat

abbreviation (input) sizeof_iface_state :: nat where "sizeof_iface_state \<equiv> 64"

definition fresh_state :: "iface \<Rightarrow> lltd_iface_state" where
  "fresh_state ctx =
     \<lparr>iface_ctx = ctx, see_list = [], see_list_count = 0, mapper_real = zero_mac,
      mapper_apparent = zero_mac, mapper_known = 0, mapper_seq = 0, mapper_gen_topology = 0,
      mapper_gen_quick = 0, small_icon = None, small_icon_size = 0\<rparr>"

section \<open>Operations\<close>

text \<open>The position of the state, with the list extended at its head on a first use.\<close>

definition lltd_state_for_iface ::
    "port \<Rightarrow> iface \<Rightarrow> lltd_iface_state list \<Rightarrow> world \<Rightarrow>
     nat option \<times> lltd_iface_state list \<times> world" where
  "lltd_state_for_iface P ctx states w =
     (case first_index (\<lambda>cur. iface_ctx cur = ctx) states of
        Some i \<Rightarrow> (Some i, states, w)
      | None \<Rightarrow>
          (let (ok, w) = lltd_port_malloc P sizeof_iface_state w
           in if ok then (Some 0, fresh_state ctx # states, w) else (None, states, w)))"

text \<open>Freeing the nodes of the list, one after the other.\<close>

fun free_probes :: "probe_t list \<Rightarrow> world \<Rightarrow> world" where
  "free_probes [] w = w"
| "free_probes (cur # next) w = free_probes next (lltd_port_free w)"

definition lltd_state_clear_seen_probes ::
    "lltd_iface_state \<times> world \<Rightarrow> lltd_iface_state \<times> world" where
  "lltd_state_clear_seen_probes = (\<lambda>(st, w).
     (st\<lparr>see_list := [], see_list_count := 0\<rparr>, free_probes (see_list st) w))"

definition lltd_state_clear_icon_cache ::
    "lltd_iface_state \<times> world \<Rightarrow> lltd_iface_state \<times> world" where
  "lltd_state_clear_icon_cache = (\<lambda>(st, w).
     let w = (if small_icon st \<noteq> None then lltd_port_free w else w)
     in (st\<lparr>small_icon := None, small_icon_size := 0\<rparr>, w))"

definition lltd_now_ms :: "port \<Rightarrow> world \<Rightarrow> u64 \<times> world" where
  "lltd_now_ms P w = lltd_port_monotonic_milliseconds P w"

text \<open>The log line itself is not modelled; the clock reading its arguments make is.\<close>

definition log_lltd_frame :: "port \<Rightarrow> world \<Rightarrow> world" where
  "log_lltd_frame P w = snd (lltd_now_ms P w)"

definition lltd_hex_digit :: "u8 \<Rightarrow> u8" where
  "lltd_hex_digit value =
     (let value = value AND 0x0F
      in if value < 10 then 0x30 + value else 0x61 + (value - 10))"

text \<open>The output buffer; nothing is written when it is shorter than 18 bytes.\<close>

fun format_mac_from :: "u8 list \<Rightarrow> nat \<Rightarrow> u8 list \<Rightarrow> nat \<Rightarrow> u8 list option" where
  "format_mac_from [] i out pos = store_u8 out pos 0"
| "format_mac_from (m # mac) i out pos = do {
     out \<leftarrow> store_u8 out pos (lltd_hex_digit (drop_bit 4 m));
     out \<leftarrow> store_u8 out (pos + 1) (lltd_hex_digit m);
     if i \<noteq> 5 then do {
       out \<leftarrow> store_u8 out (pos + 2) 0x3A;
       format_mac_from mac (i + 1) out (pos + 3)
     } else format_mac_from mac (i + 1) out (pos + 2)
   }"

definition format_mac_str :: "ethernet_address_t \<Rightarrow> u8 list \<Rightarrow> u8 list option" where
  "format_mac_str mac out =
     (if length out < 18 then Some out else format_mac_from (mac_bytes mac) 0 out 0)"

text \<open>Whether the warning about a byte-swapped generation is logged.\<close>

definition log_generation_warning_if_swapped :: "lltd_iface_state \<Rightarrow> u16 \<Rightarrow> u8 \<Rightarrow> bool" where
  "log_generation_warning_if_swapped st generation_host t =
     (let prior = (if t = tos_quick_discovery then mapper_gen_quick st else mapper_gen_topology st)
      in prior \<noteq> 0 \<and> generation_host = lltd_bswap16 prior)"

text \<open>The slot a pointer of the code selects, as a reader and a writer of the field.\<close>

datatype generation_slot = GenTopology | GenQuick

definition mapper_generation_for_tos :: "u8 \<Rightarrow> generation_slot" where
  "mapper_generation_for_tos t = (if t = tos_quick_discovery then GenQuick else GenTopology)"

definition mapper_generation_label :: "u8 \<Rightarrow> string" where
  "mapper_generation_label t = (if t = tos_quick_discovery then ''quick'' else ''topology'')"

fun get_slot :: "generation_slot \<Rightarrow> lltd_iface_state \<Rightarrow> u16" where
  "get_slot GenTopology st = mapper_gen_topology st"
| "get_slot GenQuick st = mapper_gen_quick st"

fun set_slot :: "generation_slot \<Rightarrow> u16 \<Rightarrow> lltd_iface_state \<Rightarrow> lltd_iface_state" where
  "set_slot GenTopology g st = st\<lparr>mapper_gen_topology := g\<rparr>"
| "set_slot GenQuick g st = st\<lparr>mapper_gen_quick := g\<rparr>"

definition mapper_matches :: "lltd_iface_state \<Rightarrow> ethernet_address_t \<Rightarrow> bool" where
  "mapper_matches st real_src =
     (if mapper_known st = 0 then True else compareEthernetAddress (mapper_real st) real_src)"

definition set_active_mapper ::
    "ethernet_address_t \<Rightarrow> ethernet_address_t \<Rightarrow> lltd_iface_state \<Rightarrow> lltd_iface_state" where
  "set_active_mapper real_src eth_src st =
     (if mapper_known st = 0
      then st\<lparr>mapper_real := real_src, mapper_apparent := eth_src, mapper_known := 1\<rparr>
      else st)"

text \<open>Whether the warning about a slot that does not belong to the type of service is logged.\<close>

definition warn_generation_store_mismatch :: "u8 \<Rightarrow> generation_slot \<Rightarrow> bool" where
  "warn_generation_store_mismatch t slot \<longleftrightarrow>
     (t = tos_quick_discovery \<and> slot \<noteq> GenQuick) \<or> (t = tos_discovery \<and> slot \<noteq> GenTopology)"

section \<open>Invariants\<close>

text \<open>What parseProbe compares to recognise a probe it has already seen.\<close>

definition probe_key :: "probe_t \<Rightarrow> ethernet_address_t \<times> ethernet_address_t" where
  "probe_key p = (sourceAddr p, realSourceAddr p)"

definition state_ok :: "lltd_iface_state \<Rightarrow> bool" where
  "state_ok st \<longleftrightarrow>
     see_list_count st = of_nat (length (see_list st)) \<and>
     distinct (map probe_key (see_list st)) \<and>
     mapper_known st \<le> 1 \<and>
     (case small_icon st of None \<Rightarrow> True | Some d \<Rightarrow> small_icon_size st \<le> length d)"

definition states_ok :: "lltd_iface_state list \<Rightarrow> bool" where
  "states_ok states \<longleftrightarrow> distinct (map iface_ctx states) \<and> (\<forall>st \<in> set states. state_ok st)"

text \<open>The heap blocks a state owns: its probes, its icon and, in the list, itself.\<close>

definition owned :: "lltd_iface_state \<Rightarrow> int" where
  "owned st = int (length (see_list st)) + (if small_icon st = None then 0 else 1)"

definition owned_all :: "lltd_iface_state list \<Rightarrow> int" where
  "owned_all states = (\<Sum>st\<leftarrow>states. 1 + owned st)"

section \<open>The contract of a frame handler\<close>

text \<open>
  A handler gets the port, the frame, the interface and the state it belongs to.  Under its
  precondition it has a defined outcome, keeps the invariant and the owner of the state,
  and every heap block it takes or gives back is one the state gains or loses.
\<close>

type_synonym handler =
  "port \<Rightarrow> u8 list \<Rightarrow> iface \<Rightarrow> lltd_iface_state \<times> world \<Rightarrow> (lltd_iface_state \<times> world) option"

definition safe_step ::
    "lltd_iface_state \<times> world \<Rightarrow> (lltd_iface_state \<times> world) option \<Rightarrow> bool" where
  "safe_step s r \<longleftrightarrow> (\<exists>st' w'. r = Some (st', w') \<and> state_ok st' \<and>
     iface_ctx st' = iface_ctx (fst s) \<and> w_live w' - owned st' = w_live (snd s) - owned (fst s))"

locale frame_handler =
  fixes h :: handler and pre :: "port \<Rightarrow> iface \<Rightarrow> u8 list \<Rightarrow> bool"
  assumes safe: "pre P ctx f \<Longrightarrow> state_ok st \<Longrightarrow> safe_step (st, w) (h P f ctx (st, w))"
begin

lemma outcome:
  assumes "pre P ctx f" "state_ok st"
  obtains st' w' where "h P f ctx (st, w) = Some (st', w')" "state_ok st'"
    "iface_ctx st' = iface_ctx st" "w_live w' - owned st' = w_live w - owned st"
  using safe [OF assms, of w] by (auto simp: safe_step_def)

end

section \<open>Lemmas\<close>

lemma fresh_state_ok [simp]: "state_ok (fresh_state ctx)"
  by (simp add: state_ok_def fresh_state_def)

lemma owned_fresh [simp]: "owned (fresh_state ctx) = 0"
  by (simp add: owned_def fresh_state_def)

lemma iface_ctx_fresh [simp]: "iface_ctx (fresh_state ctx) = ctx"
  by (simp add: fresh_state_def)

lemma free_probes_world [world_simps]:
  "w_live (free_probes ps w) = w_live w - int (length ps)"
  "w_events (free_probes ps w) = w_events w"
  "w_reads (free_probes ps w) = w_reads w"
  "w_mallocs (free_probes ps w) = w_mallocs w"
  by (induction ps arbitrary: w) (auto simp: world_simps)

lemma log_world [world_simps]:
  "w_live (log_lltd_frame P w) = w_live w"
  "w_events (log_lltd_frame P w) = w_events w"
  "w_mallocs (log_lltd_frame P w) = w_mallocs w"
  by (simp_all add: log_lltd_frame_def lltd_now_ms_def lltd_port_monotonic_milliseconds_def)

lemma set_slot_frame [simp]:
  "get_slot s (set_slot s g st) = g"
  "see_list (set_slot s g st) = see_list st"
  "see_list_count (set_slot s g st) = see_list_count st"
  "iface_ctx (set_slot s g st) = iface_ctx st"
  "mapper_known (set_slot s g st) = mapper_known st"
  "mapper_real (set_slot s g st) = mapper_real st"
  "mapper_apparent (set_slot s g st) = mapper_apparent st"
  "mapper_seq (set_slot s g st) = mapper_seq st"
  "small_icon (set_slot s g st) = small_icon st"
  "small_icon_size (set_slot s g st) = small_icon_size st"
  by (cases s; simp)+

lemma set_active_mapper_frame [simp]:
  "see_list (set_active_mapper r e st) = see_list st"
  "see_list_count (set_active_mapper r e st) = see_list_count st"
  "iface_ctx (set_active_mapper r e st) = iface_ctx st"
  "mapper_seq (set_active_mapper r e st) = mapper_seq st"
  "get_slot s (set_active_mapper r e st) = get_slot s st"
  "small_icon (set_active_mapper r e st) = small_icon st"
  "small_icon_size (set_active_mapper r e st) = small_icon_size st"
  "mapper_known (set_active_mapper r e st) = (if mapper_known st = 0 then 1 else mapper_known st)"
  by (cases s; simp add: set_active_mapper_def)+

lemma get_slot_mapper_upd [simp]:
  "get_slot s (st\<lparr>mapper_seq := x\<rparr>) = get_slot s st"
  "get_slot s (st\<lparr>mapper_known := k\<rparr>) = get_slot s st"
  by (cases s; simp)+

text \<open>The invariants do not depend on the mapper fields other than \<open>mapper_known\<close>.\<close>

lemma state_ok_cong:
  "see_list st' = see_list st \<Longrightarrow> see_list_count st' = see_list_count st \<Longrightarrow>
   mapper_known st' \<le> 1 \<Longrightarrow> small_icon st' = small_icon st \<Longrightarrow>
   small_icon_size st' = small_icon_size st \<Longrightarrow> state_ok st \<Longrightarrow> state_ok st'"
  by (auto simp: state_ok_def split: option.splits)

lemma state_okD_known: "state_ok st \<Longrightarrow> mapper_known st \<le> 1"
  by (simp add: state_ok_def)

lemma state_ok_set_slot [simp]: "state_ok (set_slot s g st) = state_ok st"
  by (auto simp: state_ok_def split: option.splits)

lemma state_ok_set_active [simp]: "state_ok st \<Longrightarrow> state_ok (set_active_mapper r e st)"
  by (auto simp: state_ok_def split: option.splits)

lemma state_ok_seq [simp]: "state_ok (st\<lparr>mapper_seq := x\<rparr>) = state_ok st"
  by (auto simp: state_ok_def split: option.splits)

lemma owned_frame [simp]:
  "owned (set_slot s g st) = owned st"
  "owned (set_active_mapper r e st) = owned st"
  "owned (st\<lparr>mapper_seq := x\<rparr>) = owned st"
  by (simp_all add: owned_def)

lemma mapper_matches_set_active:
  "mapper_matches st r \<Longrightarrow> mapper_matches (set_active_mapper r e st) r"
  by (auto simp: mapper_matches_def set_active_mapper_def)

lemma clear_seen_probes_simps:
  assumes "lltd_state_clear_seen_probes (st, w) = (st', w')"
  shows "st' = st\<lparr>see_list := [], see_list_count := 0\<rparr>" "w_events w' = w_events w"
    "w_live w' = w_live w - int (length (see_list st))"
  using assms by (auto simp: lltd_state_clear_seen_probes_def world_simps)

lemma states_ok_update:
  assumes "states_ok states" "i < length states" "state_ok st'"
    "iface_ctx st' = iface_ctx (states ! i)"
  shows "states_ok (states[i := st'])"
proof -
  have "map iface_ctx (states[i := st']) = map iface_ctx states"
    using assms by (simp add: map_update) (metis length_map list_update_id nth_map)
  moreover have "\<forall>st \<in> set (states[i := st']). state_ok st"
    using assms set_update_subset_insert [of states i st'] by (auto simp: states_ok_def)
  ultimately show ?thesis using assms(1) by (simp add: states_ok_def)
qed

lemma owned_all_update:
  "i < length states \<Longrightarrow>
   owned_all (states[i := st']) = owned_all states - owned (states ! i) + owned st'"
proof (induction states arbitrary: i)
  case (Cons s states)
  then show ?case by (cases i) (auto simp: owned_all_def)
qed simp

text \<open>What \<open>lltd_state_for_iface\<close> returns.\<close>

lemma state_for_iface_cases:
  assumes "lltd_state_for_iface P ctx states w = (r, states', w')" "states_ok states"
  obtains (found) i where "r = Some i" "states' = states" "w' = w" "i < length states"
      "iface_ctx (states ! i) = ctx"
    | (fresh) "r = Some 0" "states' = fresh_state ctx # states" "states_ok states'"
      "ctx \<notin> iface_ctx ` set states" "w_live w' = w_live w + 1" "w_events w' = w_events w"
    | (nomem) "r = None" "states' = states" "ctx \<notin> iface_ctx ` set states"
      "w_live w' = w_live w" "w_events w' = w_events w"
proof (cases "first_index (\<lambda>cur. iface_ctx cur = ctx) states")
  case (Some i)
  then show ?thesis using assms(1) first_index_SomeD [OF Some]
    by (intro found) (auto simp: lltd_state_for_iface_def)
next
  case None
  then have new: "ctx \<notin> iface_ctx ` set states" by (auto simp: first_index_None_iff)
  show ?thesis
  proof (cases "fst (lltd_port_malloc P sizeof_iface_state w)")
    case True
    then show ?thesis using None assms new malloc_world [of P sizeof_iface_state w]
      by (intro fresh) (auto simp: lltd_state_for_iface_def states_ok_def split: prod.splits)
  next
    case False
    then show ?thesis using None assms new malloc_world [of P sizeof_iface_state w]
      by (intro nomem) (auto simp: lltd_state_for_iface_def split: prod.splits)
  qed
qed

end
