(* ===== verification/LltdProbe.thy ===== *)
theory LltdProbe
  imports LltdBlockState
begin

text \<open>
  lltdBlock.c, the topology test: \<open>parseEmit\<close> walks the descriptors of an Emit frame and
  sends a Probe or Train frame for each, the last one followed by an ACK to the mapper;
  \<open>parseProbe\<close> records a received probe once.
\<close>

section \<open>Operations\<close>

definition sendProbeMsg ::
    "port \<Rightarrow> ethernet_address_t \<Rightarrow> ethernet_address_t \<Rightarrow> lltd_iface_state \<Rightarrow> iface \<Rightarrow> u8 \<Rightarrow>
     u8 \<Rightarrow> bool \<Rightarrow> world \<Rightarrow> (bool \<times> world) option" where
  "sendProbeMsg P src dst st ctx pause_ms typ ack w =
     (let (ok, w) = lltd_port_malloc P sizeof_demux_header w in
      if \<not> ok then Some (False, w)
      else do {
        let probe = replicate sizeof_demux_header 0;
        let code = (if typ = 0x01 then opcode_probe else opcode_train);
        let our_mac = out_param zero_mac (p_mac_address P ctx);
        (probe, _) \<leftarrow> setLltdHeaderEx (p_little_endian P) probe src dst our_mac (mapper_real st)
          0 code tos_discovery;
        let w = log_lltd_frame P w;
        let w = lltd_port_sleep_ms (ucast pause_ms) w;
        let (rc, w) = lltd_port_send_frame P ctx probe w;
        if rc < 0 then Some (False, lltd_port_free w)
        else if ack then do {
          (probe, _) \<leftarrow> setLltdHeaderEx (p_little_endian P) probe our_mac (mapper_apparent st)
            our_mac (mapper_real st) (mapper_seq st) opcode_ack tos_discovery;
          let w = log_lltd_frame P w;
          let (rc, w) = lltd_port_send_frame P ctx probe w;
          Some (True, lltd_port_free w)
        } else Some (True, lltd_port_free w)
      })"

text \<open>The record \<open>parseProbe\<close> fills from the header.\<close>

definition received_probe :: "bool \<Rightarrow> lltd_demultiplex_header_t \<Rightarrow> probe_t" where
  "received_probe le header =
     \<lparr>probe_type = lltd_htons le (if opcode header = opcode_probe then 1 else 0),
      realSourceAddr = realSource header,
      sourceAddr = source (frameHeader header),
      destAddr = destination (frameHeader header)\<rparr>"

definition parseProbe :: handler where
  "parseProbe P f ctx = (\<lambda>(st, w). do {
     header \<leftarrow> load_demux_header (p_little_endian P) f;
     let our_mac = out_param zero_mac (p_mac_address P ctx);
     if \<not> compareEthernetAddress (realDestination header) our_mac then Some (st, w)
     else
       let (ok, w) = lltd_port_malloc P sizeof_probe_t w in
       if \<not> ok then Some (st, w)
       else
         let probe = received_probe (p_little_endian P) header in
         if first_index (\<lambda>cur. compareEthernetAddress (sourceAddr probe) (sourceAddr cur) \<and>
              compareEthernetAddress (realSourceAddr probe) (realSourceAddr cur)) (see_list st) \<noteq> None
         then Some (st, lltd_port_free w)
         else Some (st\<lparr>see_list := probe # see_list st,
                       see_list_count := see_list_count st + 1\<rparr>, w)
   })"

text \<open>
  The loop of \<open>parseEmit\<close> with \<open>k\<close> descriptors to go; \<open>off\<close> is the 16-bit \<open>offsetEmitee\<close>,
  and the descriptor is the last one when none follows.
\<close>

fun emit_loop ::
    "port \<Rightarrow> u8 list \<Rightarrow> iface \<Rightarrow> lltd_iface_state \<Rightarrow> nat \<Rightarrow> u16 \<Rightarrow> world \<Rightarrow> world option" where
  "emit_loop P f ctx st 0 off w = Some w"
| "emit_loop P f ctx st (Suc k) off w = do {
     let ack = (k = 0);
     let pos = sizeof_demux_header + sizeof_emit_header + unat off;
     typ \<leftarrow> load_u8 f pos;
     w \<leftarrow> (if typ = 1 \<or> typ = 0 then do {
             e \<leftarrow> load_emitee f pos;
             (_, w) \<leftarrow> sendProbeMsg P (emitee_source e) (emitee_dest e) st ctx (emitee_pause e)
               (emitee_type e) ack w;
             Some w
           } else Some w);
     emit_loop P f ctx st k (off + 14) w
   }"

definition parseEmit :: handler where
  "parseEmit P f ctx = (\<lambda>(st, w). do {
     lltdHeader \<leftarrow> load_demux_header (p_little_endian P) f;
     let st = st\<lparr>mapper_seq := lltd_ntohs (p_little_endian P) (seqNumber lltdHeader)\<rparr>;
     let st = set_active_mapper (realSource lltdHeader) (source (frameHeader lltdHeader)) st;
     raw \<leftarrow> load_u16 (p_little_endian P) f sizeof_demux_header;
     let numDescs = unat (lltd_ntohs (p_little_endian P) raw);
     w \<leftarrow> emit_loop P f ctx st numDescs 0 w;
     Some (st, w)
   })"

section \<open>Frames put on the wire\<close>

definition probe_frame :: "port \<Rightarrow> iface \<Rightarrow> lltd_iface_state \<Rightarrow> emitee_descs \<Rightarrow> u8 list" where
  "probe_frame P ctx st e =
     demux_bytes (emitee_dest e) (emitee_source e) lltdEtherType 1 tos_discovery 0
       (if emitee_type e = 1 then opcode_probe else opcode_train) (mapper_real st)
       (port_mac P ctx) 0"

definition ack_frame :: "port \<Rightarrow> iface \<Rightarrow> lltd_iface_state \<Rightarrow> u8 list" where
  "ack_frame P ctx st =
     demux_bytes (mapper_apparent st) (port_mac P ctx) lltdEtherType 1 tos_discovery 0 opcode_ack
       (mapper_real st) (port_mac P ctx) (mapper_seq st)"

text \<open>
  What one descriptor makes the responder do after so many allocations and events, and what
  a whole list of descriptors does.
\<close>

definition emitee_events ::
    "port \<Rightarrow> iface \<Rightarrow> lltd_iface_state \<Rightarrow> bool \<Rightarrow> emitee_descs \<Rightarrow> nat \<Rightarrow> nat \<Rightarrow>
     port_event list" where
  "emitee_events P ctx st ack e mallocs events =
     (if emitee_type e \<noteq> 0 \<and> emitee_type e \<noteq> 1 \<or> \<not> p_malloc P mallocs 32 then []
      else
        let n = Suc events; rc = p_send P n ctx (probe_frame P ctx st e)
        in [SleepMs (ucast (emitee_pause e)), SendFrame ctx (probe_frame P ctx st e) rc] @
           (if rc < 0 \<or> \<not> ack then []
            else [SendFrame ctx (ack_frame P ctx st)
                    (p_send P (Suc n) ctx (ack_frame P ctx st))]))"

fun emit_trace ::
    "port \<Rightarrow> iface \<Rightarrow> lltd_iface_state \<Rightarrow> emitee_descs list \<Rightarrow> nat \<Rightarrow> nat \<Rightarrow> port_event list" where
  "emit_trace P ctx st [] m n = []"
| "emit_trace P ctx st (e # es) m n =
     (let ev = emitee_events P ctx st (es = []) e m n
      in ev @ emit_trace P ctx st es
           (if emitee_type e = 0 \<or> emitee_type e = 1 then Suc m else m) (n + length ev))"

text \<open>The body of an Emit frame behind the base header.\<close>

definition emit_body :: "emitee_descs list \<Rightarrow> u8 list" where
  "emit_body es = be16 (of_nat (length es)) @ concat (map emitee_bytes es)"

section \<open>Lemmas\<close>

lemma demux_bytes_nth_16 [simp]:
  "demux_bytes d s et v t r oc rd rs sq ! 16 = r"
  by (simp add: demux_bytes_def nth_append be16_def)

lemma sendProbeMsg_runs:
  assumes "emitee_type e = 0 \<or> emitee_type e = 1"
  obtains ok w' where
    "sendProbeMsg P (emitee_source e) (emitee_dest e) st ctx (emitee_pause e) (emitee_type e) ack w =
       Some (ok, w')"
    "w_events w' = w_events w @ emitee_events P ctx st ack e (w_mallocs w) (length (w_events w))" "w_live w' = w_live w"
    "w_mallocs w' = Suc (w_mallocs w)"
proof -
  define w1 where "w1 = snd (lltd_port_malloc P 32 w)"
  have w1: "lltd_port_malloc P 32 w = (p_malloc P (w_mallocs w) 32, w1)"
    by (simp add: w1_def lltd_port_malloc_def Let_def)
  have acc: "w_events w1 = w_events w" "w_mallocs w1 = Suc (w_mallocs w)"
    "w_live w1 = w_live w + (if p_malloc P (w_mallocs w) 32 then 1 else 0)"
    by (simp_all add: w1_def world_simps)
  show thesis
  proof (cases "p_malloc P (w_mallocs w) 32")
    case False
    then show ?thesis
      by (intro that [of False w1])
        (use acc w1 in \<open>simp_all add: sendProbeMsg_def emitee_events_def\<close>)
  next
    case True
    define w2 where "w2 = lltd_port_sleep_ms (ucast (emitee_pause e)) (log_lltd_frame P w1)"
    have w2: "w_events w2 = w_events w @ [SleepMs (ucast (emitee_pause e))]"
      "w_live w2 = w_live w + 1" "w_mallocs w2 = Suc (w_mallocs w)"
      using acc True by (simp_all add: w2_def world_simps)
    define rc where "rc = p_send P (Suc (length (w_events w))) ctx (probe_frame P ctx st e)"
    define w3 where "w3 = snd (lltd_port_send_frame P ctx (probe_frame P ctx st e) w2)"
    have w3: "lltd_port_send_frame P ctx (probe_frame P ctx st e) w2 = (rc, w3)"
      using w2 by (simp add: w3_def rc_def lltd_port_send_frame_def Let_def)
    have w3acc: "w_events w3 = w_events w @ [SleepMs (ucast (emitee_pause e)),
        SendFrame ctx (probe_frame P ctx st e) rc]"
      "w_live w3 = w_live w + 1" "w_mallocs w3 = Suc (w_mallocs w)"
      using w2 by (simp_all add: w3_def rc_def world_simps)
    define w4 where "w4 = log_lltd_frame P w3"
    define w5 where "w5 = snd (lltd_port_send_frame P ctx (ack_frame P ctx st) w4)"
    define rc2 where "rc2 = p_send P (Suc (Suc (length (w_events w)))) ctx (ack_frame P ctx st)"
    have w4: "w_events w4 = w_events w3" "w_live w4 = w_live w3" "w_mallocs w4 = w_mallocs w3"
      by (simp_all add: w4_def world_simps)
    have w5: "lltd_port_send_frame P ctx (ack_frame P ctx st) w4 = (rc2, w5)"
      using w4 w3acc by (simp add: w5_def rc2_def lltd_port_send_frame_def Let_def)
    have w5acc: "w_events w5 = w_events w3 @ [SendFrame ctx (ack_frame P ctx st) rc2]"
      "w_live w5 = w_live w + 1" "w_mallocs w5 = Suc (w_mallocs w)"
      using w4 w3acc by (simp_all add: w5_def rc2_def world_simps)
    have run: "sendProbeMsg P (emitee_source e) (emitee_dest e) st ctx (emitee_pause e)
        (emitee_type e) ack w =
      (if rc < 0 then Some (False, lltd_port_free w3)
       else if ack then Some (True, lltd_port_free w5) else Some (True, lltd_port_free w3))"
      using w3 w5 assms
      by (simp add: sendProbeMsg_def w1 True setLltdHeaderEx_eq w2_def [symmetric]
          w4_def [symmetric] probe_frame_def ack_frame_def port_mac_def)
    have ev: "emitee_events P ctx st ack e (w_mallocs w) (length (w_events w)) = [SleepMs (ucast (emitee_pause e)),
        SendFrame ctx (probe_frame P ctx st e) rc] @ (if rc < 0 \<or> \<not> ack then []
          else [SendFrame ctx (ack_frame P ctx st) rc2])"
      using assms True by (auto simp: emitee_events_def Let_def rc_def rc2_def)
    show ?thesis
    proof (cases "rc < 0 \<or> \<not> ack")
      case True
      then show ?thesis
        by (intro that [of "\<not> rc < 0" "lltd_port_free w3"])
          (use run ev w3acc in \<open>auto simp: world_simps\<close>)
    next
      case False
      then show ?thesis
        by (intro that [of True "lltd_port_free w5"])
          (use run ev w3acc w5acc in \<open>auto simp: world_simps\<close>)
    qed
  qed
qed

lemma load_emitee_drop:
  assumes "drop p f = emitee_bytes e @ ys"
  shows "load_u8 f p = Some (emitee_type e)" "load_emitee f p = Some e"
proof -
  have "p < length f" by (rule ccontr) (use assms in \<open>simp add: emitee_bytes_def\<close>)
  then have p: "p \<le> length f" by simp
  show "load_u8 f p = Some (emitee_type e)"
    by (rule load_u8_drop) (simp add: assms emitee_bytes_def)
  have mac: "load_mac f (p + q) = load_mac (drop p f) q" for q
    using p by (simp add: load_mac_def load_bytes_drop)
  have u8: "load_u8 f p = load_u8 (drop p f) 0" using load_u8_drop_add [OF p, of 0] by simp
  show "load_emitee f p = Some e"
    unfolding load_emitee_def mac u8 load_u8_drop_add [OF p] assms
    by (simp add: emitee_bytes_def mem_simps)
qed

lemma emit_loop_runs:
  assumes "drop (34 + unat off) f = concat (map emitee_bytes es) @ rest"
    and "unat off + 14 * length es \<le> 65536"
  shows "\<exists>w'. emit_loop P f ctx st (length es) off w = Some w' \<and> w_live w' = w_live w \<and>
    w_events w' = w_events w @ emit_trace P ctx st es (w_mallocs w) (length (w_events w))"
  using assms
proof (induction es arbitrary: off w)
  case Nil
  then show ?case by simp
next
  case (Cons e es)
  let ?ev = "emitee_events P ctx st (es = []) e (w_mallocs w) (length (w_events w))"
  let ?ok = "emitee_type e = 0 \<or> emitee_type e = 1"
  have here: "load_u8 f (34 + unat off) = Some (emitee_type e)"
    "load_emitee f (34 + unat off) = Some e"
    using load_emitee_drop [of "34 + unat off" f e] Cons.prems(1) by simp_all
  obtain w1 where w1: "(if emitee_type e = 1 \<or> emitee_type e = 0 then do {
        e \<leftarrow> load_emitee f (34 + unat off);
        (_, w) \<leftarrow> sendProbeMsg P (emitee_source e) (emitee_dest e) st ctx (emitee_pause e)
          (emitee_type e) (es = []) w;
        Some w } else Some w) = Some w1"
    "w_live w1 = w_live w" "w_events w1 = w_events w @ ?ev"
    "w_mallocs w1 = (if ?ok then Suc (w_mallocs w) else w_mallocs w)"
  proof (cases ?ok)
    case True
    obtain ok w' where "sendProbeMsg P (emitee_source e) (emitee_dest e) st ctx (emitee_pause e)
        (emitee_type e) (es = []) w = Some (ok, w')"
      "w_events w' = w_events w @ ?ev" "w_live w' = w_live w" "w_mallocs w' = Suc (w_mallocs w)"
      using sendProbeMsg_runs [OF True] by blast
    with True here show ?thesis by (intro that [of w']) auto
  next
    case False
    then show ?thesis by (intro that [of w]) (auto simp: emitee_events_def)
  qed
  have step: "emit_loop P f ctx st (length (e # es)) off w =
      emit_loop P f ctx st (length es) (off + 14) w1"
    using w1(1) by (simp add: here Let_def del: One_nat_def)
  show ?case
  proof (cases es)
    case Nil
    then show ?thesis using step w1 by (simp add: Let_def)
  next
    case (Cons e' es')
    then have off: "unat (off + 14) = unat off + 14"
      using Cons.prems(2) by (subst unat_add_lem [THEN iffD1]) simp_all
    have "drop (34 + unat (off + 14)) f = drop 14 (drop (34 + unat off) f)"
      by (simp add: off add.commute)
    also have "\<dots> = concat (map emitee_bytes es) @ rest" by (simp add: Cons.prems(1))
    finally obtain w' where "emit_loop P f ctx st (length es) (off + 14) w1 = Some w'"
      "w_live w' = w_live w1" "w_events w' = w_events w1 @
        emit_trace P ctx st es (w_mallocs w1) (length (w_events w1))"
      using Cons.IH [of "off + 14" w1] Cons.prems(2) off by auto
    then show ?thesis using step w1 by (simp add: Let_def add.assoc)
  qed
qed

text \<open>However many descriptors the frame announces, they only have to be in the frame.\<close>

lemma load_emitee_in:
  assumes "p + 14 \<le> length f"
  obtains e where "load_u8 f p = Some (emitee_type e)" "load_emitee f p = Some e"
proof -
  have "load_u8 f p \<noteq> None" "load_u8 f (p + 1) \<noteq> None" "load_mac f (p + 2) \<noteq> None"
    "load_mac f (p + 8) \<noteq> None"
    using assms by simp_all
  then obtain t q s d where "load_u8 f p = Some t" "load_u8 f (p + 1) = Some q"
    "load_mac f (p + 2) = Some s" "load_mac f (p + 8) = Some d"
    by blast
  then show ?thesis
    by (intro that [of "\<lparr>emitee_type = t, emitee_pause = q, emitee_source = s, emitee_dest = d\<rparr>"])
      (simp_all add: load_emitee_def)
qed

lemma unat_add_14_le: "unat (off + 14 :: u16) \<le> unat off + 14"
  by (simp add: unat_word_ariths)

lemma emit_loop_safe:
  "34 + unat off + 14 * k \<le> length f \<Longrightarrow>
   \<exists>w'. emit_loop P f ctx st k off w = Some w' \<and> w_live w' = w_live w"
proof (induction k arbitrary: off w)
  case 0
  then show ?case by simp
next
  case (Suc k)
  obtain e where e: "load_u8 f (34 + unat off) = Some (emitee_type e)"
    "load_emitee f (34 + unat off) = Some e"
    by (rule load_emitee_in [of "34 + unat off" f]) (use Suc.prems in auto)
  have next_off: "34 + unat (off + 14) + 14 * k \<le> length f"
    using Suc.prems unat_add_14_le [of off] by simp
  show ?case
  proof (cases "emitee_type e = 0 \<or> emitee_type e = 1")
    case True
    obtain ok w1 where "sendProbeMsg P (emitee_source e) (emitee_dest e) st ctx (emitee_pause e)
        (emitee_type e) (k = 0) w = Some (ok, w1)" "w_live w1 = w_live w"
      using sendProbeMsg_runs [OF True] by blast
    with Suc.IH [OF next_off, of w1] True e show ?thesis by auto
  next
    case False
    with Suc.IH [OF next_off, of w] e show ?thesis by auto
  qed
qed

section \<open>The handlers keep the contract\<close>

text \<open>A frame is an object of at least the 32 bytes of the base header.\<close>

lemma header_of:
  assumes "32 \<le> length f"
  obtains h where "load_demux_header le f = Some h"
  using assms load_demux_header_Some_iff by blast

lemma parseProbe_cases:
  fixes P :: port
  assumes "load_demux_header (p_little_endian P) f = Some h"
  defines "p \<equiv> received_probe (p_little_endian P) h"
  obtains (other) "realDestination h \<noteq> port_mac P ctx" "parseProbe P f ctx (st, w) = Some (st, w)"
    | (ours) w1 where "realDestination h = port_mac P ctx"
      "lltd_port_malloc P 28 w = (p_malloc P (w_mallocs w) 28, w1)"
      "parseProbe P f ctx (st, w) = Some
         (if \<not> p_malloc P (w_mallocs w) 28 then (st, w1)
          else if probe_key p \<in> probe_key ` set (see_list st) then (st, lltd_port_free w1)
          else (st\<lparr>see_list := p # see_list st, see_list_count := see_list_count st + 1\<rparr>, w1))"
proof (cases "realDestination h = port_mac P ctx")
  case False
  then show ?thesis using assms(1) other by (simp add: parseProbe_def port_mac_def)
next
  case True
  define w1 where "w1 = snd (lltd_port_malloc P 28 w)"
  have w1: "lltd_port_malloc P 28 w = (p_malloc P (w_mallocs w) 28, w1)"
    by (simp add: w1_def lltd_port_malloc_def Let_def)
  have dup: "first_index (\<lambda>cur. sourceAddr p = sourceAddr cur \<and>
      realSourceAddr p = realSourceAddr cur) (see_list st) = None \<longleftrightarrow>
      probe_key p \<notin> probe_key ` set (see_list st)"
    by (auto simp: first_index_None_iff probe_key_def)
  show ?thesis
    by (rule ours [OF True w1]) (use True assms(1) w1 dup in
      \<open>auto simp: parseProbe_def port_mac_def [symmetric] p_def [symmetric] Let_def\<close>)
qed

interpretation probe: frame_handler parseProbe "\<lambda>P ctx f. 32 \<le> length f"
proof
  fix P :: port and ctx and f :: "u8 list" and st w
  assume len: "32 \<le> length f" and ok: "state_ok st"
  obtain h where h: "load_demux_header (p_little_endian P) f = Some h" by (rule header_of [OF len])
  from h show "safe_step (st, w) (parseProbe P f ctx (st, w))"
  proof (cases rule: parseProbe_cases [where ctx = ctx and st = st and w = w,
      case_names other ours])
    case other
    then show ?thesis using ok by (simp add: safe_step_def)
  next
    case (ours w1)
    have live: "w_live w1 = w_live w + (if p_malloc P (w_mallocs w) 28 then 1 else 0)"
      using malloc_world(3,5) [of P 28 w] ours(2) by simp
    show ?thesis using ours(3) ok live
      by (auto simp: safe_step_def world_simps state_ok_def owned_def add.commute split: option.splits)
  qed
qed

definition emit_complete :: "port \<Rightarrow> iface \<Rightarrow> u8 list \<Rightarrow> bool" where
  "emit_complete P ctx f \<longleftrightarrow> 34 \<le> length f \<and>
     34 + 14 * unat (lltd_ntohs (p_little_endian P) (the (load_u16 (p_little_endian P) f 32)))
       \<le> length f"

interpretation emit: frame_handler parseEmit emit_complete
proof
  fix P :: port and ctx f st w
  let ?le = "p_little_endian P"
  assume pre: "emit_complete P ctx f" and ok: "state_ok st"
  have "32 \<le> length f" using pre unfolding emit_complete_def by linarith
  then obtain h where h: "load_demux_header ?le f = Some h" by (rule header_of)
  have "load_u16 ?le f 32 \<noteq> None" using pre by (simp add: emit_complete_def)
  then obtain raw where raw: "load_u16 ?le f 32 = Some raw" by blast
  let ?n = "unat (lltd_ntohs ?le raw)"
  let ?st = "set_active_mapper (realSource h) (source (frameHeader h))
    (st\<lparr>mapper_seq := lltd_ntohs ?le (seqNumber h)\<rparr>)"
  obtain w' where "emit_loop P f ctx ?st ?n 0 w = Some w'" "w_live w' = w_live w"
    using emit_loop_safe [of 0 ?n f P ctx ?st w] pre raw by (auto simp: emit_complete_def)
  then show "safe_step (st, w) (parseEmit P f ctx (st, w))"
    using h raw ok by (simp add: parseEmit_def safe_step_def)
qed

end
