(* ===== verification/LltdQuery.thy ===== *)
theory LltdQuery
  imports LltdProbe
begin

text \<open>
  lltdBlock.c, \<open>parseQuery\<close>: the answer to a Query reports the probes seen so far, as many
  as the MTU has room for, and then forgets all of them.
\<close>

section \<open>Operations\<close>

text \<open>The wire form \<open>lltd_probe_desc_wire_t\<close>; the type is already in network order.\<close>

definition probe_wire :: "bool \<Rightarrow> probe_t \<Rightarrow> u8 list" where
  "probe_wire le node =
     mem_of_u16 le (probe_type node) @ mac_bytes (realSourceAddr node) @
     mac_bytes (sourceAddr node) @ mac_bytes (destAddr node)"

text \<open>The loop over the list, with the number of descriptors to go and the write offset.\<close>

fun copy_descs ::
    "bool \<Rightarrow> nat \<Rightarrow> probe_t list \<Rightarrow> u16 \<Rightarrow> u8 list \<Rightarrow> nat \<Rightarrow> (u8 list \<times> nat) option" where
  "copy_descs le mtu [] remaining buffer offset = Some (buffer, offset)"
| "copy_descs le mtu (node # next) remaining buffer offset =
     (if remaining = 0 then Some (buffer, offset)
      else if mtu < offset + sizeof_probe_desc_wire then Some (buffer, offset)
      else do {
        b \<leftarrow> store_bytes buffer offset (probe_wire le node);
        copy_descs le mtu next (remaining - 1) b (offset + sizeof_probe_desc_wire)
      })"

definition query_dest :: "lltd_demultiplex_header_t \<Rightarrow> ethernet_address_t" where
  "query_dest inHeader =
     (if \<not> compareEthernetAddress (realSource inHeader) (source (frameHeader inHeader))
      then EthernetBroadcast else realSource inHeader)"

definition query_max_descs :: "nat \<Rightarrow> nat" where
  "query_max_descs mtu =
     (if sizeof_demux_header + sizeof_qry_resp_header < mtu
      then (mtu - sizeof_demux_header - sizeof_qry_resp_header) div sizeof_probe_desc_wire else 0)"

definition query_num_descs :: "nat \<Rightarrow> u32 \<Rightarrow> u16" where
  "query_num_descs max_descs count =
     (if max_descs < unat count then of_nat max_descs else ucast count)"

definition parseQuery :: handler where
  "parseQuery P f ctx = (\<lambda>(st, w). do {
     let le = p_little_endian P;
     inHeader \<leftarrow> load_demux_header le f;
     let st = st\<lparr>mapper_seq := lltd_ntohs le (seqNumber inHeader),
                 mapper_real := realSource inHeader,
                 mapper_apparent := source (frameHeader inHeader),
                 mapper_known := 1\<rparr>;
     let mtu = port_mtu P ctx;
     let (ok, w) = lltd_port_malloc P mtu w;
     if \<not> ok then Some (st, w)
     else do {
       let buffer = replicate mtu 0;
       let our_mac = out_param zero_mac (p_mac_address P ctx);
       (buffer, offset) \<leftarrow> setLltdHeader le buffer our_mac (query_dest inHeader) (mapper_seq st)
         opcode_queryResp tos_discovery;
       let num_descs = query_num_descs (query_max_descs mtu) (see_list_count st);
       buffer \<leftarrow> store_u16 le buffer sizeof_demux_header (lltd_htons le num_descs);
       (buffer, offset) \<leftarrow> copy_descs le mtu (see_list st) num_descs buffer
         (offset + sizeof_qry_resp_header);
       frame \<leftarrow> load_bytes buffer 0 offset;
       let (_, w) = lltd_port_send_frame P ctx frame w;
       let w = lltd_port_free w;
       Some (lltd_state_clear_seen_probes (st, w))
     }
   })"

section \<open>The frame that is sent\<close>

text \<open>How many probes of a list of \<open>n\<close> the answer carries.\<close>

definition query_reported :: "port \<Rightarrow> iface \<Rightarrow> lltd_iface_state \<Rightarrow> nat" where
  "query_reported P ctx st =
     unat (query_num_descs (query_max_descs (port_mtu P ctx)) (see_list_count st))"

definition query_resp_bytes ::
    "port \<Rightarrow> iface \<Rightarrow> lltd_demultiplex_header_t \<Rightarrow> lltd_iface_state \<Rightarrow> u8 list" where
  "query_resp_bytes P ctx h st =
     demux_bytes (query_dest h) (port_mac P ctx) lltdEtherType 1 tos_discovery 0 opcode_queryResp
       (query_dest h) (port_mac P ctx) (lltd_ntohs (p_little_endian P) (seqNumber h)) @
     be16 (of_nat (query_reported P ctx st)) @
     concat (map (probe_wire (p_little_endian P)) (take (query_reported P ctx st) (see_list st)))"

section \<open>Lemmas\<close>

lemma length_probe_wire [simp]: "length (probe_wire le p) = 20"
  by (simp add: probe_wire_def)

lemma copy_descs_runs:
  assumes "written (b, off) pre mtu"
  shows "\<exists>s'. copy_descs le mtu ps r b off = Some s' \<and>
    written s' (pre @ concat (map (probe_wire le) (take (min (unat r) ((mtu - off) div 20)) ps))) mtu"
  using assms
proof (induction ps arbitrary: r b off pre)
  case Nil
  then show ?case by simp
next
  case (Cons p ps)
  consider "r = 0" | "r \<noteq> 0" "mtu < off + 20" | "r \<noteq> 0" "off + 20 \<le> mtu" by linarith
  then show ?case
  proof cases
    case 3
    obtain b' where b': "store_bytes b off (probe_wire le p) = Some b'"
      "written (b', off + 20) (pre @ probe_wire le p) mtu"
      by (rule written_store [OF Cons.prems, of "probe_wire le p"]) (use 3 in auto)
    have r: "unat r = Suc (unat (r - 1))"
      using 3(1) unat_minus_one [of r] by (simp add: unat_gt_0 [symmetric] del: unat_gt_0)
    obtain x where "mtu = off + 20 + x" using 3(2) le_Suc_ex by blast
    then have room: "(mtu - off) div 20 = Suc ((mtu - (off + 20)) div 20)"
      by (simp add: add.commute)
    have "min (unat r) ((mtu - off) div 20) = Suc (min (unat (r - 1)) ((mtu - (off + 20)) div 20))"
      by (simp add: r room)
    moreover obtain s' where "copy_descs le mtu ps (r - 1) b' (off + 20) = Some s'"
      "written s' ((pre @ probe_wire le p) @ concat (map (probe_wire le)
        (take (min (unat (r - 1)) ((mtu - (off + 20)) div 20)) ps))) mtu"
      using Cons.IH [OF b'(2), of "r - 1"] by blast
    moreover have "copy_descs le mtu (p # ps) r b off = copy_descs le mtu ps (r - 1) b' (off + 20)"
      using 3 b'(1) by (simp add: not_less)
    ultimately show ?thesis by simp
  qed (use Cons.prems in auto)
qed

lemma query_num_descs_le: "unat (query_num_descs m c) \<le> m" "unat (query_num_descs m c) \<le> unat c"
proof -
  have "unat (of_nat m :: u16) \<le> m" by (rule unat_of_nat_le)
  moreover have "unat (ucast c :: u16) \<le> unat c" by (simp add: unat_ucast_mod)
  ultimately show "unat (query_num_descs m c) \<le> m" "unat (query_num_descs m c) \<le> unat c"
    by (auto simp: query_num_descs_def)
qed

text \<open>The exact outcome, for every MTU with room for the fixed part of the answer.\<close>

lemma parseQuery_runs:
  fixes P :: port and st :: lltd_iface_state
  assumes h: "load_demux_header (p_little_endian P) f = Some h"
    and mtu: "34 \<le> port_mtu P ctx"
  defines "st1 \<equiv> st\<lparr>mapper_seq := lltd_ntohs (p_little_endian P) (seqNumber h),
      mapper_real := realSource h, mapper_apparent := source (frameHeader h), mapper_known := 1\<rparr>"
  obtains (nomem) w' where "\<not> p_malloc P (w_mallocs w) (port_mtu P ctx)"
      "parseQuery P f ctx (st, w) = Some (st1, w')" "w_events w' = w_events w" "w_live w' = w_live w"
    | (sent) w' where "p_malloc P (w_mallocs w) (port_mtu P ctx)"
      "parseQuery P f ctx (st, w) = Some (st1\<lparr>see_list := [], see_list_count := 0\<rparr>, w')"
      "w_events w' = w_events w @ [SendFrame ctx (query_resp_bytes P ctx h st)
         (p_send P (length (w_events w)) ctx (query_resp_bytes P ctx h st))]"
      "w_live w' = w_live w - int (length (see_list st))"
proof (cases "p_malloc P (w_mallocs w) (port_mtu P ctx)")
  case False
  define w1 where "w1 = snd (lltd_port_malloc P (port_mtu P ctx) w)"
  have "lltd_port_malloc P (port_mtu P ctx) w = (False, w1)"
    using False by (simp add: w1_def lltd_port_malloc_def Let_def)
  moreover have "w_events w1 = w_events w" "w_live w1 = w_live w"
    using False by (simp_all add: w1_def world_simps)
  ultimately show ?thesis
    by (intro nomem [of w1]) (use False h in \<open>simp_all add: parseQuery_def st1_def\<close>)
next
  case True
  let ?le = "p_little_endian P" and ?mtu = "port_mtu P ctx"
  let ?n = "query_num_descs (query_max_descs ?mtu) (see_list_count st)"
  let ?hd = "demux_bytes (query_dest h) (port_mac P ctx) lltdEtherType 1 tos_discovery 0
    opcode_queryResp (query_dest h) (port_mac P ctx) (lltd_ntohs ?le (seqNumber h))"
  define w1 where "w1 = snd (lltd_port_malloc P ?mtu w)"
  have w1: "lltd_port_malloc P ?mtu w = (True, w1)" "w_events w1 = w_events w"
    "w_live w1 = w_live w + 1"
    using True by (simp_all add: w1_def world_simps lltd_port_malloc_def Let_def)
  obtain b1 where b1: "setLltdHeader ?le (replicate ?mtu 0) (port_mac P ctx) (query_dest h)
      (lltd_ntohs ?le (seqNumber h)) opcode_queryResp tos_discovery = Some (b1, 32)"
    "written (b1, 32) ?hd ?mtu"
    by (rule written_header [of ?mtu ?le "port_mac P ctx" "query_dest h"
          "lltd_ntohs ?le (seqNumber h)" opcode_queryResp tos_discovery]) (use mtu in auto)
  obtain b2 where b2: "store_u16 ?le b1 32 (lltd_htons ?le ?n) = Some b2"
    "written (b2, 34) (?hd @ be16 ?n) ?mtu"
    by (rule written_store [OF b1(2), of "be16 ?n"])
      (use mtu in \<open>simp_all add: store_u16_def wire_simps\<close>)
  have "unat ?n \<le> (?mtu - 34) div 20"
    using query_num_descs_le(1) [of "query_max_descs ?mtu" "see_list_count st"]
    by (auto simp: query_max_descs_def split: if_splits)
  then obtain s where s: "copy_descs ?le ?mtu (see_list st) ?n b2 34 = Some s"
    "written s (query_resp_bytes P ctx h st) ?mtu"
    using copy_descs_runs [OF b2(2), of ?le "see_list st" ?n]
    by (auto simp: query_resp_bytes_def query_reported_def min_absorb1)
  obtain b3 off where s_def: "s = (b3, off)" by (cases s)
  define w2 where "w2 = snd (lltd_port_send_frame P ctx (query_resp_bytes P ctx h st) w1)"
  have w2: "lltd_port_send_frame P ctx (query_resp_bytes P ctx h st) w1 =
      (p_send P (length (w_events w)) ctx (query_resp_bytes P ctx h st), w2)"
    using w1 by (simp add: w2_def lltd_port_send_frame_def Let_def)
  define w3 where "w3 = free_probes (see_list st) (lltd_port_free w2)"
  have "parseQuery P f ctx (st, w) = Some (st1\<lparr>see_list := [], see_list_count := 0\<rparr>, w3)"
    using h w1(1) b1(1) b2(1) s(1) written_load [OF s(2)] w2
    by (simp add: parseQuery_def Let_def st1_def port_mac_def s_def w3_def
        lltd_state_clear_seen_probes_def)
  then show ?thesis
    by (intro sent [of w3]) (use True w1 in \<open>auto simp: w3_def w2_def world_simps\<close>)
qed

definition query_complete :: "port \<Rightarrow> iface \<Rightarrow> u8 list \<Rightarrow> bool" where
  "query_complete P ctx f \<longleftrightarrow> 32 \<le> length f \<and> 34 \<le> port_mtu P ctx"

interpretation query: frame_handler parseQuery query_complete
proof
  fix P :: port and ctx and f :: "u8 list" and st w
  assume pre: "query_complete P ctx f" and ok: "state_ok st"
  then obtain h where h: "load_demux_header (p_little_endian P) f = Some h"
    by (metis header_of query_complete_def)
  have mtu: "34 \<le> port_mtu P ctx" using pre by (simp add: query_complete_def)
  from h mtu show "safe_step (st, w) (parseQuery P f ctx (st, w))"
    by (cases rule: parseQuery_runs [where ctx = ctx and st = st and w = w])
      (use ok in \<open>auto simp: safe_step_def state_ok_def owned_def split: option.splits\<close>)
qed

end
