(* ===== verification/LltdLargeTlv.thy ===== *)
theory LltdLargeTlv
  imports LltdQuery
begin

text \<open>
  lltdBlock.c, \<open>parseQueryLargeTlv\<close> and \<open>sendLargeTlvResponse\<close>: a property too large for
  a Hello frame is delivered in chunks of at most the MTU.  The length word of a response
  carries the flag 0x8000 while more data follows.  \<open>large_tlv_fetch\<close> is the mapper's side
  of the exchange; it is not code of the responder but the meaning of its answers.
\<close>

section \<open>Operations\<close>

definition large_tlv_max_payload :: "nat \<Rightarrow> u16" where
  "large_tlv_max_payload mtu =
     (if sizeof_demux_header + sizeof_qry_large_tlv_resp < mtu
      then of_nat (mtu - sizeof_demux_header - sizeof_qry_large_tlv_resp) else 0)"

text \<open>\<open>bytesToWrite\<close> and the length word, in host order.\<close>

definition large_tlv_length :: "u8 list option \<Rightarrow> nat \<Rightarrow> u16 \<Rightarrow> u16 \<Rightarrow> u16 \<times> u16" where
  "large_tlv_length data dataSize dataOffset maxPayload =
     (if data = None \<or> dataSize = 0 then (0, 0)
      else if unat dataOffset + unat maxPayload < dataSize then (maxPayload, maxPayload OR 0x8000)
      else if unat dataOffset < dataSize then
        (of_nat (dataSize - unat dataOffset), of_nat (dataSize - unat dataOffset))
      else (0, 0))"

definition sendLargeTlvResponse ::
    "port \<Rightarrow> u8 list \<Rightarrow> iface \<Rightarrow> lltd_iface_state \<Rightarrow> u8 list option \<Rightarrow> nat \<Rightarrow> u16 \<Rightarrow> world \<Rightarrow>
     world option" where
  "sendLargeTlvResponse P f ctx st data dataSize dataOffset w = do {
     let le = p_little_endian P;
     inHeader \<leftarrow> load_demux_header le f;
     let maxPayload = large_tlv_max_payload (port_mtu P ctx);
     let bufferSize = sizeof_demux_header + sizeof_qry_large_tlv_resp + unat maxPayload;
     let (ok, w) = lltd_port_malloc P bufferSize w;
     if \<not> ok then Some w
     else do {
       let our_mac = out_param zero_mac (p_mac_address P ctx);
       (b, _) \<leftarrow> setLltdHeader le (replicate bufferSize 0) our_mac (query_dest inHeader)
         (mapper_seq st) opcode_queryLargeTlvResp tos_discovery;
       let (bytesToWrite, hlen) = large_tlv_length data dataSize dataOffset maxPayload;
       b \<leftarrow> store_u16 le b sizeof_demux_header (lltd_htons le hlen);
       let packageSize = sizeof_demux_header + sizeof_qry_large_tlv_resp + unat bytesToWrite;
       b \<leftarrow> (case data of
               None \<Rightarrow> Some b
             | Some d \<Rightarrow>
                 if bytesToWrite = 0 then Some b
                 else do {
                   chunk \<leftarrow> load_bytes d (unat dataOffset) (unat bytesToWrite);
                   store_bytes b (sizeof_demux_header + sizeof_qry_large_tlv_resp) chunk
                 });
       let w = log_lltd_frame P w;
       frame \<leftarrow> load_bytes b 0 packageSize;
       let (_, w) = lltd_port_send_frame P ctx frame w;
       Some (lltd_port_free w)
     }
   }"

text \<open>The scan for the end of the UCS-2 hardware id, with \<open>k\<close> pairs to go.\<close>

fun hw_id_scan :: "u8 list \<Rightarrow> nat \<Rightarrow> nat \<Rightarrow> nat option" where
  "hw_id_scan d i 0 = Some 64"
| "hw_id_scan d i (Suc k) = do {
     x \<leftarrow> load_u8 d i;
     y \<leftarrow> load_u8 d (i + 1);
     if x = 0 \<and> y = 0 then Some i else hw_id_scan d (i + 2) k
   }"

text \<open>The switch over the requested type: data, size, whether to free it, the state.\<close>

definition large_tlv_data ::
    "port \<Rightarrow> u8 \<Rightarrow> lltd_iface_state \<times> world \<Rightarrow>
     ((u8 list option \<times> nat \<times> bool) \<times> lltd_iface_state \<times> world) option" where
  "large_tlv_data P typ = (\<lambda>(st, w).
     if typ = tlv_iconImage then
       (let (st, w) =
          (if small_icon st = None \<and> small_icon_size st = 0 then
             (let ((rc, d, n), w) = p_icon_image P w
              in if rc \<noteq> 0 then (st\<lparr>small_icon := None, small_icon_size := 0\<rparr>, w)
                 else (st\<lparr>small_icon := d, small_icon_size := n\<rparr>, w))
           else (st, w))
        in Some ((small_icon st, small_icon_size st, False), st, w))
     else if typ = tlv_friendlyName then
       (let ((rc, d, n), w) = p_friendly_name P w in Some ((d, n, rc = 0), st, w))
     else if typ = tlv_hwIdProperty then
       (let (ok, w) = lltd_port_malloc P 64 w in
        if \<not> ok then Some ((None, 0, False), st, w)
        else do {
          d \<leftarrow> store_bytes (replicate 64 0) 0 (fst (p_hw_id P 64));
          n \<leftarrow> hw_id_scan d 0 32;
          Some ((Some d, n, True), st, w)
        })
     else Some ((None, 0, False), st, w))"

definition parseQueryLargeTlv :: handler where
  "parseQueryLargeTlv P f ctx = (\<lambda>(st, w). do {
     let le = p_little_endian P;
     lltdHeader \<leftarrow> load_demux_header le f;
     if lltd_ntohs le (seqNumber lltdHeader) = 0 then Some (st, w)
     else do {
       let st = st\<lparr>mapper_seq := lltd_ntohs le (seqNumber lltdHeader)\<rparr>;
       let st = set_active_mapper (realSource lltdHeader) (source (frameHeader lltdHeader)) st;
       raw \<leftarrow> load_u16 le f (sizeof_demux_header + 2);
       let offset = lltd_ntohs le raw;
       typ \<leftarrow> load_u8 f sizeof_demux_header;
       ((data, dataSize, should_free), st, w) \<leftarrow> large_tlv_data P typ (st, w);
       w \<leftarrow> sendLargeTlvResponse P f ctx st data dataSize offset w;
       let w = (if should_free \<and> data \<noteq> None then lltd_port_free w else w);
       Some (st, w)
     }
   })"

section \<open>The exchange seen from the mapper\<close>

text \<open>The length word and the payload of the answer to a request for an offset.\<close>

definition large_tlv_chunk :: "u16 \<Rightarrow> u8 list option \<Rightarrow> nat \<Rightarrow> u16 \<Rightarrow> u16 \<times> u8 list" where
  "large_tlv_chunk m data n off =
     (snd (large_tlv_length data n off m),
      case data of None \<Rightarrow> []
      | Some d \<Rightarrow> take (unat (fst (large_tlv_length data n off m))) (drop (unat off) d))"

definition large_tlv_frame ::
    "port \<Rightarrow> iface \<Rightarrow> lltd_demultiplex_header_t \<Rightarrow> lltd_iface_state \<Rightarrow> u16 \<times> u8 list \<Rightarrow> u8 list" where
  "large_tlv_frame P ctx h st c =
     demux_bytes (query_dest h) (port_mac P ctx) lltdEtherType 1 tos_discovery 0
       opcode_queryLargeTlvResp (query_dest h) (port_mac P ctx) (mapper_seq st) @
     be16 (fst c) @ snd c"

text \<open>
  Asking for the first offset, then for the offset behind the bytes received so far, as
  long as the flag says that more follows.
\<close>

fun large_tlv_fetch :: "(u16 \<Rightarrow> u16 \<times> u8 list) \<Rightarrow> nat \<Rightarrow> nat \<Rightarrow> u8 list option" where
  "large_tlv_fetch ask 0 off = None"
| "large_tlv_fetch ask (Suc k) off =
     (let (len, payload) = ask (of_nat off);
          payload = take (unat (len AND 0x7FFF)) payload
      in if bit len 15
         then map_option ((@) payload) (large_tlv_fetch ask k (off + length payload))
         else Some payload)"

section \<open>Lemmas\<close>

lemma large_tlv_length_le:
  "unat (fst (large_tlv_length data n off m)) \<le> unat m"
  "data = Some d \<Longrightarrow> unat (fst (large_tlv_length data n off m)) \<noteq> 0 \<Longrightarrow>
   unat off + unat (fst (large_tlv_length data n off m)) \<le> n"
proof -
  have "unat (of_nat (n - unat off) :: u16) = n - unat off"
    if "n \<le> unat off + unat m"
  proof (rule unat_of_nat_small)
    have "unat m < 2 ^ LENGTH(16)" by (rule unsigned_less)
    with that show "n - unat off < 2 ^ LENGTH(16)" by simp
  qed
  then show "unat (fst (large_tlv_length data n off m)) \<le> unat m"
    "data = Some d \<Longrightarrow> unat (fst (large_tlv_length data n off m)) \<noteq> 0 \<Longrightarrow>
     unat off + unat (fst (large_tlv_length data n off m)) \<le> n"
    by (auto simp: large_tlv_length_def)
qed

lemma hw_id_scan_Some: "i + 2 * k \<le> length d \<Longrightarrow> \<exists>n. hw_id_scan d i k = Some n \<and> n \<le> max 64 (i + 2 * k)"
proof (induction k arbitrary: i)
  case (Suc k)
  have "load_u8 d i \<noteq> None" "load_u8 d (i + 1) \<noteq> None" using Suc.prems by simp_all
  then obtain x y where "load_u8 d i = Some x" "load_u8 d (i + 1) = Some y" by blast
  with Suc.IH [of "i + 2"] Suc.prems show ?case by auto
qed simp

text \<open>The response is exactly the chunk, whatever the MTU.\<close>

lemma sendLargeTlvResponse_runs:
  fixes P :: port and st :: lltd_iface_state and ctx :: iface
    and data :: "u8 list option" and n :: nat and off :: u16
  assumes h: "load_demux_header (p_little_endian P) f = Some h"
    and d: "case data of None \<Rightarrow> True | Some d \<Rightarrow> n \<le> length d"
  defines "m \<equiv> large_tlv_max_payload (port_mtu P ctx)"
  defines "fr \<equiv> large_tlv_frame P ctx h st (large_tlv_chunk m data n off)"
  obtains w' where "sendLargeTlvResponse P f ctx st data n off w = Some w'"
    "w_live w' = w_live w" "w_events w' = w_events w @
      (if p_malloc P (w_mallocs w) (34 + unat m)
       then [SendFrame ctx fr (p_send P (length (w_events w)) ctx fr)] else [])"
proof (cases "p_malloc P (w_mallocs w) (34 + unat m)")
  case False
  define w1 where "w1 = snd (lltd_port_malloc P (34 + unat m) w)"
  have "lltd_port_malloc P (34 + unat m) w = (False, w1)"
    using False by (simp add: w1_def lltd_port_malloc_def Let_def)
  moreover have "w_events w1 = w_events w" "w_live w1 = w_live w"
    using False by (simp_all add: w1_def world_simps)
  ultimately show ?thesis
    by (intro that [of w1]) (use False h in \<open>simp_all add: sendLargeTlvResponse_def m_def\<close>)
next
  case True
  let ?le = "p_little_endian P" and ?N = "34 + unat m"
  let ?hd = "demux_bytes (query_dest h) (port_mac P ctx) lltdEtherType 1 tos_discovery 0
    opcode_queryLargeTlvResp (query_dest h) (port_mac P ctx) (mapper_seq st)"
  obtain k hl where kh: "large_tlv_length data n off m = (k, hl)" by (cases "large_tlv_length data n off m")
  define w1 where "w1 = snd (lltd_port_malloc P ?N w)"
  have w1: "lltd_port_malloc P ?N w = (True, w1)" "w_events w1 = w_events w"
    "w_live w1 = w_live w + 1"
    using True by (simp_all add: w1_def world_simps lltd_port_malloc_def Let_def)
  obtain b1 where b1: "setLltdHeader ?le (replicate ?N 0) (port_mac P ctx) (query_dest h)
      (mapper_seq st) opcode_queryLargeTlvResp tos_discovery = Some (b1, 32)"
    "written (b1, 32) ?hd ?N"
    by (rule written_header [of ?N ?le "port_mac P ctx" "query_dest h" "mapper_seq st"
          opcode_queryLargeTlvResp tos_discovery]) auto
  obtain b2 where b2: "store_u16 ?le b1 32 (lltd_htons ?le hl) = Some b2"
    "written (b2, 34) (?hd @ be16 hl) ?N"
    by (rule written_store [OF b1(2), of "be16 hl"]) (simp_all add: store_u16_def wire_simps)
  have k: "unat k \<le> unat m" using large_tlv_length_le(1) [of data n off m] by (simp add: kh)
  obtain b3 where b3: "(case data of None \<Rightarrow> Some b2 | Some d \<Rightarrow> if k = 0 then Some b2
      else Option.bind (load_bytes d (unat off) (unat k)) (store_bytes b2 (32 + 2))) = Some b3"
    "written (b3, 34 + unat k) (large_tlv_frame P ctx h st (large_tlv_chunk m data n off)) ?N"
  proof (cases "data = None \<or> k = 0")
    case True
    moreover from True have "k = 0" using kh by (auto simp: large_tlv_length_def)
    ultimately show ?thesis using b2(2) kh
      by (intro that [of b2]) (auto simp: large_tlv_frame_def large_tlv_chunk_def split: option.split)
  next
    case False
    then obtain d' where d': "data = Some d'" "k \<noteq> 0" by auto
    have le: "unat off + unat k \<le> length d'"
      using large_tlv_length_le(2) [of data d' n off m] d d' kh by (simp add: unat_eq_zero)
    let ?c = "take (unat k) (drop (unat off) d')"
    have c: "length ?c = unat k" using le by simp
    obtain b3 where "store_bytes b2 34 ?c = Some b3"
      "written (b3, 34 + unat k) ((?hd @ be16 hl) @ ?c) ?N"
      using written_store [OF b2(2), of ?c] c k by auto
    then show ?thesis using d' le kh
      by (intro that [of b3]) (auto simp: large_tlv_frame_def large_tlv_chunk_def load_bytes_SomeI)
  qed
  define w2 where "w2 = log_lltd_frame P w1"
  have w2: "w_events w2 = w_events w" "w_live w2 = w_live w + 1"
    using w1 by (simp_all add: w2_def world_simps)
  define w3 where "w3 = snd (lltd_port_send_frame P ctx fr w2)"
  have w3: "lltd_port_send_frame P ctx fr w2 = (p_send P (length (w_events w)) ctx fr, w3)"
    using w2 by (simp add: w3_def lltd_port_send_frame_def Let_def)
  have "load_bytes b3 0 (34 + unat k) = Some fr"
    using written_load [OF b3(2)] by (simp add: fr_def)
  then have "sendLargeTlvResponse P f ctx st data n off w = Some (lltd_port_free w3)"
    using h w1(1) b1(1) b2(1) b3(1) w3
    by (simp add: sendLargeTlvResponse_def Let_def m_def [symmetric] port_mac_def kh w2_def)
  then show ?thesis
    by (rule that) (use True w2 in \<open>simp_all add: w3_def world_simps\<close>)
qed

text \<open>The data a request selects is at least as long as the size that goes with it.\<close>

context lltd_port_heap begin

lemma hw_id_data:
  obtains d n where "store_bytes (replicate 64 0) 0 (fst (p_hw_id P 64)) = Some d"
    "hw_id_scan d 0 32 = Some n" "n \<le> length d"
proof -
  let ?b = "fst (p_hw_id P 64)"
  have le: "length ?b \<le> 64" by (rule hw_id_cap)
  define d where "d = ?b @ drop (length ?b) (replicate 64 0)"
  have "store_bytes (replicate 64 0) 0 ?b = Some d" "length d = 64"
    using le by (simp_all add: d_def store_bytes_front)
  moreover obtain n where "hw_id_scan d 0 32 = Some n" "n \<le> 64"
    using hw_id_scan_Some [of 0 32 d] calculation by auto
  ultimately show ?thesis by (intro that) auto
qed

lemma large_tlv_data_runs:
  assumes "state_ok st"
  obtains data n fr st' w' where
    "large_tlv_data P typ (st, w) = Some ((data, n, fr), st', w')" "state_ok st'"
    "iface_ctx st' = iface_ctx st" "w_events w' = w_events w"
    "case data of None \<Rightarrow> n = 0 \<or> \<not> fr | Some d \<Rightarrow> n \<le> length d"
    "w_live w' - owned st' = w_live w - owned st + (if fr \<and> data \<noteq> None then 1 else 0)"
proof -
  consider (icon) "typ = tlv_iconImage" | (name) "typ = tlv_friendlyName"
    | (hwid) "typ = tlv_hwIdProperty"
    | (other) "typ \<noteq> tlv_iconImage" "typ \<noteq> tlv_friendlyName" "typ \<noteq> tlv_hwIdProperty"
    by blast
  then show ?thesis
  proof cases
    case icon
    show ?thesis
    proof (cases "small_icon st = None \<and> small_icon_size st = 0")
      case True
      obtain rc d n w1 where g: "p_icon_image P w = ((rc, d, n), w1)"
        by (metis surj_pair)
      note facts = hands_overD [OF icon_hands_over g]
      let ?st = "if rc \<noteq> 0 then st\<lparr>small_icon := None, small_icon_size := 0\<rparr>
        else st\<lparr>small_icon := d, small_icon_size := n\<rparr>"
      show ?thesis
        by (rule that [of "small_icon ?st" "small_icon_size ?st" False ?st w1])
          (use assms icon True g facts in
            \<open>auto simp: large_tlv_data_def state_ok_def owned_def split: option.splits\<close>)
    next
      case False
      show ?thesis
        by (rule that [of "small_icon st" "small_icon_size st" False st w])
          (use assms icon False in
            \<open>auto simp: large_tlv_data_def state_ok_def split: option.splits\<close>)
    qed
  next
    case name
    obtain rc d n w1 where g: "p_friendly_name P w = ((rc, d, n), w1)"
      by (metis surj_pair)
    note facts = hands_overD [OF name_hands_over g]
    show ?thesis
      by (rule that [of d n "rc = 0" st w1])
        (use assms name g facts in \<open>auto simp: large_tlv_data_def split: option.splits\<close>)
  next
    case hwid
    define w1 where "w1 = snd (lltd_port_malloc P 64 w)"
    have w1: "lltd_port_malloc P 64 w = (p_malloc P (w_mallocs w) 64, w1)"
      "w_live w1 = w_live w + (if p_malloc P (w_mallocs w) 64 then 1 else 0)"
      "w_events w1 = w_events w"
      by (simp_all add: w1_def lltd_port_malloc_def Let_def)
    obtain d n where d: "store_bytes (replicate 64 0) 0 (fst (p_hw_id P 64)) = Some d"
      "hw_id_scan d 0 32 = Some n" "n \<le> length d"
      by (rule hw_id_data)
    show ?thesis
    proof (cases "p_malloc P (w_mallocs w) 64")
      case True
      then show ?thesis
        by (intro that [of "Some d" n True st w1]) (use assms hwid w1 d in \<open>simp_all add: large_tlv_data_def\<close>)
    next
      case False
      then show ?thesis
        by (intro that [of None 0 False st w1]) (use assms hwid w1 in \<open>simp_all add: large_tlv_data_def\<close>)
    qed
  next
    case other
    then show ?thesis
      by (intro that [of None 0 False st w]) (use assms in \<open>simp_all add: large_tlv_data_def\<close>)
  qed
qed

end

definition large_tlv_complete :: "port \<Rightarrow> iface \<Rightarrow> u8 list \<Rightarrow> bool" where
  "large_tlv_complete P ctx f \<longleftrightarrow> lltd_port_heap P \<and> 36 \<le> length f"

interpretation large_tlv: frame_handler parseQueryLargeTlv large_tlv_complete
proof
  fix P :: port and ctx and f :: "u8 list" and st w
  let ?le = "p_little_endian P"
  assume pre: "large_tlv_complete P ctx f" and ok: "state_ok st"
  then have heap: "lltd_port_heap P" by (simp add: large_tlv_complete_def)
  have "32 \<le> length f" using pre by (simp add: large_tlv_complete_def)
  then obtain h where h: "load_demux_header ?le f = Some h" by (rule header_of)
  show "safe_step (st, w) (parseQueryLargeTlv P f ctx (st, w))"
  proof (cases "lltd_ntohs ?le (seqNumber h) = 0")
    case True
    then show ?thesis using ok h by (simp add: parseQueryLargeTlv_def safe_step_def)
  next
    case False
    let ?st1 = "set_active_mapper (realSource h) (source (frameHeader h))
      (st\<lparr>mapper_seq := lltd_ntohs ?le (seqNumber h)\<rparr>)"
    have "load_u16 ?le f (32 + 2) \<noteq> None" "load_u8 f 32 \<noteq> None"
      using pre by (simp_all add: large_tlv_complete_def)
    then obtain raw ty where raw: "load_u16 ?le f (32 + 2) = Some raw" "load_u8 f 32 = Some ty"
      by blast
    obtain data n fr st2 w2
      where d: "large_tlv_data P ty (?st1, w) = Some ((data, n, fr), st2, w2)"
      "state_ok st2" "iface_ctx st2 = iface_ctx ?st1"
      "case data of None \<Rightarrow> n = 0 \<or> \<not> fr | Some d \<Rightarrow> n \<le> length d"
      "w_live w2 - owned st2 = w_live w - owned ?st1 + (if fr \<and> data \<noteq> None then 1 else 0)"
      by (rule lltd_port_heap.large_tlv_data_runs [OF heap, of ?st1 ty w])
        (use ok in auto)
    have "case data of None \<Rightarrow> True | Some d \<Rightarrow> n \<le> length d"
      using d(4) by (auto split: option.splits)
    then obtain w3 where w3: "sendLargeTlvResponse P f ctx st2 data n (lltd_ntohs ?le raw) w2 = Some w3"
      "w_live w3 = w_live w2"
      by (rule sendLargeTlvResponse_runs [OF h, where ctx = ctx and st = st2 and w = w2 and
            off = "lltd_ntohs ?le raw"]) auto
    have "parseQueryLargeTlv P f ctx (st, w) =
        Some (st2, if fr \<and> data \<noteq> None then lltd_port_free w3 else w3)"
      using h False raw d(1) w3(1) by (simp add: parseQueryLargeTlv_def Let_def)
    moreover have "w_live (if fr \<and> data \<noteq> None then lltd_port_free w3 else w3) - owned st2 =
        w_live w - owned st"
      using d(5) w3(2) by (cases "fr \<and> data \<noteq> None") (auto simp: world_simps)
    ultimately show ?thesis using d(2,3) by (simp add: safe_step_def)
  qed
qed

section \<open>Reassembly\<close>

lemma low15:
  fixes v :: u16
  assumes "v < 0x8000"
  shows "v AND 0x7FFF = v" "\<not> bit v 15" "(v OR 0x8000) AND 0x7FFF = v" "bit (v OR 0x8000) 15"
proof -
  have t: "take_bit 15 v = v"
    using less_mask_eq [of v 15] assms by (simp flip: take_bit_eq_mask)
  have m: "(0x7FFF :: u16) = mask 15" "(0x8000 :: u16) = push_bit 15 1"
    by (simp_all add: mask_eq_exp_minus_1)
  show 1: "v AND 0x7FFF = v" unfolding m by (simp add: t flip: take_bit_eq_mask)
  have "bit v 15 = bit (take_bit 15 v) 15" by (simp only: t)
  then show "\<not> bit v 15" by (simp add: bit_simps)
  show "bit (v OR 0x8000) 15" unfolding m by (simp add: bit_simps)
  have "take_bit 15 (v OR push_bit 15 1) = v"
    by (simp add: take_bit_or t take_bit_push_bit)
  then show "(v OR 0x8000) AND 0x7FFF = v" unfolding m by (simp flip: take_bit_eq_mask)
qed

lemma fetch_from:
  assumes "0 < m" "m < 0x8000" "n \<le> length d" "n \<le> 65536"
  shows "off \<le> n \<Longrightarrow> off < 65536 \<Longrightarrow> n - off \<le> k * unat m \<Longrightarrow> 0 < k \<Longrightarrow>
    large_tlv_fetch (large_tlv_chunk m (Some d) n) k off = Some (take (n - off) (drop off d))"
proof (induction k arbitrary: off)
  case (Suc k)
  have off: "unat (of_nat off :: u16) = off" using Suc.prems by (intro unat_of_nat_small) simp
  have m: "unat m < 0x8000" "0 < unat m"
    using assms by (simp_all add: word_less_nat_alt unat_gt_0 word_gt_0)
  show ?case
  proof (cases "off + unat m < n")
    case True
    have "large_tlv_fetch (large_tlv_chunk m (Some d) n) k (off + unat m) =
        Some (take (n - (off + unat m)) (drop (off + unat m) d))"
      using True assms Suc.prems m by (intro Suc.IH) (auto intro: ccontr)
    moreover have "take (n - off) (drop off d) =
        take (unat m) (drop off d) @ take (n - (off + unat m)) (drop (off + unat m) d)"
      using take_add [of "unat m" "n - (off + unat m)" "drop off d"] True
      by (simp add: drop_drop add.commute)
    moreover have "length (take (unat m) (drop off d)) = unat m" using True assms by simp
    moreover have "large_tlv_chunk m (Some d) n (of_nat off) = (m OR 0x8000, take (unat m) (drop off d))"
      using True off by (simp add: large_tlv_chunk_def large_tlv_length_def)
    ultimately show ?thesis using low15 [OF assms(2)] by simp
  next
    case False
    define v :: u16 where "v = of_nat (n - off)"
    have v: "unat v = n - off" "v < 0x8000"
      using False m by (auto simp: v_def word_less_nat_alt unat_of_nat)
    have "large_tlv_chunk m (Some d) n (of_nat off) = (v, take (unat v) (drop off d))"
      using False off Suc.prems(1) v(1)
      by (auto simp: large_tlv_chunk_def large_tlv_length_def v_def [symmetric] unat_eq_zero)
    then show ?thesis using low15 [OF v(2)] v(1) by simp
  qed
qed simp

end
