(* ===== verification/LltdHello.thy ===== *)
theory LltdHello
  imports LltdLargeTlv
begin

text \<open>
  lltdBlock.c, \<open>answerHello\<close>: the Hello broadcast that answers a Discover, built in a
  buffer of MTU size from the base header, the Hello header and the chain of TLVs.
\<close>

section \<open>Operations\<close>

text \<open>The statements \<open>offset += set...TLV(buffer, offset, ...)\<close>, in the order of the code.\<close>

definition hello_wifi_block :: "port \<Rightarrow> iface \<Rightarrow> u8 list \<times> nat \<Rightarrow> (u8 list \<times> nat) option" where
  "hello_wifi_block P ctx = (\<lambda>s. do {
     s \<leftarrow> tlv_adv (setWirelessTLV P ctx) s;
     s \<leftarrow> tlv_adv (setBSSIDTLV P ctx) s;
     s \<leftarrow> tlv_adv (setSSIDTLV P ctx) s;
     s \<leftarrow> tlv_adv (setWifiMaxRateTLV P ctx) s;
     s \<leftarrow> tlv_adv (setWifiRssiTLV P ctx) s;
     s \<leftarrow> tlv_adv setAPAssociationTableTLV s;
     s \<leftarrow> tlv_adv setRepeaterAPLineageTLV s;
     tlv_adv setRepeaterAPTableTLV s
   })"

definition hello_tlv_block :: "port \<Rightarrow> iface \<Rightarrow> u8 list \<times> nat \<Rightarrow> (u8 list \<times> nat) option" where
  "hello_tlv_block P ctx = (\<lambda>s. do {
     s \<leftarrow> tlv_adv (setHostIdTLV P ctx) s;
     s \<leftarrow> tlv_adv (setCharacteristicsTLV P ctx) s;
     s \<leftarrow> tlv_adv (setPhysicalMediumTLV P ctx) s;
     s \<leftarrow> tlv_adv (setIPv4TLV P ctx) s;
     s \<leftarrow> tlv_adv (setIPv6TLV P ctx) s;
     s \<leftarrow> tlv_adv setPerfCounterTLV s;
     s \<leftarrow> tlv_adv (setLinkSpeedTLV P ctx) s;
     s \<leftarrow> tlv_adv (setHostnameTLV P) s;
     s \<leftarrow> (if fst (p_wifi_mode P ctx) = 0 then hello_wifi_block P ctx else Some) s;
     s \<leftarrow> tlv_adv (setQosCharacteristicsTLV (p_little_endian P)) s;
     s \<leftarrow> tlv_adv setIconImageTLV s;
     s \<leftarrow> tlv_adv setFriendlyNameTLV s;
     tlv_adv setEndOfPropertyTLV s
   })"

definition answerHello :: handler where
  "answerHello P f ctx = (\<lambda>(st, w). do {
     let le = p_little_endian P;
     let mtu = port_mtu P ctx;
     let (ok, w) = lltd_port_malloc P mtu w;
     if \<not> ok then Some (st, w)
     else do {
       let buffer = replicate mtu 0;
       let our_mac = out_param zero_mac (p_mac_address P ctx);
       inFrameHeader \<leftarrow> load_demux_header le f;
       let apparent = source (frameHeader inFrameHeader);
       let st = set_active_mapper (realSource inFrameHeader) apparent st;
       let st = st\<lparr>mapper_seq := lltd_ntohs le (seqNumber inFrameHeader)\<rparr>;
       raw \<leftarrow> load_u16 le f sizeof_demux_header;
       let discover_generation = lltd_ntohs le raw;
       let slot = mapper_generation_for_tos (tos inFrameHeader);
       let st = (if get_slot slot st = 0 \<and> discover_generation \<noteq> 0
                 then set_slot slot discover_generation st else st);
       (buffer, offset) \<leftarrow> setLltdHeader le buffer our_mac EthernetBroadcast 0 opcode_hello
         (tos inFrameHeader);
       (buffer, n) \<leftarrow> setHelloHeader le buffer offset apparent (realSource inFrameHeader)
         (get_slot slot st);
       (buffer, offset) \<leftarrow> hello_tlv_block P ctx (buffer, offset + n);
       frame \<leftarrow> load_bytes buffer 0 offset;
       let (_, w) = lltd_port_send_frame P ctx frame w;
       Some (st, lltd_port_free w)
     }
   })"

section \<open>The frame that is sent\<close>

definition hello_wifi_tlvs :: "port \<Rightarrow> iface \<Rightarrow> u8 list" where
  "hello_wifi_tlvs P ctx =
     (if fst (p_wifi_mode P ctx) = 0
      then wireless_enc P ctx @ bssid_enc P ctx @ ssid_enc P ctx @ wifi_max_rate_enc P ctx @
        wifi_rssi_enc P ctx else [])"

definition hello_tlvs :: "port \<Rightarrow> iface \<Rightarrow> u8 list" where
  "hello_tlvs P ctx =
     host_id_enc P ctx @ characteristics_enc P ctx @ if_type_enc P ctx @ ipv4_enc P ctx @
     ipv6_enc P ctx @ perf_counter_enc @ link_speed_enc P ctx @ hostname_enc P @
     hello_wifi_tlvs P ctx @ qos_enc @ tlv_bytes tlv_iconImage [] @ tlv_bytes tlv_friendlyName [] @
     [eofpropmarker]"

definition hello_bytes ::
    "port \<Rightarrow> iface \<Rightarrow> lltd_demultiplex_header_t \<Rightarrow> u16 \<Rightarrow> u8 list" where
  "hello_bytes P ctx h gen =
     demux_bytes EthernetBroadcast (port_mac P ctx) lltdEtherType 1 (tos h) 0 opcode_hello
       EthernetBroadcast (port_mac P ctx) 0 @
     be16 gen @ mac_bytes (realSource h) @ mac_bytes (source (frameHeader h)) @ hello_tlvs P ctx"

text \<open>The header and the chain of TLVs never need more than this many bytes.\<close>

abbreviation (input) hello_room :: nat where "hello_room \<equiv> 206"

section \<open>Lemmas\<close>

context lltd_port_contract begin

lemma hello_wifi_step:
  assumes "fst (p_wifi_mode P ctx) = 0"
  shows "tlv_step (hello_wifi_block P ctx) (hello_wifi_tlvs P ctx) 55"
proof -
  have "tlv_step (hello_wifi_block P ctx)
      (wireless_enc P ctx @ bssid_enc P ctx @ ssid_enc P ctx @ wifi_max_rate_enc P ctx @
       wifi_rssi_enc P ctx @ [] @ [] @ []) (3 + (8 + (34 + (4 + (6 + (0 + (0 + 0)))))))"
    unfolding hello_wifi_block_def
    by (intro tlv_step_bind wireless.is_step bssid.is_step ssid.is_step wifi_max_rate.is_step
        wifi_rssi.is_step ap_table.is_step ap_lineage.is_step repeater_table.is_step)
  then show ?thesis using assms by (simp add: hello_wifi_tlvs_def)
qed

lemma hello_tlv_step: "tlv_step (hello_tlv_block P ctx) (hello_tlvs P ctx) 160"
proof -
  have wifi: "tlv_step (if fst (p_wifi_mode P ctx) = 0 then hello_wifi_block P ctx else Some)
      (hello_wifi_tlvs P ctx) 55"
  proof (cases "fst (p_wifi_mode P ctx) = 0")
    case False
    then show ?thesis using tlv_step_mono [OF tlv_step_Some, of 55] by (simp add: hello_wifi_tlvs_def)
  qed (simp add: hello_wifi_step)
  have "tlv_step (hello_tlv_block P ctx)
     (host_id_enc P ctx @ characteristics_enc P ctx @ if_type_enc P ctx @ ipv4_enc P ctx @
      ipv6_enc P ctx @ perf_counter_enc @ link_speed_enc P ctx @ hostname_enc P @
      hello_wifi_tlvs P ctx @ qos_enc @ tlv_bytes tlv_iconImage [] @
      tlv_bytes tlv_friendlyName [] @ [eofpropmarker])
     (8 + (6 + (6 + (6 + (18 + (10 + (6 + (34 + (55 + (6 + (2 + (2 + 1))))))))))))"
    unfolding hello_tlv_block_def
    by (intro tlv_step_bind wifi host_id.is_step characteristics.is_step if_type.is_step
        ipv4.is_step ipv6.is_step perf_counter.is_step link_speed.is_step hostname.is_step
        qos.is_step icon_image.is_step friendly_name.is_step end_of_property.is_step)
  then show ?thesis by (simp add: hello_tlvs_def)
qed

end

text \<open>The state \<open>answerHello\<close> leaves behind.\<close>

definition hello_state ::
    "bool \<Rightarrow> lltd_demultiplex_header_t \<Rightarrow> u16 \<Rightarrow> lltd_iface_state \<Rightarrow> lltd_iface_state" where
  "hello_state le h gen st =
     (let slot = mapper_generation_for_tos (tos h);
          st = (set_active_mapper (realSource h) (source (frameHeader h)) st)
                 \<lparr>mapper_seq := lltd_ntohs le (seqNumber h)\<rparr>
      in if get_slot slot st = 0 \<and> gen \<noteq> 0 then set_slot slot gen st else st)"

lemma hello_state_frame [simp]:
  "see_list (hello_state le h gen st) = see_list st"
  "iface_ctx (hello_state le h gen st) = iface_ctx st"
  "owned (hello_state le h gen st) = owned st"
  "state_ok st \<Longrightarrow> state_ok (hello_state le h gen st)"
  by (simp_all add: hello_state_def Let_def)

text \<open>
  A Hello header followed by any chain of TLVs that is a step of the writers: the buffer
  holds the header fields and the chain, and nothing is written outside it.
\<close>

lemma hello_assembled:
  assumes mtu: "46 + reach \<le> mtu" and blk: "tlv_step blk enc reach"
  obtains b1 b2 b3 off where
    "setLltdHeader le (replicate mtu 0) mac EthernetBroadcast sq opcode_hello t = Some (b1, 32)"
    "setHelloHeader le b1 32 app rl gen = Some (b2, 14)" "blk (b2, 46) = Some (b3, off)"
    "load_bytes b3 0 off = Some (demux_bytes EthernetBroadcast mac lltdEtherType 1 t 0 opcode_hello
       EthernetBroadcast mac sq @ be16 gen @ mac_bytes rl @ mac_bytes app @ enc)"
proof -
  let ?hd = "demux_bytes EthernetBroadcast mac lltdEtherType 1 t 0 opcode_hello EthernetBroadcast mac sq"
  let ?up = "be16 gen @ mac_bytes rl @ mac_bytes app"
  obtain b1 where b1: "setLltdHeader le (replicate mtu 0) mac EthernetBroadcast sq
      opcode_hello t = Some (b1, 32)" "written (b1, 32) ?hd mtu"
    by (rule written_header [of mtu le mac EthernetBroadcast sq opcode_hello t]) (use mtu in auto)
  define b2 where "b2 = take 32 b1 @ ?up @ drop (32 + 14) b1"
  have b2: "setHelloHeader le b1 32 app rl gen = Some (b2, 14)"
    using setHelloHeader_eq [of 32 b1 le app rl gen] b1(2) mtu by (simp add: b2_def written_def)
  have "written (b2, 46) (?hd @ ?up) mtu" using b1(2) mtu by (simp add: written_def b2_def)
  moreover have "length (?hd @ ?up) + reach \<le> mtu" using mtu by simp
  ultimately obtain s where s: "blk (b2, 46) = Some s" "written s ((?hd @ ?up) @ enc) mtu"
    by (rule tlv_stepE [OF blk])
  obtain b3 off where "s = (b3, off)" by (cases s)
  with b1(1) b2 s written_load [OF s(2)] show ?thesis by (intro that [of b1 b2 b3 off]) simp_all
qed

lemma answerHello_runs:
  fixes P :: port and st :: lltd_iface_state
  assumes port: "lltd_port_contract P" and mtu: "hello_room \<le> port_mtu P ctx"
    and h: "load_demux_header (p_little_endian P) f = Some h"
    and raw: "load_u16 (p_little_endian P) f 32 = Some raw"
  defines "st' \<equiv> hello_state (p_little_endian P) h (lltd_ntohs (p_little_endian P) raw) st"
  defines "fr \<equiv> hello_bytes P ctx h (get_slot (mapper_generation_for_tos (tos h)) st')"
  obtains (nomem) w' where "\<not> p_malloc P (w_mallocs w) (port_mtu P ctx)"
      "answerHello P f ctx (st, w) = Some (st, w')" "w_events w' = w_events w" "w_live w' = w_live w"
    | (sent) w' where "p_malloc P (w_mallocs w) (port_mtu P ctx)"
      "answerHello P f ctx (st, w) = Some (st', w')" "w_live w' = w_live w"
      "w_events w' = w_events w @ [SendFrame ctx fr (p_send P (length (w_events w)) ctx fr)]"
proof (cases "p_malloc P (w_mallocs w) (port_mtu P ctx)")
  case False
  define w1 where "w1 = snd (lltd_port_malloc P (port_mtu P ctx) w)"
  have "lltd_port_malloc P (port_mtu P ctx) w = (False, w1)"
    using False by (simp add: w1_def lltd_port_malloc_def Let_def)
  moreover have "w_events w1 = w_events w" "w_live w1 = w_live w"
    using False by (simp_all add: w1_def world_simps)
  ultimately show ?thesis
    by (intro nomem [of w1]) (use False in \<open>simp_all add: answerHello_def\<close>)
next
  case True
  let ?le = "p_little_endian P" and ?mtu = "port_mtu P ctx"
  define gen where "gen = get_slot (mapper_generation_for_tos (tos h)) st'"
  define w1 where "w1 = snd (lltd_port_malloc P ?mtu w)"
  have w1: "lltd_port_malloc P ?mtu w = (True, w1)" "w_events w1 = w_events w"
    "w_live w1 = w_live w + 1"
    using True by (simp_all add: w1_def world_simps lltd_port_malloc_def Let_def)
  obtain b1 b2 b3 off where b: "setLltdHeader ?le (replicate ?mtu 0) (port_mac P ctx)
      EthernetBroadcast 0 opcode_hello (tos h) = Some (b1, 32)"
    "setHelloHeader ?le b1 32 (source (frameHeader h)) (realSource h) gen = Some (b2, 14)"
    "hello_tlv_block P ctx (b2, 46) = Some (b3, off)" "load_bytes b3 0 off = Some fr"
    unfolding fr_def hello_bytes_def gen_def
    by (rule hello_assembled [OF _ lltd_port_contract.hello_tlv_step [OF port]]) (use mtu in auto)
  define w2 where "w2 = snd (lltd_port_send_frame P ctx fr w1)"
  have w2: "lltd_port_send_frame P ctx fr w1 = (p_send P (length (w_events w)) ctx fr, w2)"
    using w1 by (simp add: w2_def lltd_port_send_frame_def Let_def)
  have "answerHello P f ctx (st, w) = Some (st', lltd_port_free w2)"
    using h raw w1(1) b w2
    by (simp add: answerHello_def Let_def port_mac_def hello_state_def st'_def gen_def)
  then show ?thesis
    by (intro sent [of "lltd_port_free w2"]) (use True w1 in \<open>simp_all add: w2_def world_simps\<close>)
qed

definition hello_complete :: "port \<Rightarrow> iface \<Rightarrow> u8 list \<Rightarrow> bool" where
  "hello_complete P ctx f \<longleftrightarrow>
     lltd_port_contract P \<and> hello_room \<le> port_mtu P ctx \<and> 34 \<le> length f"

interpretation hello: frame_handler answerHello hello_complete
proof
  fix P :: port and ctx and f :: "u8 list" and st w
  let ?le = "p_little_endian P"
  assume pre: "hello_complete P ctx f" and ok: "state_ok st"
  have "32 \<le> length f" using pre by (simp add: hello_complete_def)
  then obtain h where h: "load_demux_header ?le f = Some h" by (rule header_of)
  have "load_u16 ?le f 32 \<noteq> None" using pre by (simp add: hello_complete_def)
  then obtain raw where raw: "load_u16 ?le f 32 = Some raw" by blast
  have port: "lltd_port_contract P" "hello_room \<le> port_mtu P ctx"
    using pre by (simp_all add: hello_complete_def)
  from port h raw show "safe_step (st, w) (answerHello P f ctx (st, w))"
    by (cases rule: answerHello_runs [where st = st and w = w]) (use ok in \<open>auto simp: safe_step_def\<close>)
qed

section \<open>Reading the TLVs back\<close>

text \<open>A reader of TLV chains: pairs of type and value up to the end marker.\<close>

function parse_tlvs :: "u8 list \<Rightarrow> (u8 \<times> u8 list) list option" where
  "parse_tlvs bs =
     (case bs of
        [] \<Rightarrow> None
      | t # rest \<Rightarrow>
          if t = eofpropmarker then Some []
          else case rest of
            [] \<Rightarrow> None
          | l # r \<Rightarrow>
              if length r < unat l then None
              else map_option ((#) (t, take (unat l) r)) (parse_tlvs (drop (unat l) r)))"
  by pat_completeness auto
termination by (relation "measure length") auto

declare parse_tlvs.simps [simp del]

lemma parse_tlvs_end: "parse_tlvs (eofpropmarker # junk) = Some []"
  by (simp add: parse_tlvs.simps [of "_ # _"])

lemma parse_tlvs_cons:
  assumes "t \<noteq> eofpropmarker" "length v < 256"
  shows "parse_tlvs (tlv_bytes t v @ rest) = map_option ((#) (t, v)) (parse_tlvs rest)"
proof -
  have "unat (of_nat (length v) :: u8) = length v"
    by (rule unat_of_nat_small) (use assms in simp)
  then show ?thesis using assms(1)
    by (simp add: parse_tlvs.simps [of "_ # _"] tlv_bytes_def)
qed

text \<open>The properties a Hello carries.\<close>

definition hello_properties :: "port \<Rightarrow> iface \<Rightarrow> (u8 \<times> u8 list) list" where
  "hello_properties P ctx =
     [(tlv_hostId, mac_bytes (port_mac P ctx)),
      (tlv_characterisics, be32 (push_bit 16 (p_characteristics_flags P ctx))),
      (tlv_ifType, be32 (out_param 0 (p_if_type P ctx))),
      (tlv_ipv4, mem_of_u32 (p_little_endian P) (out_param 0 (p_ipv4_address P ctx))),
      (tlv_ipv6, port_ipv6 P ctx),
      (tlv_perfCounterFrequency, [0, 0, 0, 0, 0, 0x0F, 0x42, 0x40]),
      (tlv_linkSpeed, be32 (out_param 0 (p_link_speed_100bps P ctx))),
      (tlv_hostname, take (snd (p_hostname P 32)) (fst (p_hostname P 32)))] @
     (if fst (p_wifi_mode P ctx) \<noteq> 0 then []
      else [(tlv_wifimode, [out_param 0 (p_wifi_mode P ctx)])] @
        (if fst (p_bssid P ctx) \<noteq> 0 then [] else [(tlv_bssid, mac_bytes (snd (p_bssid P ctx)))]) @
        [(tlv_ssid, take (snd (p_ssid P ctx 32)) (fst (p_ssid P ctx 32))),
         (tlv_wifiMaxRate, be16 (out_param 0 (p_wifi_max_rate_0_5mbps P ctx))),
         (tlv_wifiRssi, be32 (scast (out_param 0 (p_wifi_rssi_dbm P ctx))))]) @
     [(tlv_qos_characteristics, [0xE0, 0, 0, 0]), (tlv_iconImage, []), (tlv_friendlyName, [])]"

context lltd_port_contract begin

lemma parse_hello_tlvs:
  "parse_tlvs (hello_tlvs P ctx) = Some (hello_properties P ctx)"
proof -
  have "length (take (snd (p_hostname P 32)) (fst (p_hostname P 32))) < 256"
    "length (take (snd (p_ssid P ctx 32)) (fst (p_ssid P ctx 32))) < 256"
    using hostname_cap [of 32] ssid_cap [of ctx 32] by simp_all
  then show ?thesis
    unfolding hello_tlvs_def hello_wifi_tlvs_def hello_properties_def host_id_enc_def
      characteristics_enc_def if_type_enc_def ipv4_enc_def ipv6_enc_def perf_counter_enc_def
      link_speed_enc_def hostname_enc_def wireless_enc_def bssid_enc_def ssid_enc_def
      wifi_max_rate_enc_def wifi_rssi_enc_def qos_enc_def
    by (simp add: parse_tlvs_cons parse_tlvs_end)
qed

end

end
