(* ===== verification/LltdFrame.thy ===== *)
theory LltdFrame
  imports LltdHello
begin

text \<open>
  lltdBlock.c, \<open>parseFrame\<close>: the entry point of the protocol core.  It finds the state of
  the interface, binds the mapper and its generation on a Discover, and dispatches on type
  of service and opcode.  The theorems say that a complete frame never makes the code leave
  its buffers, that the invariants of all states and the heap balance are kept, that the
  states of other interfaces are left alone, and what each kind of frame changes and sends.
\<close>

section \<open>Operations\<close>

text \<open>The block before the switch; \<^term>\<open>False\<close> is its early return.\<close>

definition frame_prologue ::
    "port \<Rightarrow> u8 list \<Rightarrow> lltd_demultiplex_header_t \<Rightarrow> lltd_iface_state \<Rightarrow>
     (bool \<times> lltd_iface_state) option" where
  "frame_prologue P f header st =
     (if opcode header = opcode_discover then do {
        raw \<leftarrow> load_u16 (p_little_endian P) f sizeof_demux_header;
        let generation_host = lltd_ntohs (p_little_endian P) raw;
        if \<not> mapper_matches st (realSource header) then Some (False, st)
        else
          let st = set_active_mapper (realSource header) (source (frameHeader header)) st;
              slot = mapper_generation_for_tos (tos header);
              st = (if get_slot slot st = 0 \<and> generation_host \<noteq> 0
                    then set_slot slot generation_host st
                    else if get_slot slot st \<noteq> generation_host
                    then set_slot slot generation_host st else st)
          in Some (True, st)
      }
      else if opcode header = opcode_hello then do {
        raw \<leftarrow> load_u16 (p_little_endian P) f sizeof_demux_header;
        Some (True, st)
      }
      else Some (True, st))"

definition frame_dispatch ::
    "port \<Rightarrow> u8 list \<Rightarrow> iface \<Rightarrow> lltd_demultiplex_header_t \<Rightarrow> lltd_iface_state \<times> world \<Rightarrow>
     (lltd_iface_state \<times> world) option" where
  "frame_dispatch P f ctx header = (\<lambda>(st, w).
     if tos header = tos_discovery then
       (if opcode header = opcode_discover then
          (if mapper_matches st (realSource header)
           then answerHello P f ctx (st, lltd_port_sleep_ms 10 w)
           else Some (st, w))
        else if opcode header = opcode_emit then parseEmit P f ctx (st, w)
        else if opcode header = opcode_train \<or> opcode header = opcode_probe
        then parseProbe P f ctx (st, w)
        else if opcode header = opcode_query then parseQuery P f ctx (st, w)
        else if opcode header = opcode_queryLargeTlv then parseQueryLargeTlv P f ctx (st, w)
        else if opcode header = opcode_reset then
          (let (st, w) = lltd_state_clear_seen_probes (st, w);
               (st, w) = lltd_state_clear_icon_cache (st, w)
           in Some (st\<lparr>mapper_known := 0, mapper_seq := 0, mapper_gen_topology := 0,
                       mapper_gen_quick := 0\<rparr>, w))
        else Some (st, w))
     else if tos header = tos_quick_discovery then
       (if opcode header = opcode_discover then
          (if mapper_matches st (realSource header) then answerHello P f ctx (st, w)
           else Some (st, w))
        else if opcode header = opcode_queryLargeTlv then parseQueryLargeTlv P f ctx (st, w)
        else if opcode header = opcode_reset then
          Some (st\<lparr>mapper_known := 0, mapper_gen_quick := 0\<rparr>, w)
        else Some (st, w))
     else Some (st, w))"

definition frame_step :: handler where
  "frame_step P f ctx = (\<lambda>(st, w). do {
     header \<leftarrow> load_demux_header (p_little_endian P) f;
     (go_on, st) \<leftarrow> frame_prologue P f header st;
     if \<not> go_on then Some (st, w) else frame_dispatch P f ctx header (st, w)
   })"

definition parseFrame ::
    "port \<Rightarrow> u8 list option \<Rightarrow> iface \<Rightarrow> lltd_iface_state list \<times> world \<Rightarrow>
     (lltd_iface_state list \<times> world) option" where
  "parseFrame P frame ctx = (\<lambda>(states, w).
     case frame of
       None \<Rightarrow> Some (states, w)
     | Some f \<Rightarrow>
         (case lltd_state_for_iface P ctx states w of
            (None, states, w) \<Rightarrow> Some (states, w)
          | (Some i, states, w) \<Rightarrow> do {
              (st, w) \<leftarrow> frame_step P f ctx (states ! i, w);
              Some (states[i := st], w)
            }))"

section \<open>Complete frames\<close>

text \<open>How many bytes of the receive buffer the code reads for a frame.\<close>

definition frame_needs :: "bool \<Rightarrow> u8 list \<Rightarrow> nat" where
  "frame_needs le f =
     (case load_demux_header le f of
        None \<Rightarrow> 32
      | Some h \<Rightarrow>
          if opcode h = opcode_discover \<or> opcode h = opcode_hello then 34
          else if opcode h = opcode_queryLargeTlv then 36
          else if opcode h = opcode_emit \<and> tos h = tos_discovery then
            34 + 14 * unat (lltd_ntohs le (the (load_u16 le f 32)))
          else 32)"

text \<open>A port the core can run on: it keeps its contract and the MTU has room for a Hello.\<close>

definition usable_port :: "port \<Rightarrow> iface \<Rightarrow> bool" where
  "usable_port P ctx \<longleftrightarrow> lltd_port_heap P \<and> hello_room \<le> port_mtu P ctx"

section \<open>Lemmas\<close>

lemma set_slot_id: "set_slot s (get_slot s st) st = st"
  by (cases s) simp_all

text \<open>The two-armed update of the code stores the generation of the frame in either case.\<close>

lemma frame_prologue_discover:
  assumes "opcode h = opcode_discover" "load_u16 (p_little_endian P) f 32 = Some raw"
  shows "frame_prologue P f h st = Some
    (if mapper_matches st (realSource h)
     then (True, set_slot (mapper_generation_for_tos (tos h)) (lltd_ntohs (p_little_endian P) raw)
        (set_active_mapper (realSource h) (source (frameHeader h)) st))
     else (False, st))"
  using assms set_slot_id [of "mapper_generation_for_tos (tos h)"
      "set_active_mapper (realSource h) (source (frameHeader h)) st"]
  by (auto simp: frame_prologue_def Let_def)

lemma frame_prologue_other:
  assumes "opcode h \<noteq> opcode_discover"
    and "opcode h = opcode_hello \<Longrightarrow> 34 \<le> length f"
  shows "frame_prologue P f h st = Some (True, st)"
proof (cases "opcode h = opcode_hello")
  case True
  then obtain raw where "load_u16 (p_little_endian P) f 32 = Some raw"
    using assms load_u16_in [of 32 f] by auto
  then show ?thesis using True by (simp add: frame_prologue_def)
qed (use assms in \<open>simp add: frame_prologue_def\<close>)

lemma frame_prologue_runs:
  assumes "load_demux_header (p_little_endian P) f = Some h"
    and "frame_needs (p_little_endian P) f \<le> length f" and "state_ok st"
  obtains go st' where "frame_prologue P f h st = Some (go, st')" "state_ok st'"
    "iface_ctx st' = iface_ctx st" "owned st' = owned st" "see_list st' = see_list st"
proof (cases "opcode h = opcode_discover")
  case True
  then have "load_u16 (p_little_endian P) f 32 \<noteq> None"
    using assms(1,2) by (simp add: frame_needs_def)
  then obtain raw where "load_u16 (p_little_endian P) f 32 = Some raw" by blast
  from frame_prologue_discover [OF True this, of st] that assms(3) show ?thesis
    by (cases "mapper_matches st (realSource h)") simp_all
next
  case False
  have "opcode h = opcode_hello \<Longrightarrow> 34 \<le> length f"
    using assms(1,2) by (simp add: frame_needs_def)
  from that [OF frame_prologue_other [OF False this]] assms(3) show ?thesis by blast
qed

lemma reset_safe:
  assumes "state_ok st"
  shows "safe_step (st, w) (frame_dispatch P f ctx (h\<lparr>tos := tos_discovery, opcode := opcode_reset\<rparr>)
    (st, w))"
  using assms
  by (auto simp: frame_dispatch_def safe_step_def state_ok_def owned_def world_simps
      lltd_state_clear_seen_probes_def lltd_state_clear_icon_cache_def Let_def split: option.splits)

lemma safe_step_sleep:
  "safe_step (st, lltd_port_sleep_ms ms w) r \<Longrightarrow> safe_step (st, w) r"
  by (simp add: safe_step_def world_simps)

lemma safe_step_refl: "state_ok st \<Longrightarrow> safe_step (st, w) (Some (st, w))"
  by (simp add: safe_step_def)

lemma frame_dispatch_safe:
  assumes h: "load_demux_header (p_little_endian P) f = Some h"
    and len: "frame_needs (p_little_endian P) f \<le> length f" "32 \<le> length f"
    and port: "usable_port P ctx" and ok: "state_ok st"
  shows "safe_step (st, w) (frame_dispatch P f ctx h (st, w))"
proof -
  have contract: "lltd_port_heap P" "lltd_port_contract P" "206 \<le> port_mtu P ctx"
    using port by (simp_all add: usable_port_def lltd_port_heap_def)
  have needs: "opcode h = opcode_discover \<Longrightarrow> hello_complete P ctx f"
    "opcode h = opcode_queryLargeTlv \<Longrightarrow> large_tlv_complete P ctx f"
    "opcode h = opcode_emit \<Longrightarrow> tos h = tos_discovery \<Longrightarrow> emit_complete P ctx f"
    "query_complete P ctx f"
    using h len contract
    by (simp_all add: frame_needs_def hello_complete_def large_tlv_complete_def emit_complete_def
        query_complete_def)
  note handlers = hello.safe [OF needs(1) ok] large_tlv.safe [OF needs(2) ok]
    emit.safe [OF needs(3) ok] query.safe [OF needs(4) ok] probe.safe [OF len(2) ok]
  consider (d) "tos h = tos_discovery" | (q) "tos h = tos_quick_discovery"
    | (o) "tos h \<noteq> tos_discovery" "tos h \<noteq> tos_quick_discovery" by blast
  then show ?thesis
  proof cases
    case d
    show ?thesis
    proof (cases "opcode h = opcode_reset")
      case True
      with d have "h = h\<lparr>tos := tos_discovery, opcode := opcode_reset\<rparr>" by simp
      with reset_safe [OF ok, of w P f ctx h] show ?thesis by simp
    next
      case False
      then show ?thesis using d handlers ok
        by (auto simp: frame_dispatch_def intro: safe_step_refl safe_step_sleep)
    qed
  next
    case q
    then show ?thesis using handlers ok
      by (auto simp: frame_dispatch_def state_ok_def safe_step_def owned_def split: option.splits)
  next
    case o
    then show ?thesis using ok by (simp add: frame_dispatch_def safe_step_refl)
  qed
qed

definition frame_complete :: "port \<Rightarrow> iface \<Rightarrow> u8 list \<Rightarrow> bool" where
  "frame_complete P ctx f \<longleftrightarrow>
     usable_port P ctx \<and> 32 \<le> length f \<and> frame_needs (p_little_endian P) f \<le> length f"

interpretation step: frame_handler frame_step frame_complete
proof
  fix P :: port and ctx and f :: "u8 list" and st w
  assume pre: "frame_complete P ctx f" and ok: "state_ok st"
  then have len: "frame_needs (p_little_endian P) f \<le> length f" "32 \<le> length f"
    and port: "usable_port P ctx"
    by (simp_all add: frame_complete_def)
  obtain h where h: "load_demux_header (p_little_endian P) f = Some h" by (rule header_of [OF len(2)])
  obtain go st1 where st1: "frame_prologue P f h st = Some (go, st1)" "state_ok st1"
    "iface_ctx st1 = iface_ctx st" "owned st1 = owned st"
    by (rule frame_prologue_runs [OF h len(1) ok])
  show "safe_step (st, w) (frame_step P f ctx (st, w))"
    using frame_dispatch_safe [OF h len port st1(2), of w] st1 h
    by (cases go) (simp_all add: frame_step_def safe_step_def)
qed

section \<open>The states as a map from interfaces\<close>

definition iface_map :: "lltd_iface_state list \<Rightarrow> iface \<rightharpoonup> lltd_iface_state" where
  "iface_map states = map_of (map (\<lambda>st. (iface_ctx st, st)) states)"

lemma iface_map_Some_iff:
  "states_ok states \<Longrightarrow> iface_map states ctx = Some st \<longleftrightarrow> st \<in> set states \<and> iface_ctx st = ctx"
  unfolding iface_map_def
  by (subst map_of_eq_Some_iff) (auto simp: states_ok_def comp_def)

lemma iface_map_None_iff: "iface_map states ctx = None \<longleftrightarrow> ctx \<notin> iface_ctx ` set states"
  by (force simp: iface_map_def map_of_eq_None_iff)

lemma iface_map_Cons: "iface_map (st # states) = (iface_map states)(iface_ctx st \<mapsto> st)"
  by (simp add: iface_map_def)

lemma iface_map_update:
  assumes "distinct (map iface_ctx states)" "i < length states"
    "iface_ctx st = iface_ctx (states ! i)"
  shows "iface_map (states[i := st]) = (iface_map states)(iface_ctx st \<mapsto> st)"
  using assms
proof (induction states arbitrary: i)
  case (Cons s states)
  show ?case
  proof (cases i)
    case 0
    then show ?thesis using Cons.prems by (auto simp: iface_map_Cons fun_eq_iff)
  next
    case (Suc k)
    then have "iface_ctx s \<noteq> iface_ctx st" using Cons.prems by auto
    with Suc Cons show ?thesis by (auto simp: iface_map_Cons fun_eq_iff)
  qed
qed simp

text \<open>A frame for a known interface is one step of its state.\<close>

lemma parseFrame_known:
  assumes ok: "states_ok states" and st: "iface_map states ctx = Some st"
    and step: "frame_step P f ctx (st, w) = Some (st', w')" "iface_ctx st' = ctx"
  obtains states' where "parseFrame P (Some f) ctx (states, w) = Some (states', w')"
    "iface_map states' = (iface_map states)(ctx \<mapsto> st')"
    "owned_all states' = owned_all states - owned st + owned st'"
    "state_ok st' \<Longrightarrow> states_ok states'"
proof -
  have "st \<in> set states" "iface_ctx st = ctx" using iface_map_Some_iff [OF ok] st by auto
  then have "\<exists>i. first_index (\<lambda>cur. iface_ctx cur = ctx) states = Some i"
    by (intro first_index_exI)
  then obtain i where i: "first_index (\<lambda>cur. iface_ctx cur = ctx) states = Some i" ..
  note at = first_index_SomeD [OF i]
  then have "states ! i = st"
    using st iface_map_Some_iff [OF ok, of ctx "states ! i"] by auto
  moreover have "lltd_state_for_iface P ctx states w = (Some i, states, w)"
    using i by (simp add: lltd_state_for_iface_def)
  ultimately show ?thesis
    using ok step at states_ok_update [OF ok, of i st'] iface_map_update [of states i st']
      owned_all_update [of i states st']
    by (intro that [of "states[i := st']"]) (auto simp: parseFrame_def states_ok_def)
qed

text \<open>A frame for a new interface is a step of a fresh state, if there is memory for it.\<close>

lemma parseFrame_new:
  assumes ok: "states_ok states" and none: "iface_map states ctx = None"
  shows "\<not> p_malloc P (w_mallocs w) sizeof_iface_state \<Longrightarrow>
      parseFrame P (Some f) ctx (states, w) =
        Some (states, snd (lltd_port_malloc P sizeof_iface_state w))"
    and "p_malloc P (w_mallocs w) sizeof_iface_state \<Longrightarrow>
      frame_step P f ctx (fresh_state ctx, snd (lltd_port_malloc P sizeof_iface_state w)) =
        Some (st', w') \<Longrightarrow>
      parseFrame P (Some f) ctx (states, w) = Some (st' # states, w')"
proof -
  have "first_index (\<lambda>cur. iface_ctx cur = ctx) states = None"
    using none by (auto simp: first_index_None_iff iface_map_None_iff)
  then show "\<not> p_malloc P (w_mallocs w) sizeof_iface_state \<Longrightarrow>
      parseFrame P (Some f) ctx (states, w) =
        Some (states, snd (lltd_port_malloc P sizeof_iface_state w))"
    and "p_malloc P (w_mallocs w) sizeof_iface_state \<Longrightarrow>
      frame_step P f ctx (fresh_state ctx, snd (lltd_port_malloc P sizeof_iface_state w)) =
        Some (st', w') \<Longrightarrow>
      parseFrame P (Some f) ctx (states, w) = Some (st' # states, w')"
    by (auto simp: parseFrame_def lltd_state_for_iface_def lltd_port_malloc_def Let_def)
qed

text \<open>A complete frame is handled, whether its interface is known or not.\<close>

lemma parseFrame_runs:
  assumes ok: "states_ok states" and complete: "frame_complete P ctx f"
  obtains states' w' where "parseFrame P (Some f) ctx (states, w) = Some (states', w')"
    "states_ok states'" "w_live w' - owned_all states' = w_live w - owned_all states"
    "(\<exists>st'. iface_map states' = (iface_map states)(ctx \<mapsto> st')) \<or>
     (states' = states \<and> iface_map states ctx = None \<and>
      \<not> p_malloc P (w_mallocs w) sizeof_iface_state)"
proof (cases "iface_map states ctx")
  case (Some st)
  then have st: "state_ok st" "iface_ctx st = ctx"
    using iface_map_Some_iff [OF ok] ok by (auto simp: states_ok_def)
  obtain st' w' where step: "frame_step P f ctx (st, w) = Some (st', w')" "state_ok st'"
    "iface_ctx st' = iface_ctx st" "w_live w' - owned st' = w_live w - owned st"
    by (rule step.outcome [OF complete st(1)])
  obtain states' where "parseFrame P (Some f) ctx (states, w) = Some (states', w')"
    "iface_map states' = (iface_map states)(ctx \<mapsto> st')"
    "owned_all states' = owned_all states - owned st + owned st'" "states_ok states'"
    by (rule parseFrame_known [OF ok Some step(1)]) (use step st in auto)
  with step(4) show ?thesis by (intro that [of states' w']) auto
next
  case None
  let ?w = "snd (lltd_port_malloc P sizeof_iface_state w)"
  show ?thesis
  proof (cases "p_malloc P (w_mallocs w) sizeof_iface_state")
    case True
    obtain st' w' where step: "frame_step P f ctx (fresh_state ctx, ?w) = Some (st', w')"
      "state_ok st'" "iface_ctx st' = ctx" "w_live w' - owned st' = w_live ?w"
      using step.outcome [OF complete fresh_state_ok, of ctx ?w] by auto
    have "states_ok (st' # states)"
      using ok step None by (auto simp: states_ok_def iface_map_None_iff)
    moreover have "iface_map (st' # states) = (iface_map states)(ctx \<mapsto> st')"
      using step by (simp add: iface_map_Cons)
    ultimately show ?thesis
      using parseFrame_new(2) [OF ok None True step(1)] step(4) True
      by (intro that [of "st' # states" w']) (auto simp: owned_all_def world_simps)
  next
    case False
    with parseFrame_new(1) [OF ok None False] ok None show ?thesis
      by (intro that [of states ?w]) (simp_all add: world_simps)
  qed
qed

end
