(* ===== verification/LltdPosixPort.thy ===== *)
theory LltdPosixPort
  imports LltdPort
begin

text \<open>
  os/posix/lltd_port.c: the stub port of the generic POSIX builds.  The operating system is
  a parameter: what \<open>clock_gettime\<close> and \<open>time\<close> return on each call, whether \<open>malloc\<close>
  succeeds, and the array \<open>gethostname\<close> fills.  The port is shown to keep the contract the
  protocol core relies on.
\<close>

record os_env =
  os_little_endian :: bool
  os_clock_gettime :: "nat \<Rightarrow> (u64 \<times> u64) option"  \<comment> \<open>seconds and nanoseconds\<close>
  os_time :: "nat \<Rightarrow> u64"
  os_malloc :: "nat \<Rightarrow> nat \<Rightarrow> bool"
  os_gethostname :: "u8 list option"  \<comment> \<open>the array of 256 bytes, when the call succeeds\<close>

section \<open>Strings\<close>

text \<open>\<open>strnlen\<close> on an array of the given bound, and the bytes of a string literal.\<close>

definition c_strnlen :: "u8 list \<Rightarrow> nat" where
  "c_strnlen s = length (takeWhile (\<lambda>c. c \<noteq> 0) s)"

definition c_literal :: "string \<Rightarrow> u8 list" where
  "c_literal s = map (\<lambda>c. word_of_int (of_char c)) s"

lemma c_strnlen_le: "c_strnlen s \<le> length s"
  by (simp add: c_strnlen_def length_takeWhile_le)

section \<open>Operations\<close>

text \<open>The \<open>timespec\<close> of a pause.\<close>

definition posix_sleep_timespec :: "u32 \<Rightarrow> u32 \<times> u64" where
  "posix_sleep_timespec milliseconds =
     (milliseconds div 1000, ucast (milliseconds mod 1000) * 1000000)"

definition posix_send_frame :: "iface \<Rightarrow> u8 list \<Rightarrow> int" where
  "posix_send_frame ctx frame = -1"

definition posix_get_mtu :: "iface \<Rightarrow> int \<times> nat option" where
  "posix_get_mtu ctx = (0, Some 1500)"

definition posix_get_icon_image :: "world \<Rightarrow> (int \<times> u8 list option \<times> nat) \<times> world" where
  "posix_get_icon_image w = ((-1, None, 0), w)"

definition posix_name :: "u8 list" where
  "posix_name = c_literal ''LLTD Responder''"

definition posix_get_friendly_name ::
    "os_env \<Rightarrow> world \<Rightarrow> (int \<times> u8 list option \<times> nat) \<times> world" where
  "posix_get_friendly_name os w =
     (let len = length posix_name;
          (ok, w) = alloc_with (os_malloc os) (len + 1) w
      in if \<not> ok then ((-1, None, 0), w) else ((0, Some (posix_name @ [0]), len), w))"

definition posix_monotonic_seconds :: "os_env \<Rightarrow> nat \<Rightarrow> u64" where
  "posix_monotonic_seconds os i =
     (case os_clock_gettime os i of Some (sec, nsec) \<Rightarrow> sec | None \<Rightarrow> os_time os i)"

definition posix_monotonic_milliseconds :: "os_env \<Rightarrow> nat \<Rightarrow> u64" where
  "posix_monotonic_milliseconds os i =
     (case os_clock_gettime os i of
        Some (sec, nsec) \<Rightarrow> sec * 1000 + nsec div 1000000
      | None \<Rightarrow> os_time os i * 1000)"

definition posix_get_hostname :: "os_env \<Rightarrow> nat \<Rightarrow> u8 list \<times> nat" where
  "posix_get_hostname os dst_len =
     (if dst_len = 0 then ([], 0)
      else case os_gethostname os of
        None \<Rightarrow> ([], 0)
      | Some hostname \<Rightarrow>
          (let len = c_strnlen hostname;
               len = (if dst_len < len then dst_len else len)
           in (take len hostname, len)))"

definition posix_url :: "u8 list" where
  "posix_url = c_literal ''https://example.invalid/support''"

definition posix_get_support_url :: "nat \<Rightarrow> u8 list \<times> nat" where
  "posix_get_support_url dst_len =
     (if dst_len = 0 then ([], 0)
      else
        let len = length posix_url;
            len = (if dst_len < len then dst_len else len)
        in (take len posix_url, len))"

definition posix_get_upnp_uuid :: "int \<times> u8 list" where
  "posix_get_upnp_uuid = (-1, [])"

definition posix_get_hw_id :: "nat \<Rightarrow> u8 list \<times> nat" where
  "posix_get_hw_id dst_len = ([], 0)"

definition posix_get_mac_address :: "iface \<Rightarrow> int \<times> ethernet_address_t option" where
  "posix_get_mac_address ctx = (-1, None)"

definition posix_get_characteristics_flags :: "iface \<Rightarrow> u32" where
  "posix_get_characteristics_flags ctx = 0"

definition posix_get_if_type :: "iface \<Rightarrow> int \<times> u32 option" where
  "posix_get_if_type ctx = (-1, Some 0)"

definition posix_get_ipv4_address :: "iface \<Rightarrow> int \<times> u32 option" where
  "posix_get_ipv4_address ctx = (-1, Some 0)"

definition posix_get_ipv6_address :: "iface \<Rightarrow> int \<times> u8 list option" where
  "posix_get_ipv6_address ctx = (-1, Some (replicate 16 0))"

definition posix_get_link_speed_100bps :: "iface \<Rightarrow> int \<times> u32 option" where
  "posix_get_link_speed_100bps ctx = (-1, Some 0)"

definition posix_get_wifi_mode :: "iface \<Rightarrow> int \<times> u8 option" where
  "posix_get_wifi_mode ctx = (-1, None)"

definition posix_get_bssid :: "iface \<Rightarrow> int \<times> ethernet_address_t" where
  "posix_get_bssid ctx = (-1, zero_mac)"

definition posix_get_ssid :: "iface \<Rightarrow> nat \<Rightarrow> u8 list \<times> nat" where
  "posix_get_ssid ctx dst_len = ([], 0)"

definition posix_get_wifi_max_rate_0_5mbps :: "iface \<Rightarrow> int \<times> u16 option" where
  "posix_get_wifi_max_rate_0_5mbps ctx = (-1, Some 0)"

definition posix_get_wifi_rssi_dbm :: "iface \<Rightarrow> int \<times> u8 option" where
  "posix_get_wifi_rssi_dbm ctx = (-1, Some 0)"

definition posix_get_wifi_phy_medium :: "iface \<Rightarrow> int \<times> u32 option" where
  "posix_get_wifi_phy_medium ctx = (-1, Some 0)"

definition posix_port :: "os_env \<Rightarrow> port" where
  "posix_port os =
     \<lparr>p_little_endian = os_little_endian os,
      p_seconds = posix_monotonic_seconds os,
      p_millis = posix_monotonic_milliseconds os,
      p_malloc = os_malloc os,
      p_send = (\<lambda>i. posix_send_frame),
      p_mtu = posix_get_mtu,
      p_icon_image = posix_get_icon_image,
      p_friendly_name = posix_get_friendly_name os,
      p_hostname = posix_get_hostname os,
      p_support_url = posix_get_support_url,
      p_upnp_uuid = posix_get_upnp_uuid,
      p_hw_id = posix_get_hw_id,
      p_mac_address = posix_get_mac_address,
      p_characteristics_flags = posix_get_characteristics_flags,
      p_if_type = posix_get_if_type,
      p_ipv4_address = posix_get_ipv4_address,
      p_ipv6_address = posix_get_ipv6_address,
      p_link_speed_100bps = posix_get_link_speed_100bps,
      p_wifi_mode = posix_get_wifi_mode,
      p_bssid = posix_get_bssid,
      p_ssid = posix_get_ssid,
      p_wifi_max_rate_0_5mbps = posix_get_wifi_max_rate_0_5mbps,
      p_wifi_rssi_dbm = posix_get_wifi_rssi_dbm,
      p_wifi_phy_medium = posix_get_wifi_phy_medium\<rparr>"

section \<open>The contract\<close>

lemma alloc_with_world [world_simps]:
  "w_live (snd (alloc_with a n w)) = w_live w + (if fst (alloc_with a n w) then 1 else 0)"
  "w_events (snd (alloc_with a n w)) = w_events w"
  by (simp_all add: alloc_with_def Let_def)

lemma posix_name_hands_over: "hands_over (posix_get_friendly_name os)"
  unfolding hands_over_def posix_get_friendly_name_def
  by (auto simp: alloc_with_def Let_def split: if_splits)

lemma posix_hostname_ok:
  "length (fst (posix_get_hostname os n)) \<le> n"
  "snd (posix_get_hostname os n) \<le> length (fst (posix_get_hostname os n))"
proof -
  have "length (fst (posix_get_hostname os n)) \<le> n \<and>
    snd (posix_get_hostname os n) \<le> length (fst (posix_get_hostname os n))"
  proof (cases "os_gethostname os")
    case (Some s)
    then show ?thesis using c_strnlen_le [of s] by (auto simp: posix_get_hostname_def Let_def)
  qed (simp add: posix_get_hostname_def)
  then show "length (fst (posix_get_hostname os n)) \<le> n"
    "snd (posix_get_hostname os n) \<le> length (fst (posix_get_hostname os n))" by simp_all
qed

interpretation posix: lltd_port_heap "posix_port os" for os
proof
  show "length (fst (p_hostname (posix_port os) n)) \<le> n"
    "snd (p_hostname (posix_port os) n) \<le> length (fst (p_hostname (posix_port os) n))" for n
    using posix_hostname_ok [of os n] by (simp_all add: posix_port_def)
  show "hands_over (p_friendly_name (posix_port os))"
    by (simp add: posix_port_def posix_name_hands_over)
  show "hands_over (p_icon_image (posix_port os))"
    by (auto simp: posix_port_def posix_get_icon_image_def hands_over_def)
qed (auto simp: posix_port_def posix_get_support_url_def posix_get_hw_id_def posix_get_ssid_def
    posix_get_upnp_uuid_def posix_get_ipv6_address_def Let_def)

end
