(* ===== verification/LltdFrameProps.thy ===== *)
theory LltdFrameProps
  imports LltdFrame LltdPosixPort
begin

text \<open>
  The properties of the protocol core, stated on \<open>parseFrame\<close>: memory safety and the heap
  balance, the refinement of the state list by a map from interfaces, and what each kind of
  frame changes and puts on the wire.  The witnesses run the core on the port of os/posix
  with a concrete operating system.
\<close>

section \<open>A concrete platform\<close>

definition demo_os :: os_env where
  "demo_os = \<lparr>os_little_endian = True, os_clock_gettime = (\<lambda>i. Some (of_nat i, 0)),
     os_time = (\<lambda>i. 0), os_malloc = (\<lambda>i n. True), os_gethostname = Some [0x61, 0x62, 0]\<rparr>"

definition demo_port :: port where
  "demo_port = (posix_port demo_os)\<lparr>p_send := (\<lambda>i ctx f. int (length f))\<rparr>"

definition demo_mapper :: ethernet_address_t where
  "demo_mapper = EthAddr 2 0 0 0 0 1"

text \<open>A frame from the demo mapper to everyone, with the given service, opcode and body.\<close>

definition demo_frame :: "u8 \<Rightarrow> u8 \<Rightarrow> u8 list \<Rightarrow> u8 list" where
  "demo_frame t oc body =
     demux_bytes EthernetBroadcast demo_mapper lltdEtherType 1 t 0 oc zero_mac demo_mapper 7 @ body"

definition demo_header :: "u8 \<Rightarrow> u8 \<Rightarrow> lltd_demultiplex_header_t" where
  "demo_header t oc =
     \<lparr>frameHeader = \<lparr>destination = EthernetBroadcast, source = demo_mapper,
        ethertype = u16_of_mem True (be16 lltdEtherType)\<rparr>,
      version = 1, tos = t, reserved = 0, opcode = oc, realDestination = zero_mac,
      realSource = demo_mapper, seqNumber = u16_of_mem True (be16 7)\<rparr>"

lemma demo_header: "load_demux_header True (demo_frame t oc body) = Some (demo_header t oc)"
  by (simp add: demo_frame_def demo_header_def load_demux_bytes)

lemma length_demo_frame [simp]: "length (demo_frame t oc body) = 32 + length body"
  by (simp add: demo_frame_def)

lemma drop_demo_frame [simp]: "drop 32 (demo_frame t oc body) = body"
  by (simp add: demo_frame_def)

lemma demo_header_simps [simp]:
  "tos (demo_header t oc) = t" "opcode (demo_header t oc) = oc"
  "realSource (demo_header t oc) = demo_mapper" "realDestination (demo_header t oc) = zero_mac"
  "source (frameHeader (demo_header t oc)) = demo_mapper"
  "destination (frameHeader (demo_header t oc)) = EthernetBroadcast"
  "lltd_ntohs True (seqNumber (demo_header t oc)) = 7"
  by (simp_all add: demo_header_def ntohs_mem)

lemma demo_body_u16: "load_u16 True (demo_frame t oc (be16 v @ rest)) 32 = Some (u16_of_mem True (be16 v))"
  by (simp add: demo_frame_def load_u16_skip load_u16_here)

lemma demo_port_simps [simp]:
  "p_little_endian demo_port = True" "p_malloc demo_port = (\<lambda>i n. True)"
  "p_send demo_port = (\<lambda>i ctx f. int (length f))"
  "port_mtu demo_port ctx = 1500" "port_mac demo_port ctx = zero_mac"
  by (simp_all add: demo_port_def posix_port_def demo_os_def port_mtu_def posix_get_mtu_def
      port_mac_def posix_get_mac_address_def)

lemma demo_port_usable [simp]: "usable_port demo_port ctx" "lltd_port_contract demo_port"
proof -
  have "lltd_port_heap (posix_port demo_os)" by (rule posix.lltd_port_heap_axioms)
  then show "usable_port demo_port ctx"
    by (simp add: usable_port_def) (simp add: demo_port_def lltd_port_heap_def lltd_port_contract_def
        lltd_port_heap_axioms_def)
  then show "lltd_port_contract demo_port" by (simp add: usable_port_def lltd_port_heap_def)
qed

section \<open>Safety\<close>

text \<open>
  C1.  On a port that keeps its contract and whose MTU has room for a Hello, a frame that
  contains the bytes its kind needs is handled without any access outside a buffer; the
  invariants of all interface states are kept, and every heap block taken or given back is
  one the states gain or lose: the handlers leak nothing and free nothing twice.
\<close>

theorem parse_frame_safe:
  assumes "states_ok states" "frame_complete P ctx f"
  shows "\<exists>states' w'. parseFrame P (Some f) ctx (states, w) = Some (states', w') \<and>
    states_ok states' \<and> w_live w' - owned_all states' = w_live w - owned_all states"
  by (rule parseFrame_runs [OF assms, of w]) blast

lemma demo_frame_complete:
  "oc = opcode_discover \<Longrightarrow> 2 \<le> length body \<Longrightarrow> frame_complete demo_port ctx (demo_frame t oc body)"
  "oc = opcode_reset \<Longrightarrow> frame_complete demo_port ctx (demo_frame t oc body)"
  by (simp_all add: frame_complete_def frame_needs_def demo_header)

theorem parse_frame_safe_witness:
  "\<exists>states' w'. parseFrame demo_port (Some (demo_frame 0 0 (be16 5))) 3 ([fresh_state 4], world0) =
     Some (states', w') \<and> states_ok states' \<and>
     w_live w' - owned_all states' = w_live world0 - owned_all [fresh_state 4]"
  by (rule parse_frame_safe) (simp_all add: states_ok_def demo_frame_complete)

section \<open>One state per interface\<close>

text \<open>
  C2.  The list of interface states refines a map from interfaces to states: a complete
  frame changes the entry of its own interface only, and creates it when it is missing
  unless memory for it runs out.
\<close>

theorem parse_frame_refines_map:
  assumes "states_ok states" "frame_complete P ctx f"
  shows "\<exists>states' w'. parseFrame P (Some f) ctx (states, w) = Some (states', w') \<and>
    ((\<exists>st'. iface_map states' = (iface_map states)(ctx \<mapsto> st')) \<or>
     (states' = states \<and> iface_map states ctx = None \<and>
      \<not> p_malloc P (w_mallocs w) sizeof_iface_state))"
  by (rule parseFrame_runs [OF assms, of w]) blast

theorem parse_frame_refines_map_witness:
  "\<exists>states' w'. parseFrame demo_port (Some (demo_frame 0 0 (be16 5))) 3 ([fresh_state 4], world0) =
     Some (states', w') \<and>
     ((\<exists>st'. iface_map states' = (iface_map [fresh_state 4])(3 \<mapsto> st')) \<or>
      (states' = [fresh_state 4] \<and> iface_map [fresh_state 4] 3 = None \<and>
       \<not> p_malloc demo_port (w_mallocs world0) sizeof_iface_state))"
  by (rule parse_frame_refines_map) (simp_all add: states_ok_def demo_frame_complete)

section \<open>Discover and Hello\<close>

lemma get_slot_hello_state:
  "get_slot (mapper_generation_for_tos (tos h)) st = gen \<Longrightarrow>
   get_slot (mapper_generation_for_tos (tos h)) (hello_state le h gen st) = gen"
  by (simp add: hello_state_def Let_def)

lemma hello_state_known:
  "mapper_known (set_slot s g (set_active_mapper r e st)) \<noteq> 0"
  "mapper_known st \<noteq> 0 \<Longrightarrow> mapper_known (hello_state le h gen st) = mapper_known st"
  "mapper_known st \<noteq> 0 \<Longrightarrow> mapper_real (hello_state le h gen st) = mapper_real st"
  by (auto simp: hello_state_def Let_def set_active_mapper_def)

lemma mapper_matches_active:
  "mapper_matches st r \<Longrightarrow> mapper_real (set_slot s g (set_active_mapper r e st)) = r"
  by (auto simp: mapper_matches_def set_active_mapper_def)

lemma mapper_matches_active2:
  "mapper_matches st r \<Longrightarrow> mapper_matches (set_slot s g (set_active_mapper r e st)) r"
  by (auto simp: mapper_matches_def set_active_mapper_def)

text \<open>
  C4.  A topology or quick Discover from the mapper the interface is bound to, or from any
  mapper when it is unbound, is answered by one Hello broadcast, after a pause of 10 ms for
  topology discovery, when the interface has a state and the buffer is allocated; the Hello carries the generation of that very Discover, and the
  interface is now bound to the sender with that generation stored for the service.
\<close>

theorem discover_answered:
  fixes h :: lltd_demultiplex_header_t
  assumes "states_ok states" "frame_complete P ctx f"
    and h: "load_demux_header (p_little_endian P) f = Some h" "opcode h = opcode_discover"
    and service: "tos h = tos_discovery \<or> tos h = tos_quick_discovery"
    and raw: "load_u16 (p_little_endian P) f 32 = Some raw"
    and st: "iface_map states ctx = Some st" "mapper_matches st (realSource h)"
    and mem: "p_malloc P (w_mallocs w) (port_mtu P ctx)"
  shows "\<exists>states' w' st' rc. parseFrame P (Some f) ctx (states, w) = Some (states', w') \<and>
    w_events w' = w_events w @ (if tos h = tos_discovery then [SleepMs 10] else []) @
      [SendFrame ctx (hello_bytes P ctx h (lltd_ntohs (p_little_endian P) raw)) rc] \<and>
    iface_map states' = (iface_map states)(ctx \<mapsto> st') \<and>
    mapper_known st' \<noteq> 0 \<and> mapper_real st' = realSource h \<and>
    get_slot (mapper_generation_for_tos (tos h)) st' = lltd_ntohs (p_little_endian P) raw"
proof -
  let ?gen = "lltd_ntohs (p_little_endian P) raw" and ?slot = "mapper_generation_for_tos (tos h)"
  let ?st1 = "set_slot ?slot ?gen (set_active_mapper (realSource h) (source (frameHeader h)) st)"
  let ?st2 = "hello_state (p_little_endian P) h ?gen ?st1"
  let ?fr = "hello_bytes P ctx h ?gen"
  define w1 where "w1 = (if tos h = tos_discovery then lltd_port_sleep_ms 10 w else w)"
  have w1: "w_mallocs w1 = w_mallocs w" "w_events w1 = w_events w @
      (if tos h = tos_discovery then [SleepMs 10] else [])"
    by (simp_all add: w1_def world_simps)
  have port: "lltd_port_contract P" "hello_room \<le> port_mtu P ctx"
    using assms(2) by (simp_all add: frame_complete_def usable_port_def lltd_port_heap_def)
  have slot: "get_slot ?slot ?st2 = ?gen" by (simp add: get_slot_hello_state)
  have ans: "\<exists>w'. answerHello P f ctx (?st1, w1) = Some (?st2, w') \<and>
      w_events w' = w_events w1 @ [SendFrame ctx ?fr (p_send P (length (w_events w1)) ctx ?fr)]"
    using mem w1(1) slot
    by (cases rule: answerHello_runs [OF port h(1) raw, where st = ?st1 and w = w1]) auto
  have "frame_step P f ctx (st, w) = answerHello P f ctx (?st1, w1)"
    using h service st(2) mapper_matches_active2 [OF st(2)]
    by (auto simp: frame_step_def frame_prologue_discover [OF h(2) raw] frame_dispatch_def w1_def)
  then obtain w' where step: "frame_step P f ctx (st, w) = Some (?st2, w')"
    "w_events w' = w_events w1 @ [SendFrame ctx ?fr (p_send P (length (w_events w1)) ctx ?fr)]"
    using ans by auto
  obtain states' where "parseFrame P (Some f) ctx (states, w) = Some (states', w')"
    "iface_map states' = (iface_map states)(ctx \<mapsto> ?st2)"
    by (rule parseFrame_known [OF assms(1) st(1) step(1)])
      (use iface_map_Some_iff [OF assms(1)] st(1) in auto)
  with step(2) slot w1 hello_state_known(2,3) [OF hello_state_known(1)]
    mapper_matches_active [OF st(2)] show ?thesis
    by (intro exI [of _ states'] exI [of _ w'] exI [of _ ?st2]) (auto simp: hello_state_known)
qed

theorem discover_answered_witness:
  "\<exists>states' w' st' rc.
     parseFrame demo_port (Some (demo_frame 1 0 (be16 9))) 3 ([fresh_state 3], world0) =
       Some (states', w') \<and>
     w_events w' = w_events world0 @ (if tos (demo_header 1 0) = tos_discovery then [SleepMs 10] else []) @
       [SendFrame 3 (hello_bytes demo_port 3 (demo_header 1 0)
          (lltd_ntohs (p_little_endian demo_port) (u16_of_mem True (be16 9)))) rc] \<and>
     iface_map states' = (iface_map [fresh_state 3])(3 \<mapsto> st') \<and>
     mapper_known st' \<noteq> 0 \<and> mapper_real st' = realSource (demo_header 1 0) \<and>
     get_slot (mapper_generation_for_tos (tos (demo_header 1 0))) st' =
       lltd_ntohs (p_little_endian demo_port) (u16_of_mem True (be16 9))"
  by (rule discover_answered [where st = "fresh_state 3"])
    (simp_all add: states_ok_def demo_frame_complete demo_header demo_body_u16 [where rest = "[]", simplified]
      iface_map_def, simp add: mapper_matches_def fresh_state_def)

text \<open>
  C5.  A Discover from a second mapper, while the interface is bound to another one, is
  ignored: nothing is sent and the state of the interface stays as it is.
\<close>

theorem foreign_discover_ignored:
  fixes h :: lltd_demultiplex_header_t
  assumes "states_ok states"
    and h: "load_demux_header (p_little_endian P) f = Some h" "opcode h = opcode_discover"
    and len: "34 \<le> length f"
    and st: "iface_map states ctx = Some st" "mapper_known st \<noteq> 0" "mapper_real st \<noteq> realSource h"
  shows "\<exists>states'. parseFrame P (Some f) ctx (states, w) = Some (states', w) \<and>
    iface_map states' = iface_map states"
proof -
  obtain raw where raw: "load_u16 (p_little_endian P) f 32 = Some raw"
    by (rule load_u16_in [of 32 f]) (use len in auto)
  have "frame_step P f ctx (st, w) = Some (st, w)"
    using h st by (simp add: frame_step_def frame_prologue_discover [OF h(2) raw] mapper_matches_def)
  then obtain states' where "parseFrame P (Some f) ctx (states, w) = Some (states', w)"
    "iface_map states' = (iface_map states)(ctx \<mapsto> st)"
    by (rule parseFrame_known [OF assms(1) st(1)]) (use iface_map_Some_iff [OF assms(1)] st(1) in auto)
  with st(1) show ?thesis by (auto simp: fun_upd_idem)
qed

theorem foreign_discover_ignored_witness:
  "\<exists>states'. parseFrame demo_port (Some (demo_frame 0 0 (be16 9))) 3
     ([(fresh_state 3)\<lparr>mapper_known := 1\<rparr>], world0) = Some (states', world0) \<and>
     iface_map states' = iface_map [(fresh_state 3)\<lparr>mapper_known := 1\<rparr>]"
  by (rule foreign_discover_ignored [where h = "demo_header 0 0" and
        st = "(fresh_state 3)\<lparr>mapper_known := 1\<rparr>"])
    (simp_all add: states_ok_def state_ok_def demo_header iface_map_def fresh_state_def
      demo_mapper_def zero_mac_def)

text \<open>
  C6.  A topology Reset unbinds the mapper, sets both generations and the sequence number
  back to zero, and forgets and frees the probes and the cached icon; a quick Reset unbinds
  the mapper and sets the quick generation to zero, and leaves every other field of the
  state (the sequence number, the topology generation, the probes, the icon) as it is.
  Neither sends anything, and after either a Discover of any mapper is accepted.
\<close>

theorem reset_unbinds:
  fixes h :: lltd_demultiplex_header_t
  assumes "states_ok states"
    and h: "load_demux_header (p_little_endian P) f = Some h" "opcode h = opcode_reset"
    and service: "tos h = tos_discovery \<or> tos h = tos_quick_discovery"
    and st: "iface_map states ctx = Some st"
  shows "\<exists>states' w' st'. parseFrame P (Some f) ctx (states, w) = Some (states', w') \<and>
    iface_map states' = (iface_map states)(ctx \<mapsto> st') \<and> w_events w' = w_events w \<and>
    st' = (if tos h = tos_discovery
      then st\<lparr>see_list := [], see_list_count := 0, mapper_known := 0, mapper_seq := 0,
             mapper_gen_topology := 0, mapper_gen_quick := 0, small_icon := None,
             small_icon_size := 0\<rparr>
      else st\<lparr>mapper_known := 0, mapper_gen_quick := 0\<rparr>) \<and>
    w_live w' = w_live w - (if tos h = tos_discovery
      then int (length (see_list st)) + (if small_icon st = None then 0 else 1) else 0) \<and>
    mapper_matches st' r"
proof -
  have pro: "frame_prologue P f h st = Some (True, st)"
    by (rule frame_prologue_other) (use h in auto)
  let ?st = "if tos h = tos_discovery
    then st\<lparr>see_list := [], see_list_count := 0, mapper_known := 0, mapper_seq := 0,
           mapper_gen_topology := 0, mapper_gen_quick := 0, small_icon := None,
           small_icon_size := 0\<rparr>
    else st\<lparr>mapper_known := 0, mapper_gen_quick := 0\<rparr>"
  obtain w' where step: "frame_step P f ctx (st, w) = Some (?st, w')" "w_events w' = w_events w"
    "w_live w' = w_live w - (if tos h = tos_discovery
      then int (length (see_list st)) + (if small_icon st = None then 0 else 1) else 0)"
    using h pro service that
    by (auto simp: frame_step_def frame_dispatch_def lltd_state_clear_seen_probes_def
        lltd_state_clear_icon_cache_def world_simps Let_def split: if_splits)
  have "iface_ctx ?st = ctx" using iface_map_Some_iff [OF assms(1)] st by auto
  then obtain states' where "parseFrame P (Some f) ctx (states, w) = Some (states', w')"
    "iface_map states' = (iface_map states)(ctx \<mapsto> ?st)"
    by (rule parseFrame_known [OF assms(1) st step(1)])
  with step show ?thesis
    by (intro exI [of _ states'] exI [of _ w'] exI [of _ ?st]) (auto simp: mapper_matches_def)
qed

theorem reset_unbinds_witness:
  "\<exists>states' w' st'. parseFrame demo_port (Some (demo_frame 1 8 [])) 3
       ([(fresh_state 3)\<lparr>mapper_known := 1, mapper_seq := 5\<rparr>], world0) = Some (states', w') \<and>
     iface_map states' =
       (iface_map [(fresh_state 3)\<lparr>mapper_known := 1, mapper_seq := 5\<rparr>])(3 \<mapsto> st') \<and>
     w_events w' = w_events world0 \<and>
     st' = (if tos (demo_header 1 8) = tos_discovery
       then (fresh_state 3)\<lparr>mapper_known := 1, mapper_seq := 5, see_list := [],
              see_list_count := 0, mapper_known := 0, mapper_seq := 0, mapper_gen_topology := 0,
              mapper_gen_quick := 0, small_icon := None, small_icon_size := 0\<rparr>
       else (fresh_state 3)\<lparr>mapper_known := 1, mapper_seq := 5, mapper_known := 0,
              mapper_gen_quick := 0\<rparr>) \<and>
     w_live w' = w_live world0 - (if tos (demo_header 1 8) = tos_discovery
       then int (length (see_list ((fresh_state 3)\<lparr>mapper_known := 1, mapper_seq := 5\<rparr>))) +
         (if small_icon ((fresh_state 3)\<lparr>mapper_known := 1, mapper_seq := 5\<rparr>) = None
          then 0 else 1) else 0) \<and>
     mapper_matches st' demo_mapper"
  by (rule reset_unbinds)
    (simp_all add: states_ok_def state_ok_def demo_header iface_map_def fresh_state_def)

text \<open>
  C7.  The Hello that answers a Discover reads back.  The frame handed to the driver is a
  broadcast from the interface whose base header announces a Hello of the service the
  Discover came with; its upper header carries the generation recorded for that service
  (the one of the Discover when none was recorded), then the mapper's real address and its
  apparent address, and the chain of TLVs parses into exactly the properties of the port,
  in their order.  The MTU has room for the Hello and its buffer is allocated.
\<close>

theorem hello_reads_back:
  fixes h :: lltd_demultiplex_header_t
  assumes port: "lltd_port_contract P" "hello_room \<le> port_mtu P ctx"
    and h: "load_demux_header (p_little_endian P) f = Some h"
    and raw: "load_u16 (p_little_endian P) f 32 = Some raw"
    and mem: "p_malloc P (w_mallocs w) (port_mtu P ctx)"
  shows "\<exists>st' w' fr rc hd. answerHello P f ctx (st, w) = Some (st', w') \<and>
    w_events w' = w_events w @ [SendFrame ctx fr rc] \<and> w_live w' = w_live w \<and>
    load_demux_header (p_little_endian P) fr = Some hd \<and>
    destination (frameHeader hd) = EthernetBroadcast \<and>
    source (frameHeader hd) = port_mac P ctx \<and> realDestination hd = EthernetBroadcast \<and>
    realSource hd = port_mac P ctx \<and> opcode hd = opcode_hello \<and> tos hd = tos h \<and>
    map_option (lltd_ntohs (p_little_endian P)) (load_u16 (p_little_endian P) fr 32) =
      Some (let old = get_slot (mapper_generation_for_tos (tos h)) st
            in if old = 0 then lltd_ntohs (p_little_endian P) raw else old) \<and>
    load_mac fr 34 = Some (realSource h) \<and> load_mac fr 40 = Some (source (frameHeader h)) \<and>
    parse_tlvs (drop 46 fr) = Some (hello_properties P ctx)"
proof -
  let ?le = "p_little_endian P"
  let ?slot = "mapper_generation_for_tos (tos h)"
  let ?st = "hello_state ?le h (lltd_ntohs ?le raw) st"
  let ?fr = "hello_bytes P ctx h (get_slot ?slot ?st)"
  have gen: "get_slot ?slot ?st =
      (let old = get_slot ?slot st in if old = 0 then lltd_ntohs ?le raw else old)"
    by (auto simp: hello_state_def Let_def)
  obtain w' where "answerHello P f ctx (st, w) = Some (?st, w')" "w_live w' = w_live w"
    "w_events w' = w_events w @ [SendFrame ctx ?fr (p_send P (length (w_events w)) ctx ?fr)]"
    by (cases rule: answerHello_runs [OF port h raw, where st = st and w = w]) (use mem in auto)
  moreover have "parse_tlvs (drop 46 ?fr) = Some (hello_properties P ctx)"
    "map_option (lltd_ntohs ?le) (load_u16 ?le ?fr 32) = Some (get_slot ?slot ?st)"
    "load_mac ?fr 34 = Some (realSource h)" "load_mac ?fr 40 = Some (source (frameHeader h))"
    using lltd_port_contract.parse_hello_tlvs [OF port(1), of ctx]
    by (simp_all add: hello_bytes_def load_u16_skip load_u16_here load_mac_skip load_mac_here
        ntohs_mem)
  ultimately show ?thesis unfolding gen by (auto simp: hello_bytes_def load_demux_bytes)
qed

theorem hello_reads_back_witness:
  "\<exists>st' w' fr rc hd. answerHello demo_port (demo_frame 1 0 (be16 9)) 3 (fresh_state 3, world0) =
      Some (st', w') \<and>
    w_events w' = w_events world0 @ [SendFrame 3 fr rc] \<and> w_live w' = w_live world0 \<and>
    load_demux_header (p_little_endian demo_port) fr = Some hd \<and>
    destination (frameHeader hd) = EthernetBroadcast \<and>
    source (frameHeader hd) = port_mac demo_port 3 \<and> realDestination hd = EthernetBroadcast \<and>
    realSource hd = port_mac demo_port 3 \<and> opcode hd = opcode_hello \<and>
    tos hd = tos (demo_header 1 0) \<and>
    map_option (lltd_ntohs (p_little_endian demo_port))
        (load_u16 (p_little_endian demo_port) fr 32) =
      Some (let old = get_slot (mapper_generation_for_tos (tos (demo_header 1 0))) (fresh_state 3)
            in if old = 0
               then lltd_ntohs (p_little_endian demo_port) (u16_of_mem True (be16 9)) else old) \<and>
    load_mac fr 34 = Some (realSource (demo_header 1 0)) \<and>
    load_mac fr 40 = Some (source (frameHeader (demo_header 1 0))) \<and>
    parse_tlvs (drop 46 fr) = Some (hello_properties demo_port 3)"
  by (rule hello_reads_back)
    (simp_all add: demo_header demo_body_u16 [where rest = "[]", simplified])

section \<open>Emit\<close>

abbreviation known_emitee :: "emitee_descs \<Rightarrow> bool" where
  "known_emitee e \<equiv> emitee_type e = 0 \<or> emitee_type e = 1"

lemma emit_trace_healthy:
  assumes "\<And>i n. p_malloc P i n" "\<And>i c f. 0 \<le> p_send P i c f"
  shows "sent_frames (emit_trace P ctx st es m n) =
    map (probe_frame P ctx st) (filter known_emitee es) @
    (if es \<noteq> [] \<and> known_emitee (last es) then [ack_frame P ctx st] else [])"
  using assms
  by (induction es arbitrary: m n) (auto simp: emitee_events_def Let_def not_less [symmetric])

lemma parseEmit_runs:
  fixes st :: lltd_iface_state
  assumes h: "load_demux_header (p_little_endian P) f = Some h"
    and body: "drop 32 f = emit_body es @ rest" "14 * length es \<le> 65536"
  defines "st' \<equiv> set_active_mapper (realSource h) (source (frameHeader h))
    (st\<lparr>mapper_seq := lltd_ntohs (p_little_endian P) (seqNumber h)\<rparr>)"
  obtains w' where "parseEmit P f ctx (st, w) = Some (st', w')" "w_live w' = w_live w"
    "w_events w' = w_events w @ emit_trace P ctx st' es (w_mallocs w) (length (w_events w))"
proof -
  let ?le = "p_little_endian P"
  have len: "32 \<le> length f" using h load_demux_header_Some_iff by blast
  have raw: "load_u16 ?le f 32 = Some (u16_of_mem ?le (be16 (of_nat (length es))))"
    using load_u16_drop [OF len, of ?le 0] body(1) by (simp add: emit_body_def load_u16_here)
  have "drop 34 f = drop 2 (drop 32 f)" by simp
  also have "\<dots> = concat (map emitee_bytes es) @ rest" by (simp add: body emit_body_def)
  finally obtain w' where "emit_loop P f ctx st' (length es) 0 w = Some w'"
    "w_live w' = w_live w"
    "w_events w' = w_events w @ emit_trace P ctx st' es (w_mallocs w) (length (w_events w))"
    using emit_loop_runs [of 0 f es rest P ctx st' w] body(2) by auto
  moreover have "unat (of_nat (length es) :: u16) = length es"
    by (rule unat_of_nat_small) (use body(2) in simp)
  ultimately show ?thesis using h raw
    by (intro that [of w']) (simp_all add: parseEmit_def ntohs_mem st'_def)
qed

text \<open>
  An Emit frame makes the interface pause and send one Probe or Train frame per
  descriptor, in the order of the frame; what happens when an allocation or a transmission
  fails is part of the trace \<open>emit_trace\<close>.  The interface answers with the sequence number
  of this frame from now on, binds an unbound mapper, and leaks no memory.
\<close>

theorem emit_follows_descriptors:
  fixes h :: lltd_demultiplex_header_t
  assumes "states_ok states"
    and h: "load_demux_header (p_little_endian P) f = Some h" "opcode h = opcode_emit"
      "tos h = tos_discovery"
    and body: "drop 32 f = emit_body es @ rest" "14 * length es \<le> 65536"
    and st: "iface_map states ctx = Some st"
  shows "\<exists>states' w' st'. parseFrame P (Some f) ctx (states, w) = Some (states', w') \<and>
    iface_map states' = (iface_map states)(ctx \<mapsto> st') \<and> w_live w' = w_live w \<and>
    w_events w' = w_events w @ emit_trace P ctx st' es (w_mallocs w) (length (w_events w)) \<and>
    st' = set_active_mapper (realSource h) (source (frameHeader h))
      (st\<lparr>mapper_seq := lltd_ntohs (p_little_endian P) (seqNumber h)\<rparr>)"
proof -
  let ?st = "set_active_mapper (realSource h) (source (frameHeader h))
    (st\<lparr>mapper_seq := lltd_ntohs (p_little_endian P) (seqNumber h)\<rparr>)"
  obtain w' where w': "parseEmit P f ctx (st, w) = Some (?st, w')" "w_live w' = w_live w"
    "w_events w' = w_events w @ emit_trace P ctx ?st es (w_mallocs w) (length (w_events w))"
    by (rule parseEmit_runs [OF h(1) body])
  have "frame_prologue P f h st = Some (True, st)"
    by (rule frame_prologue_other) (use h in auto)
  then have step: "frame_step P f ctx (st, w) = Some (?st, w')"
    using h w'(1) by (simp add: frame_step_def frame_dispatch_def)
  have "iface_ctx ?st = ctx" using iface_map_Some_iff [OF assms(1)] st by simp
  then obtain states' where "parseFrame P (Some f) ctx (states, w) = Some (states', w')"
    "iface_map states' = (iface_map states)(ctx \<mapsto> ?st)"
    by (rule parseFrame_known [OF assms(1) st step])
  with w' show ?thesis by blast
qed

definition demo_emitees :: "emitee_descs list" where
  "demo_emitees =
     [\<lparr>emitee_type = 1, emitee_pause = 5, emitee_source = demo_mapper, emitee_dest = zero_mac\<rparr>,
      \<lparr>emitee_type = 0, emitee_pause = 0, emitee_source = zero_mac, emitee_dest = demo_mapper\<rparr>]"

theorem emit_follows_descriptors_witness:
  "\<exists>states' w' st'.
     parseFrame demo_port (Some (demo_frame 0 2 (emit_body demo_emitees))) 3
       ([fresh_state 3], world0) = Some (states', w') \<and>
     iface_map states' = (iface_map [fresh_state 3])(3 \<mapsto> st') \<and> w_live w' = w_live world0 \<and>
     w_events w' = w_events world0 @
       emit_trace demo_port 3 st' demo_emitees (w_mallocs world0) (length (w_events world0)) \<and>
     st' = set_active_mapper (realSource (demo_header 0 2)) (source (frameHeader (demo_header 0 2)))
       ((fresh_state 3)\<lparr>mapper_seq :=
          lltd_ntohs (p_little_endian demo_port) (seqNumber (demo_header 0 2))\<rparr>)"
  by (rule emit_follows_descriptors [where rest = "[]"])
    (simp_all add: states_ok_def demo_header iface_map_def demo_emitees_def)

text \<open>
  C8.  When memory and the link do not fail, an Emit frame puts exactly these frames on the
  wire: a Probe or Train for every descriptor of a known type, in order, and one final ACK;
  the ACK is missing precisely when the last descriptor is of an unknown type or there is
  none.
\<close>

theorem emit_sends_and_acks:
  fixes h :: lltd_demultiplex_header_t
  assumes h: "load_demux_header (p_little_endian P) f = Some h"
    and body: "drop 32 f = emit_body es @ rest" "14 * length es \<le> 65536"
    and healthy: "\<And>i n. p_malloc P i n" "\<And>i c f. 0 \<le> p_send P i c f"
  shows "\<exists>st' w'. parseEmit P f ctx (st, w) = Some (st', w') \<and>
    sent_frames (w_events w') = sent_frames (w_events w) @
      map (probe_frame P ctx st') (filter known_emitee es) @
      (if es \<noteq> [] \<and> known_emitee (last es) then [ack_frame P ctx st'] else [])"
  by (rule parseEmit_runs [OF h body, of ctx st w])
    (auto simp: emit_trace_healthy [OF healthy])

theorem emit_sends_and_acks_witness:
  "\<exists>st' w'. parseEmit demo_port (demo_frame 0 2 (emit_body demo_emitees)) 3
       (fresh_state 3, world0) = Some (st', w') \<and>
     sent_frames (w_events w') = sent_frames (w_events world0) @
       map (probe_frame demo_port 3 st') (filter known_emitee demo_emitees) @
       (if demo_emitees \<noteq> [] \<and> known_emitee (last demo_emitees)
        then [ack_frame demo_port 3 st'] else [])"
  by (rule emit_sends_and_acks [where rest = "[]"])
    (simp_all add: demo_header demo_emitees_def)

section \<open>Probe and Query\<close>

text \<open>
  C9.  A Probe or Train frame that is addressed to the interface is recorded once: it is
  put in front of the list unless a probe with the same Ethernet source and real source is
  there; nothing is sent, and a frame for another station changes nothing at all.
\<close>

theorem probe_recorded_once:
  fixes h :: lltd_demultiplex_header_t
  assumes "states_ok states"
    and h: "load_demux_header (p_little_endian P) f = Some h"
      "opcode h = opcode_probe \<or> opcode h = opcode_train" "tos h = tos_discovery"
    and st: "iface_map states ctx = Some st"
    and mem: "p_malloc P (w_mallocs w) sizeof_probe_t"
  defines "p \<equiv> received_probe (p_little_endian P) h"
  shows "\<exists>states' w' st'. parseFrame P (Some f) ctx (states, w) = Some (states', w') \<and>
    iface_map states' = (iface_map states)(ctx \<mapsto> st') \<and> w_events w' = w_events w \<and>
    st' = (if realDestination h = port_mac P ctx \<and> probe_key p \<notin> probe_key ` set (see_list st)
      then st\<lparr>see_list := p # see_list st, see_list_count := see_list_count st + 1\<rparr> else st)"
proof -
  let ?st = "if realDestination h = port_mac P ctx \<and> probe_key p \<notin> probe_key ` set (see_list st)
      then st\<lparr>see_list := p # see_list st, see_list_count := see_list_count st + 1\<rparr> else st"
  have "\<exists>w'. parseProbe P f ctx (st, w) = Some (?st, w') \<and> w_events w' = w_events w"
    using h(1)
  proof (cases rule: parseProbe_cases [where ctx = ctx and st = st and w = w, case_names other ours])
    case (ours w1)
    have "w_events w1 = w_events w" using malloc_world(4) [of P 28 w] ours(2) by simp
    with ours mem show ?thesis by (auto simp: p_def world_simps)
  qed auto
  then obtain w' where w': "parseProbe P f ctx (st, w) = Some (?st, w')" "w_events w' = w_events w"
    by blast
  have "frame_prologue P f h st = Some (True, st)"
    by (rule frame_prologue_other) (use h in auto)
  then have step: "frame_step P f ctx (st, w) = Some (?st, w')"
    using h w'(1) by (auto simp: frame_step_def frame_dispatch_def)
  have "iface_ctx ?st = ctx" using iface_map_Some_iff [OF assms(1)] st by simp
  then obtain states' where "parseFrame P (Some f) ctx (states, w) = Some (states', w')"
    "iface_map states' = (iface_map states)(ctx \<mapsto> ?st)"
    by (rule parseFrame_known [OF assms(1) st step])
  with w'(2) show ?thesis by blast
qed

theorem probe_recorded_once_witness:
  "\<exists>states' w' st'. parseFrame demo_port (Some (demo_frame 0 4 [])) 3 ([fresh_state 3], world0) =
       Some (states', w') \<and>
     iface_map states' = (iface_map [fresh_state 3])(3 \<mapsto> st') \<and> w_events w' = w_events world0 \<and>
     st' = (if realDestination (demo_header 0 4) = port_mac demo_port 3 \<and>
         probe_key (received_probe (p_little_endian demo_port) (demo_header 0 4))
           \<notin> probe_key ` set (see_list (fresh_state 3))
       then (fresh_state 3)\<lparr>see_list :=
           received_probe (p_little_endian demo_port) (demo_header 0 4) # see_list (fresh_state 3),
         see_list_count := see_list_count (fresh_state 3) + 1\<rparr>
       else fresh_state 3)"
  by (rule probe_recorded_once) (simp_all add: states_ok_def demo_header iface_map_def)

lemma query_reported_min:
  assumes "state_ok st" "length (see_list st) < 65536" "query_max_descs (port_mtu P ctx) < 65536"
  shows "query_reported P ctx st = min (length (see_list st)) (query_max_descs (port_mtu P ctx))"
proof -
  have "unat (see_list_count st) = length (see_list st)"
    using assms(1,2) by (simp add: state_ok_def unat_of_nat)
  with assms show ?thesis
    by (auto simp: query_reported_def query_num_descs_def unat_of_nat unat_ucast_mod)
qed

text \<open>
  C10.  A Query is answered by one QueryResp to the mapper (or to everyone, when the mapper
  is behind a bridge) that carries the sequence number of the Query, the number of
  descriptors and the newest probes, as many as fit into the MTU; the frame respects the
  MTU, and all probes, also the ones left out, are then forgotten and freed.
\<close>

theorem query_reports_probes:
  fixes h :: lltd_demultiplex_header_t
  assumes ok: "states_ok states"
    and h: "load_demux_header (p_little_endian P) f = Some h" "opcode h = opcode_query"
      "tos h = tos_discovery"
    and st: "iface_map states ctx = Some st"
    and mtu: "34 \<le> port_mtu P ctx" "port_mtu P ctx < 65536" "length (see_list st) < 65536"
    and mem: "p_malloc P (w_mallocs w) (port_mtu P ctx)"
  shows "\<exists>states' w' st' n rc. parseFrame P (Some f) ctx (states, w) = Some (states', w') \<and>
    iface_map states' = (iface_map states)(ctx \<mapsto> st') \<and>
    n = min (length (see_list st)) ((port_mtu P ctx - 34) div 20) \<and>
    w_events w' = w_events w @ [SendFrame ctx
      (demux_bytes (query_dest h) (port_mac P ctx) lltdEtherType 1 tos_discovery 0 opcode_queryResp
         (query_dest h) (port_mac P ctx) (lltd_ntohs (p_little_endian P) (seqNumber h)) @
       be16 (of_nat n) @
       concat (map (probe_wire (p_little_endian P)) (take n (see_list st)))) rc] \<and>
    34 + 20 * n \<le> port_mtu P ctx \<and>
    see_list st' = [] \<and> see_list_count st' = 0 \<and> mapper_known st' = 1 \<and>
    mapper_real st' = realSource h \<and> w_live w' = w_live w - int (length (see_list st))"
proof -
  have st_ok: "state_ok st" "iface_ctx st = ctx"
    using iface_map_Some_iff [OF ok] st ok by (auto simp: states_ok_def)
  let ?n = "min (length (see_list st)) ((port_mtu P ctx - 34) div 20)"
  have "query_max_descs (port_mtu P ctx) = (port_mtu P ctx - 34) div 20"
    using mtu(1) by (auto simp: query_max_descs_def)
  moreover have "(port_mtu P ctx - 34) div 20 < 65536" using mtu by linarith
  ultimately have n: "query_reported P ctx st = ?n"
    using query_reported_min [OF st_ok(1) mtu(3)] by simp
  obtain st' w' where q: "parseQuery P f ctx (st, w) = Some (st', w')"
    "see_list st' = []" "see_list_count st' = 0" "mapper_known st' = 1" "iface_ctx st' = ctx"
    "mapper_real st' = realSource h" "w_live w' = w_live w - int (length (see_list st))"
    "w_events w' = w_events w @ [SendFrame ctx (query_resp_bytes P ctx h st)
       (p_send P (length (w_events w)) ctx (query_resp_bytes P ctx h st))]"
    using mem st_ok(2)
    by (cases rule: parseQuery_runs [OF h(1) mtu(1), where st = st and w = w]) auto
  have "frame_prologue P f h st = Some (True, st)"
    by (rule frame_prologue_other) (use h in auto)
  then have step: "frame_step P f ctx (st, w) = Some (st', w')"
    using h q(1) by (simp add: frame_step_def frame_dispatch_def)
  obtain states' where "parseFrame P (Some f) ctx (states, w) = Some (states', w')"
    "iface_map states' = (iface_map states)(ctx \<mapsto> st')"
    by (rule parseFrame_known [OF ok st step q(5)])
  moreover have "20 * ?n \<le> 20 * ((port_mtu P ctx - 34) div 20)" by simp
  then have "20 * ?n \<le> port_mtu P ctx - 34"
    using times_div_less_eq_dividend [of 20 "port_mtu P ctx - 34"] by linarith
  then have "34 + 20 * ?n \<le> port_mtu P ctx" using mtu(1) by linarith
  ultimately show ?thesis using q by (auto simp: query_resp_bytes_def n)
qed

theorem query_reports_probes_witness:
  "\<exists>states' w' st' n rc. parseFrame demo_port (Some (demo_frame 0 6 [])) 3
       ([fresh_state 3], world0) = Some (states', w') \<and>
    iface_map states' = (iface_map [fresh_state 3])(3 \<mapsto> st') \<and>
    n = min (length (see_list (fresh_state 3))) ((port_mtu demo_port 3 - 34) div 20) \<and>
    w_events w' = w_events world0 @ [SendFrame 3
      (demux_bytes (query_dest (demo_header 0 6)) (port_mac demo_port 3) lltdEtherType 1
         tos_discovery 0 opcode_queryResp (query_dest (demo_header 0 6)) (port_mac demo_port 3)
         (lltd_ntohs (p_little_endian demo_port) (seqNumber (demo_header 0 6))) @
       be16 (of_nat n) @
       concat (map (probe_wire (p_little_endian demo_port)) (take n (see_list (fresh_state 3))))) rc] \<and>
    34 + 20 * n \<le> port_mtu demo_port 3 \<and>
    see_list st' = [] \<and> see_list_count st' = 0 \<and> mapper_known st' = 1 \<and>
    mapper_real st' = realSource (demo_header 0 6) \<and>
    w_live w' = w_live world0 - int (length (see_list (fresh_state 3)))"
  by (rule query_reports_probes)
    (simp_all add: states_ok_def demo_header iface_map_def, simp_all add: fresh_state_def)

section \<open>Large properties\<close>

text \<open>
  What the mapper should read for each type, independent of the code's own selection: the
  text of a UCS-2 field up to its terminator, and the object a getter hands over.
\<close>

fun ucs2_text :: "u8 list \<Rightarrow> u8 list" where
  "ucs2_text (a # b # rest) = (if a = 0 \<and> b = 0 then [] else a # b # ucs2_text rest)"
| "ucs2_text _ = []"

fun handed_object :: "(int \<times> u8 list option \<times> nat) \<times> world \<Rightarrow> u8 list" where
  "handed_object ((rc, Some d, n), w) = take n d"
| "handed_object ((rc, None, n), w) = []"

lemma hw_id_scan_text:
  "hw_id_scan d i k = Some n \<Longrightarrow> length d = i + 2 * k \<Longrightarrow> length d = 64 \<Longrightarrow>
   i \<le> n \<and> n \<le> 64 \<and> take (n - i) (drop i d) = ucs2_text (drop i d)"
proof (induction k arbitrary: i)
  case (Suc k)
  have d: "drop i d = d ! i # d ! Suc i # drop (Suc (Suc i)) d"
    using Suc.prems(2) by (simp add: Cons_nth_drop_Suc)
  have at: "load_u8 d i = Some (d ! i)" "load_u8 d (Suc i) = Some (d ! Suc i)"
    using Suc.prems(2) by (simp_all add: load_u8_def)
  show ?case
  proof (cases "d ! i = 0 \<and> d ! Suc i = 0")
    case True
    then have "ucs2_text (drop i d) = []" by (simp add: d)
    then show ?thesis using True Suc.prems at by simp
  next
    case False
    then have "hw_id_scan d (i + 2) k = Some n" using Suc.prems(1) at by (auto split: if_splits)
    from Suc.IH [OF this] Suc.prems have n: "Suc (Suc i) \<le> n" "n \<le> 64"
      "take (n - Suc (Suc i)) (drop (Suc (Suc i)) d) = ucs2_text (drop (Suc (Suc i)) d)"
      by simp_all
    from n(1) have "n - i = Suc (Suc (n - Suc (Suc i)))" by simp
    then show ?thesis using False n by (simp add: d)
  qed
qed simp

text \<open>The length word and the payload of a response, for an object that is there.\<close>

lemma large_tlv_chunk_object:
  assumes "case data of None \<Rightarrow> True | Some d \<Rightarrow> n \<le> length d"
  defines "obj \<equiv> case data of None \<Rightarrow> [] | Some d \<Rightarrow> take n d"
  shows "large_tlv_chunk m data n off =
    (of_nat (length (take (unat m) (drop (unat off) obj))) OR
       (if unat off + unat m < length obj then 0x8000 else 0),
     take (unat m) (drop (unat off) obj))"
proof (cases data)
  case (Some d)
  let ?o = "unat off" and ?m = "unat m"
  have len: "length obj = n" "n \<le> length d" and obj: "obj = take n d"
    using assms(1) Some by (simp_all add: obj_def)
  consider (more) "?o + ?m < n" | (last) "?o < n" "n \<le> ?o + ?m" | (none) "n \<le> ?o" by linarith
  then show ?thesis
  proof cases
    case more
    then have "length (take ?m (drop ?o obj)) = ?m" "take ?m (drop ?o obj) = take ?m (drop ?o d)"
      using len more by (auto simp: obj drop_take min_def)
    with more Some len show ?thesis by (simp add: large_tlv_chunk_def large_tlv_length_def)
  next
    case last
    have "?m < 2 ^ LENGTH(16)" by (rule unsigned_less)
    with last(2) have "n - ?o < 2 ^ LENGTH(16)" by simp
    then have u: "unat (of_nat (n - ?o) :: u16) = n - ?o" by (rule unat_of_nat_small)
    have "take ?m (drop ?o obj) = take (n - ?o) (drop ?o d)"
      using last by (simp add: obj drop_take min_absorb1 min_absorb2)
    with last Some len u show ?thesis
      by (simp add: large_tlv_chunk_def large_tlv_length_def)
  next
    case none
    then show ?thesis using Some len by (simp add: large_tlv_chunk_def large_tlv_length_def)
  qed
qed (simp add: obj_def large_tlv_chunk_def large_tlv_length_def)

lemma handed_object_eq:
  "handed_object ((rc, d, n), w) = (case d of None \<Rightarrow> [] | Some x \<Rightarrow> take n x)"
  by (cases d) simp_all

text \<open>The object and the new state that \<open>large_tlv_data\<close> selects, type by type.\<close>

lemma large_tlv_icon_object:
  fixes st :: lltd_iface_state
  assumes port: "lltd_port_heap P"
    and d: "large_tlv_data P tlv_iconImage (st, w) = Some ((data, n, fr), st', w')"
  shows "(case data of None \<Rightarrow> [] | Some x \<Rightarrow> take n x) =
      (case small_icon st of
         Some icon \<Rightarrow> take (small_icon_size st) icon
       | None \<Rightarrow> if small_icon_size st = 0 then handed_object (p_icon_image P w) else [])"
    and "st' = (if small_icon st = None \<and> small_icon_size st = 0
      then st\<lparr>small_icon := fst (snd (fst (p_icon_image P w))),
             small_icon_size := snd (snd (fst (p_icon_image P w)))\<rparr> else st)"
proof -
  obtain rc i k w1 where g: "p_icon_image P w = ((rc, i, k), w1)" by (metis surj_pair)
  note facts = hands_overD(3,4) [OF lltd_port_heap.icon_hands_over [OF port] g]
  let ?st = "if small_icon st = None \<and> small_icon_size st = 0
      then st\<lparr>small_icon := fst (snd (fst (p_icon_image P w))),
             small_icon_size := snd (snd (fst (p_icon_image P w)))\<rparr> else st"
  have sel: "st' = ?st" "data = small_icon ?st" "n = small_icon_size ?st"
  proof -
    have "large_tlv_data P tlv_iconImage (st, w) =
        Some ((small_icon ?st, small_icon_size ?st, False), ?st,
          if small_icon st = None \<and> small_icon_size st = 0 then w1 else w)"
    proof (cases "small_icon st = None \<and> small_icon_size st = 0")
      case True
      then show ?thesis using facts by (cases "rc = 0") (simp_all add: large_tlv_data_def g)
    next
      case False
      then show ?thesis by (simp only: large_tlv_data_def split_conv if_True if_False Let_def refl)
    qed
    with d have "((data, n, fr), st', w') = ((small_icon ?st, small_icon_size ?st, False), ?st,
        if small_icon st = None \<and> small_icon_size st = 0 then w1 else w)"
      by (simp only: option.inject)
    then show "st' = ?st" "data = small_icon ?st" "n = small_icon_size ?st"
      by (simp_all only: prod.inject)
  qed
  show "st' = ?st" by (rule sel(1))
  show "(case data of None \<Rightarrow> [] | Some x \<Rightarrow> take n x) =
      (case small_icon st of
         Some icon \<Rightarrow> take (small_icon_size st) icon
       | None \<Rightarrow> if small_icon_size st = 0 then handed_object (p_icon_image P w) else [])"
    unfolding sel(2,3) g handed_object_eq by (cases "small_icon st") (simp_all split: option.split)
qed

lemma large_tlv_hwid_object:
  fixes st :: lltd_iface_state
  assumes port: "lltd_port_heap P" and mem: "\<And>i n. p_malloc P i n"
    and d: "large_tlv_data P tlv_hwIdProperty (st, w) = Some ((data, n, fr), st', w')"
  defines "hw \<equiv> fst (p_hw_id P 64)"
  shows "(case data of None \<Rightarrow> [] | Some x \<Rightarrow> take n x) =
      ucs2_text (hw @ replicate (64 - length hw) 0)" and "st' = st"
proof -
  have le: "length hw \<le> 64"
    unfolding hw_def by (rule lltd_port_contract.hw_id_cap)
      (use port in \<open>simp add: lltd_port_heap_def\<close>)
  define x where "x = hw @ replicate (64 - length hw) 0"
  have x: "store_bytes (replicate 64 0) 0 hw = Some x" "length x = 64"
    using le by (simp_all add: x_def store_bytes_front)
  have sel: "data = Some x" "hw_id_scan x 0 32 = Some n" "st' = st"
    using d mem x(1)
    by (auto simp: large_tlv_data_def hw_def [symmetric] lltd_port_malloc_def Let_def
        split: Option.bind_splits)
  from hw_id_scan_text [OF sel(2)] x(2) sel
  show "(case data of None \<Rightarrow> [] | Some x \<Rightarrow> take n x) =
      ucs2_text (hw @ replicate (64 - length hw) 0)" "st' = st"
    by (simp_all add: x_def)
qed

lemma large_tlv_other_object:
  fixes st :: lltd_iface_state
  assumes d: "large_tlv_data P ty (st, w) = Some ((data, n, fr), st', w')"
    and ty: "ty \<noteq> tlv_iconImage" "ty \<noteq> tlv_hwIdProperty"
  shows "(case data of None \<Rightarrow> [] | Some x \<Rightarrow> take n x) =
      (if ty = tlv_friendlyName then handed_object (p_friendly_name P w) else [])" and "st' = st"
proof -
  obtain rc i k w1 where g: "p_friendly_name P w = ((rc, i, k), w1)" by (metis surj_pair)
  show "(case data of None \<Rightarrow> [] | Some x \<Rightarrow> take n x) =
      (if ty = tlv_friendlyName then handed_object (p_friendly_name P w) else [])" "st' = st"
    using d ty by (auto simp: large_tlv_data_def g handed_object_eq split: if_splits)
qed

lemma large_tlv_object:
  fixes st :: lltd_iface_state
  assumes port: "lltd_port_heap P" and mem: "\<And>i n. p_malloc P i n"
    and d: "large_tlv_data P ty (st, w) = Some ((data, n, fr), st', w')"
  shows "(case data of None \<Rightarrow> [] | Some x \<Rightarrow> take n x) =
      (if ty = tlv_iconImage then
        (case small_icon st of
           Some icon \<Rightarrow> take (small_icon_size st) icon
         | None \<Rightarrow> if small_icon_size st = 0 then handed_object (p_icon_image P w) else [])
      else if ty = tlv_friendlyName then handed_object (p_friendly_name P w)
      else if ty = tlv_hwIdProperty then
        ucs2_text (fst (p_hw_id P 64) @ replicate (64 - length (fst (p_hw_id P 64))) 0)
      else [])" (is "?obj = ?spec")
    and "st' = (if ty = tlv_iconImage \<and> small_icon st = None \<and> small_icon_size st = 0
         then st\<lparr>small_icon := fst (snd (fst (p_icon_image P w))),
                small_icon_size := snd (snd (fst (p_icon_image P w)))\<rparr> else st)"
      (is "_ = ?st")
proof -
  consider (icon) "ty = tlv_iconImage" | (hwid) "ty = tlv_hwIdProperty"
    | (other) "ty \<noteq> tlv_iconImage" "ty \<noteq> tlv_hwIdProperty" by blast
  then have "?obj = ?spec \<and> st' = ?st"
  proof cases
    case icon
    from large_tlv_icon_object [OF port d [unfolded icon]] show ?thesis by (simp only: icon) simp
  next
    case hwid
    from large_tlv_hwid_object [OF port mem d [unfolded hwid]] show ?thesis by (simp only: hwid) simp
  next
    case other
    from large_tlv_other_object [OF d other] other show ?thesis by simp
  qed
  then show "?obj = ?spec" "st' = ?st" by blast+
qed

text \<open>
  C11.  A QueryLargeTlv with a sequence number other than zero is answered by one response
  under the same number, to the mapper.  It carries, of the requested property and from the
  requested offset on, as many bytes as there are and as fit into the MTU; its length word
  is their number, with the flag 0x8000 exactly when bytes of the property remain.  The
  property is the icon image (the one kept for the interface, or the one the port hands
  over, which is kept from then on), the friendly name of the port, its hardware id up to
  the terminator, and nothing for every other type.  All allocations succeed, and the MTU
  lies between 34 and 65569 bytes.
\<close>

theorem large_tlv_answered:
  fixes h :: lltd_demultiplex_header_t
  assumes ok: "states_ok states" and port: "lltd_port_heap P"
    and h: "load_demux_header (p_little_endian P) f = Some h" "opcode h = opcode_queryLargeTlv"
      "tos h = tos_discovery \<or> tos h = tos_quick_discovery"
    and seq: "lltd_ntohs (p_little_endian P) (seqNumber h) \<noteq> 0"
    and body: "drop 32 f = [ty, r] @ be16 off @ rest"
    and st: "iface_map states ctx = Some st"
    and mtu: "34 \<le> port_mtu P ctx" "port_mtu P ctx < 65536 + 34"
    and mem: "\<And>i n. p_malloc P i n"
  shows "\<exists>states' w' st' obj payload rc.
    parseFrame P (Some f) ctx (states, w) = Some (states', w') \<and>
    iface_map states' = (iface_map states)(ctx \<mapsto> st') \<and>
    obj = (if ty = tlv_iconImage then
        (case small_icon st of
           Some icon \<Rightarrow> take (small_icon_size st) icon
         | None \<Rightarrow> if small_icon_size st = 0 then handed_object (p_icon_image P w) else [])
      else if ty = tlv_friendlyName then handed_object (p_friendly_name P w)
      else if ty = tlv_hwIdProperty then
        ucs2_text (fst (p_hw_id P 64) @ replicate (64 - length (fst (p_hw_id P 64))) 0)
      else []) \<and>
    payload = take (port_mtu P ctx - 34) (drop (unat off) obj) \<and>
    w_events w' = w_events w @ [SendFrame ctx
      (demux_bytes (query_dest h) (port_mac P ctx) lltdEtherType 1 tos_discovery 0
         opcode_queryLargeTlvResp (query_dest h) (port_mac P ctx)
         (lltd_ntohs (p_little_endian P) (seqNumber h)) @
       be16 (of_nat (length payload) OR
         (if unat off + (port_mtu P ctx - 34) < length obj then 0x8000 else 0)) @ payload) rc] \<and>
    st' = (let st1 = set_active_mapper (realSource h) (source (frameHeader h))
             (st\<lparr>mapper_seq := lltd_ntohs (p_little_endian P) (seqNumber h)\<rparr>)
      in if ty = tlv_iconImage \<and> small_icon st = None \<and> small_icon_size st = 0
         then st1\<lparr>small_icon := fst (snd (fst (p_icon_image P w))),
                  small_icon_size := snd (snd (fst (p_icon_image P w)))\<rparr>
         else st1)"
proof -
  let ?le = "p_little_endian P"
  let ?st1 = "set_active_mapper (realSource h) (source (frameHeader h))
    (st\<lparr>mapper_seq := lltd_ntohs ?le (seqNumber h)\<rparr>)"
  have st_ok: "state_ok ?st1" "iface_ctx st = ctx"
    using iface_map_Some_iff [OF ok] st ok by (auto simp: states_ok_def)
  have len: "32 \<le> length f" using h(1) load_demux_header_Some_iff by blast
  have raw: "load_u16 ?le f (32 + 2) = Some (u16_of_mem ?le (be16 off))" "load_u8 f 32 = Some ty"
    using load_u16_drop [OF len, of ?le 2] load_u8_drop [of 32 f ty] body
    by (simp_all add: load_u16_here load_u16_Cons)
  obtain data n fr st2 w2 where d: "large_tlv_data P ty (?st1, w) = Some ((data, n, fr), st2, w2)"
    "iface_ctx st2 = iface_ctx ?st1" "w_events w2 = w_events w"
    "case data of None \<Rightarrow> n = 0 \<or> \<not> fr | Some d \<Rightarrow> n \<le> length d"
    by (rule lltd_port_heap.large_tlv_data_runs [OF port st_ok(1)])
  define obj where "obj = (case data of None \<Rightarrow> [] | Some d \<Rightarrow> take n d)"
  have chosen: "obj = (if ty = tlv_iconImage then
        (case small_icon st of
           Some icon \<Rightarrow> take (small_icon_size st) icon
         | None \<Rightarrow> if small_icon_size st = 0 then handed_object (p_icon_image P w) else [])
      else if ty = tlv_friendlyName then handed_object (p_friendly_name P w)
      else if ty = tlv_hwIdProperty then
        ucs2_text (fst (p_hw_id P 64) @ replicate (64 - length (fst (p_hw_id P 64))) 0)
      else [])"
    "st2 = (if ty = tlv_iconImage \<and> small_icon st = None \<and> small_icon_size st = 0
         then ?st1\<lparr>small_icon := fst (snd (fst (p_icon_image P w))),
                  small_icon_size := snd (snd (fst (p_icon_image P w)))\<rparr> else ?st1)"
    unfolding obj_def large_tlv_object [OF port mem d(1)] by (simp_all split: option.split)
  let ?m = "large_tlv_max_payload (port_mtu P ctx)"
  have fits: "case data of None \<Rightarrow> True | Some d \<Rightarrow> n \<le> length d" using d(4) by (auto split: option.splits)
  have m: "unat ?m = port_mtu P ctx - 34"
  proof -
    have "unat (of_nat (port_mtu P ctx - 34) :: u16) = port_mtu P ctx - 34"
      by (rule unat_of_nat_small) (use mtu in simp)
    then show ?thesis using mtu(1) by (auto simp: large_tlv_max_payload_def simp del: of_nat_diff)
  qed
  let ?fr = "large_tlv_frame P ctx h st2 (large_tlv_chunk ?m data n off)"
  obtain w3 where w3: "sendLargeTlvResponse P f ctx st2 data n off w2 = Some w3"
    "w_events w3 = w_events w @ [SendFrame ctx ?fr (p_send P (length (w_events w)) ctx ?fr)]"
    by (rule sendLargeTlvResponse_runs [OF h(1) fits, where ctx = ctx and st = st2 and w = w2 and off = off])
      (use mem d(3) in auto)
  let ?w = "if fr \<and> data \<noteq> None then lltd_port_free w3 else w3"
  have "parseQueryLargeTlv P f ctx (st, w) = Some (st2, ?w)"
    using h seq raw d(1) w3(1) by (simp add: parseQueryLargeTlv_def ntohs_mem Let_def)
  moreover have "frame_prologue P f h st = Some (True, st)"
    by (rule frame_prologue_other) (use h in auto)
  ultimately have step: "frame_step P f ctx (st, w) = Some (st2, ?w)"
    using h by (auto simp: frame_step_def frame_dispatch_def)
  have "iface_ctx st2 = ctx" using d(2) st_ok(2) by simp
  then obtain states' where run: "parseFrame P (Some f) ctx (states, w) = Some (states', ?w)"
    "iface_map states' = (iface_map states)(ctx \<mapsto> st2)"
    by (rule parseFrame_known [OF ok st step])
  have "mapper_seq st2 = lltd_ntohs ?le (seqNumber h)" by (simp add: chosen(2))
  then have "?fr = demux_bytes (query_dest h) (port_mac P ctx) lltdEtherType 1 tos_discovery 0
         opcode_queryLargeTlvResp (query_dest h) (port_mac P ctx)
         (lltd_ntohs (p_little_endian P) (seqNumber h)) @
       be16 (of_nat (length (take (port_mtu P ctx - 34) (drop (unat off) obj))) OR
         (if unat off + (port_mtu P ctx - 34) < length obj then 0x8000 else 0)) @
       take (port_mtu P ctx - 34) (drop (unat off) obj)"
    by (simp only: large_tlv_frame_def large_tlv_chunk_object [OF fits] obj_def [symmetric] m
        fst_conv snd_conv)
  moreover have "w_events ?w = w_events w3" by (simp add: world_simps)
  ultimately show ?thesis unfolding Let_def
    by (intro exI [of _ states'] exI [of _ ?w] exI [of _ st2] exI [of _ obj]
        exI [of _ "take (port_mtu P ctx - 34) (drop (unat off) obj)"] exI conjI run chosen refl) (simp only: w3(2))
qed

theorem large_tlv_answered_witness:
  "\<exists>states' w' st' obj payload rc.
    parseFrame demo_port (Some (demo_frame 0 0x0B ([tlv_hwIdProperty, 0] @ be16 4 @ []))) 3
      ([fresh_state 3], world0) = Some (states', w') \<and>
    iface_map states' = (iface_map [fresh_state 3])(3 \<mapsto> st') \<and>
    obj = (if tlv_hwIdProperty = tlv_iconImage then
        (case small_icon (fresh_state 3) of
           Some icon \<Rightarrow> take (small_icon_size (fresh_state 3)) icon
         | None \<Rightarrow> if small_icon_size (fresh_state 3) = 0
                   then handed_object (p_icon_image demo_port world0) else [])
      else if tlv_hwIdProperty = tlv_friendlyName then
        handed_object (p_friendly_name demo_port world0)
      else if tlv_hwIdProperty = tlv_hwIdProperty then
        ucs2_text (fst (p_hw_id demo_port 64) @
          replicate (64 - length (fst (p_hw_id demo_port 64))) 0)
      else []) \<and>
    payload = take (port_mtu demo_port 3 - 34) (drop (unat (4 :: u16)) obj) \<and>
    w_events w' = w_events world0 @ [SendFrame 3
      (demux_bytes (query_dest (demo_header 0 0x0B)) (port_mac demo_port 3) lltdEtherType 1
         tos_discovery 0 opcode_queryLargeTlvResp (query_dest (demo_header 0 0x0B))
         (port_mac demo_port 3)
         (lltd_ntohs (p_little_endian demo_port) (seqNumber (demo_header 0 0x0B))) @
       be16 (of_nat (length payload) OR
         (if unat (4 :: u16) + (port_mtu demo_port 3 - 34) < length obj then 0x8000 else 0)) @
       payload) rc] \<and>
    st' = (let st1 = set_active_mapper (realSource (demo_header 0 0x0B))
               (source (frameHeader (demo_header 0 0x0B)))
             ((fresh_state 3)\<lparr>mapper_seq :=
                lltd_ntohs (p_little_endian demo_port) (seqNumber (demo_header 0 0x0B))\<rparr>)
      in if tlv_hwIdProperty = tlv_iconImage \<and> small_icon (fresh_state 3) = None \<and>
           small_icon_size (fresh_state 3) = 0
         then st1\<lparr>small_icon := fst (snd (fst (p_icon_image demo_port world0))),
                  small_icon_size := snd (snd (fst (p_icon_image demo_port world0)))\<rparr>
         else st1)"
proof -
  have "lltd_port_heap demo_port" using demo_port_usable(1) by (simp add: usable_port_def)
  then show ?thesis
    by (rule large_tlv_answered [rotated 1])
      (simp_all add: states_ok_def demo_header iface_map_def)
qed

text \<open>
  C12.  A mapper that asks for the chunks one after the other gets back exactly the object:
  with a payload of at least one byte and less than 0x8000 per response, and an object of
  at most 65536 bytes, the exchange ends within one response per full payload and one more,
  and the chunks put together are the object.
\<close>

theorem large_tlv_reassembled:
  assumes "0 < m" "m < 0x8000" "n \<le> length d" "n \<le> 65536"
  shows "large_tlv_fetch (large_tlv_chunk m (Some d) n) (Suc (n div unat m)) 0 = Some (take n d)"
proof -
  have "0 < unat m" using assms(1) by (simp add: word_less_nat_alt)
  then have "n \<le> Suc (n div unat m) * unat m"
    using dividend_less_div_times [of "unat m" n] by simp
  with fetch_from [OF assms, of 0 "Suc (n div unat m)"] show ?thesis by simp
qed

theorem large_tlv_reassembled_witness:
  "large_tlv_fetch (large_tlv_chunk 4 (Some [1, 2, 3, 4, 5, 6, 7]) 7) (Suc (7 div unat (4 :: u16))) 0 =
     Some (take 7 [1, 2, 3, 4, 5, 6, 7 :: u8])"
  by (rule large_tlv_reassembled) simp_all

end
