(* ===== verification/LltdAutomata.thy ===== *)
theory LltdAutomata
  imports LltdPort
begin

text \<open>
  lltdAutomata.c, the table-driven state machines: mapping, enumeration (RepeatBand) and
  session.  A machine is a record with its transition and state tables; a switch reads the
  clock, replaces the input by -1 when the current state timed out, lets the last matching
  transition of the table win, and after a timeout switches again.  That recursion is a
  \<open>partial_function\<close>, so a switch that never returns is \<^term>\<open>None\<close>, like an access to a state the
  table does not have.  Each machine is shown to refine a machine on named states.
\<close>

section \<open>Machines\<close>

text \<open>\<open>with\<close> is a signed byte; \<open>timeout\<close> a signed 16-bit number of seconds.\<close>

record state =
  timeout :: u16
  state_name :: string

record transition =
  tr_from :: u8
  tr_to :: u8
  tr_with :: u8

record 'x automata =
  last_ts :: u64
  current_state :: u8
  transitions_table :: "transition list"
  transitions_no :: u8
  states_table :: "state list"
  states_no :: u8
  automata_name :: string
  extra :: "'x option"

record mapping_state =
  ctc :: u8
  charge_timeout_ts :: u64
  inactive_timeout_ts :: u64

record band_state =
  Ni :: u32
  band_r :: u32
  begun :: bool
  hello_timeout_ts :: u64
  block_timeout_ts :: u64

abbreviation (input) sizeof_automata :: nat where "sizeof_automata \<equiv> 504"
abbreviation (input) sizeof_mapping_state :: nat where "sizeof_mapping_state \<equiv> 24"
abbreviation (input) sizeof_band_state :: nat where "sizeof_band_state \<equiv> 32"

abbreviation (input) enum_sess_complete :: "'a::len word" where "enum_sess_complete \<equiv> 0x00"
abbreviation (input) enum_sess_not_complete :: "'a::len word" where "enum_sess_not_complete \<equiv> 0x01"
abbreviation (input) enum_hello :: "'a::len word" where "enum_hello \<equiv> 0x02"
abbreviation (input) enum_new_session :: "'a::len word" where "enum_new_session \<equiv> 0x03"

abbreviation (input) sess_discover_conflicting :: "'a::len word" where
  "sess_discover_conflicting \<equiv> 0x00"
abbreviation (input) sess_reset :: "'a::len word" where "sess_reset \<equiv> 0x01"
abbreviation (input) sess_discover_noack :: "'a::len word" where "sess_discover_noack \<equiv> 0x02"
abbreviation (input) sess_discover_acking :: "'a::len word" where "sess_discover_acking \<equiv> 0x03"
abbreviation (input) sess_discover_noack_chgd_xid :: "'a::len word" where
  "sess_discover_noack_chgd_xid \<equiv> 0x04"
abbreviation (input) sess_discover_acking_chgd_xid :: "'a::len word" where
  "sess_discover_acking_chgd_xid \<equiv> 0x05"
abbreviation (input) sess_topo_reset :: "'a::len word" where "sess_topo_reset \<equiv> 0x06"
abbreviation (input) sess_hello :: "'a::len word" where "sess_hello \<equiv> 0x07"

abbreviation (input) BAND_ALPHA :: u32 where "BAND_ALPHA \<equiv> 45"

section \<open>Clock wrappers\<close>

definition lltd_monotonic_seconds :: "port \<Rightarrow> world \<Rightarrow> u64 \<times> world" where
  "lltd_monotonic_seconds P w = lltd_port_monotonic_seconds P w"

definition lltd_monotonic_milliseconds :: "port \<Rightarrow> world \<Rightarrow> u64 \<times> world" where
  "lltd_monotonic_milliseconds P w = lltd_port_monotonic_milliseconds P w"

section \<open>Initialisation\<close>

definition mk_state :: "string \<Rightarrow> u16 \<Rightarrow> state" where
  "mk_state n t = \<lparr>timeout = t, state_name = n\<rparr>"

definition mk_tr :: "u8 \<Rightarrow> u8 \<Rightarrow> u8 \<Rightarrow> transition" where
  "mk_tr f t wi = \<lparr>tr_from = f, tr_to = t, tr_with = wi\<rparr>"

definition mapping_transitions :: "transition list" where
  "mapping_transitions =
     [mk_tr 0 1 opcode_discover, mk_tr 1 0 (-1), mk_tr 1 0 opcode_reset, mk_tr 1 1 opcode_query,
      mk_tr 1 1 opcode_queryLargeTlv, mk_tr 1 1 opcode_charge, mk_tr 1 1 opcode_probe,
      mk_tr 1 2 opcode_emit, mk_tr 2 2 opcode_probe, mk_tr 2 2 (-2), mk_tr 2 1 (-3),
      mk_tr 2 0 (-1), mk_tr 2 0 opcode_reset]"

definition mapping_states :: "state list" where
  "mapping_states = [mk_state ''Quiescent'' 0, mk_state ''Command'' 5, mk_state ''Emit'' 30]"

text \<open>The first allocation is not checked: a failure is a write through a null pointer.\<close>

definition init_automata_mapping :: "port \<Rightarrow> world \<Rightarrow> (mapping_state automata \<times> world) option" where
  "init_automata_mapping P w =
     (let (ok, w) = lltd_port_malloc P sizeof_automata w in
      if \<not> ok then None
      else
        let (now, w) = lltd_monotonic_seconds P w;
            (ok, w) = lltd_port_malloc P sizeof_mapping_state w;
            mstate = (if ok then Some \<lparr>ctc = 0, charge_timeout_ts = 0, inactive_timeout_ts = 0\<rparr>
                      else None)
        in Some (\<lparr>last_ts = now, current_state = 0, transitions_table = mapping_transitions,
                  transitions_no = 13, states_table = mapping_states, states_no = 3,
                  automata_name = ''Mapping'', extra = mstate\<rparr>, w))"

definition enumeration_transitions :: "transition list" where
  "enumeration_transitions =
     [mk_tr 0 1 enum_sess_not_complete, mk_tr 0 1 enum_new_session, mk_tr 1 2 enum_sess_complete,
      mk_tr 1 1 enum_hello, mk_tr 1 1 enum_new_session, mk_tr 2 1 enum_sess_not_complete,
      mk_tr 2 0 enum_sess_complete, mk_tr 2 1 enum_new_session]"

definition enumeration_states :: "state list" where
  "enumeration_states = [mk_state ''Quiescent'' 0, mk_state ''Pausing'' 60, mk_state ''Wait'' 30]"

definition init_automata_enumeration :: "port \<Rightarrow> world \<Rightarrow> (band_state automata \<times> world) option" where
  "init_automata_enumeration P w =
     (let (ok, w) = lltd_port_malloc P sizeof_automata w in
      if \<not> ok then None
      else
        let (now, w) = lltd_monotonic_seconds P w;
            (ok, w) = lltd_port_malloc P sizeof_band_state w
        in if \<not> ok then None
           else
             let band = \<lparr>Ni = BAND_ALPHA, band_r = 0, begun = False, hello_timeout_ts = 0,
                         block_timeout_ts = 0\<rparr>
             in Some (\<lparr>last_ts = now, current_state = 0,
                       transitions_table = enumeration_transitions, transitions_no = 8,
                       states_table = enumeration_states, states_no = 3,
                       automata_name = ''RepeatBand'', extra = Some band\<rparr>, w))"

definition session_transitions :: "transition list" where
  "session_transitions =
     [mk_tr 1 0 sess_discover_conflicting, mk_tr 0 1 (-1), mk_tr 0 1 sess_reset,
      mk_tr 0 1 sess_hello, mk_tr 0 1 sess_topo_reset, mk_tr 1 2 sess_discover_noack,
      mk_tr 2 1 (-1), mk_tr 2 1 sess_reset, mk_tr 2 2 sess_discover_noack_chgd_xid,
      mk_tr 2 3 sess_discover_acking, mk_tr 2 3 sess_discover_acking_chgd_xid,
      mk_tr 1 3 sess_discover_acking, mk_tr 3 1 opcode_reset, mk_tr 3 1 (-1),
      mk_tr 3 3 sess_discover_acking_chgd_xid, mk_tr 3 2 sess_discover_noack_chgd_xid]"

definition session_states :: "state list" where
  "session_states =
     [mk_state ''Temporary'' 1, mk_state ''Nascent'' 1, mk_state ''Pending'' 1,
      mk_state ''Complete'' 1]"

definition init_automata_session :: "port \<Rightarrow> world \<Rightarrow> (unit automata \<times> world) option" where
  "init_automata_session P w =
     (let (ok, w) = lltd_port_malloc P sizeof_automata w in
      if \<not> ok then None
      else
        let (now, w) = lltd_monotonic_seconds P w
        in Some (\<lparr>last_ts = now, current_state = 1, transitions_table = session_transitions,
                  transitions_no = 16, states_table = session_states, states_no = 4,
                  automata_name = ''Session'', extra = None\<rparr>, w))"

section \<open>Switching\<close>

text \<open>The loop over the table: the new state and whether a transition was found.\<close>

definition scan_transitions :: "transition list \<Rightarrow> u8 \<Rightarrow> int \<Rightarrow> u8 \<times> bool" where
  "scan_transitions ts cs input =
     foldl (\<lambda>(new_state, found) t.
       if cs = tr_from t \<and> sint (tr_with t) = input then (tr_to t, True) else (new_state, found))
       (cs, False) ts"

definition state_at :: "'x automata \<Rightarrow> u8 \<Rightarrow> state option" where
  "state_at autom i =
     (if unat i < length (states_table autom) then Some (states_table autom ! unat i) else None)"

definition active_transitions :: "'x automata \<Rightarrow> transition list option" where
  "active_transitions autom =
     (if unat (transitions_no autom) \<le> length (transitions_table autom)
      then Some (take (unat (transitions_no autom)) (transitions_table autom)) else None)"

text \<open>One pass of a machine with timeouts, up to its recursive call.\<close>

definition switch_once :: "port \<Rightarrow> 'x automata \<Rightarrow> int \<Rightarrow> world \<Rightarrow> (('x automata \<times> bool) \<times> world) option"
  where
  "switch_once P autom input w = do {
     cur \<leftarrow> state_at autom (current_state autom);
     let (now, w) = lltd_monotonic_seconds P w;
     let diff = now - last_ts autom;
     let timed_out = (timeout cur \<noteq> 0 \<and> scast (timeout cur) < diff);
     let input = (if timed_out then -1 else input);
     ts \<leftarrow> active_transitions autom;
     let (new_state, found) = scan_transitions ts (current_state autom) input;
     autom \<leftarrow> (if current_state autom \<noteq> new_state \<or> found \<or> timed_out then do {
                  _ \<leftarrow> state_at autom new_state;
                  Some (autom\<lparr>current_state := new_state\<rparr>)
                } else Some autom);
     Some ((autom\<lparr>last_ts := now\<rparr>, timed_out), w)
   }"

partial_function (option) switch_state_mapping ::
    "port \<Rightarrow> 'x automata \<Rightarrow> int \<Rightarrow> world \<Rightarrow> ('x automata \<times> world) option" where
  "switch_state_mapping P autom input w = do {
     ((autom, timed_out), w) \<leftarrow> switch_once P autom input w;
     if timed_out then switch_state_mapping P autom (-1) w else Some (autom, w)
   }"

definition switch_state_enumeration ::
    "port \<Rightarrow> 'x automata \<Rightarrow> int \<Rightarrow> world \<Rightarrow> ('x automata \<times> world) option" where
  "switch_state_enumeration P autom input w = do {
     _ \<leftarrow> state_at autom (current_state autom);
     ts \<leftarrow> active_transitions autom;
     let (new_state, found) = scan_transitions ts (current_state autom) input;
     autom \<leftarrow> (if new_state \<noteq> current_state autom \<or> found then do {
                  _ \<leftarrow> state_at autom new_state;
                  Some (autom\<lparr>current_state := new_state\<rparr>)
                } else Some autom);
     let (now, w) = lltd_monotonic_seconds P w;
     Some (autom\<lparr>last_ts := now\<rparr>, w)
   }"

partial_function (option) switch_state_session ::
    "port \<Rightarrow> 'x automata \<Rightarrow> int \<Rightarrow> world \<Rightarrow> ('x automata \<times> world) option" where
  "switch_state_session P autom input w = do {
     ((autom, timed_out), w) \<leftarrow> switch_once P autom input w;
     if timed_out then switch_state_session P autom (-1) w else Some (autom, w)
   }"

section \<open>Machines on named states\<close>

datatype mapping_mode = Quiescent | Command | Emitting

fun mapping_code :: "mapping_mode \<Rightarrow> u8" where
  "mapping_code Quiescent = 0" | "mapping_code Command = 1" | "mapping_code Emitting = 2"

fun mapping_next :: "mapping_mode \<Rightarrow> int \<Rightarrow> mapping_mode" where
  "mapping_next Quiescent i = (if i = 0 then Command else Quiescent)"
| "mapping_next Command i =
     (if i = -1 \<or> i = 8 then Quiescent else if i = 2 then Emitting else Command)"
| "mapping_next Emitting i =
     (if i = -3 then Command else if i = -1 \<or> i = 8 then Quiescent else Emitting)"

fun mapping_limit :: "mapping_mode \<Rightarrow> u64 option" where
  "mapping_limit Quiescent = None" | "mapping_limit Command = Some 5"
| "mapping_limit Emitting = Some 30"

datatype enum_mode = EnumQuiescent | EnumPausing | EnumWait

fun enum_code :: "enum_mode \<Rightarrow> u8" where
  "enum_code EnumQuiescent = 0" | "enum_code EnumPausing = 1" | "enum_code EnumWait = 2"

fun enum_next :: "enum_mode \<Rightarrow> int \<Rightarrow> enum_mode" where
  "enum_next EnumQuiescent i = (if i = 1 \<or> i = 3 then EnumPausing else EnumQuiescent)"
| "enum_next EnumPausing i = (if i = 0 then EnumWait else EnumPausing)"
| "enum_next EnumWait i =
     (if i = 1 \<or> i = 3 then EnumPausing else if i = 0 then EnumQuiescent else EnumWait)"

datatype session_mode = Temporary | Nascent | Pending | Complete

fun session_code :: "session_mode \<Rightarrow> u8" where
  "session_code Temporary = 0" | "session_code Nascent = 1" | "session_code Pending = 2"
| "session_code Complete = 3"

fun session_next :: "session_mode \<Rightarrow> int \<Rightarrow> session_mode" where
  "session_next Temporary i = (if i = -1 \<or> i = 1 \<or> i = 6 \<or> i = 7 then Nascent else Temporary)"
| "session_next Nascent i =
     (if i = 0 then Temporary else if i = 2 then Pending else if i = 3 then Complete else Nascent)"
| "session_next Pending i =
     (if i = -1 \<or> i = 1 then Nascent else if i = 3 \<or> i = 5 then Complete else Pending)"
| "session_next Complete i =
     (if i = 8 \<or> i = -1 then Nascent else if i = 4 then Pending else Complete)"

text \<open>A machine with the tables of its constructor, in a named state.\<close>

definition mapping_in :: "mapping_mode \<Rightarrow> 'x automata \<Rightarrow> bool" where
  "mapping_in m au \<longleftrightarrow> transitions_table au = mapping_transitions \<and> transitions_no au = 13 \<and>
     states_table au = mapping_states \<and> current_state au = mapping_code m"

definition enum_in :: "enum_mode \<Rightarrow> 'x automata \<Rightarrow> bool" where
  "enum_in m au \<longleftrightarrow> transitions_table au = enumeration_transitions \<and> transitions_no au = 8 \<and>
     states_table au = enumeration_states \<and> current_state au = enum_code m"

definition session_in :: "session_mode \<Rightarrow> 'x automata \<Rightarrow> bool" where
  "session_in m au \<longleftrightarrow> transitions_table au = session_transitions \<and> transitions_no au = 16 \<and>
     states_table au = session_states \<and> current_state au = session_code m"

section \<open>Lemmas\<close>

definition tick_read :: "world \<Rightarrow> world" where
  "tick_read w = w\<lparr>w_reads := Suc (w_reads w)\<rparr>"

lemma tick_read_simps [simp, world_simps]:
  "w_reads (tick_read w) = Suc (w_reads w)" "w_mallocs (tick_read w) = w_mallocs w"
  "w_live (tick_read w) = w_live w" "w_events (tick_read w) = w_events w"
  by (simp_all add: tick_read_def)

lemma monotonic_seconds_eq [simp]:
  "lltd_monotonic_seconds P w = (p_seconds P (w_reads w), tick_read w)"
  by (simp add: lltd_monotonic_seconds_def lltd_port_monotonic_seconds_def tick_read_def)

lemma monotonic_milliseconds_eq [simp]:
  "lltd_monotonic_milliseconds P w = (p_millis P (w_reads w), tick_read w)"
  by (simp add: lltd_monotonic_milliseconds_def lltd_port_monotonic_milliseconds_def tick_read_def)

lemma scan_transitions_step:
  "foldl (\<lambda>(new_state, found) t.
       if cs = tr_from t \<and> sint (tr_with t) = input then (tr_to t, True) else (new_state, found))
     (new, b) ts = (new', False) \<Longrightarrow> \<not> b \<and> new' = new"
  by (induction ts arbitrary: new b) (auto split: if_splits)

lemma scan_not_found: "scan_transitions ts cs input = (new, False) \<Longrightarrow> new = cs"
  unfolding scan_transitions_def using scan_transitions_step by blast

lemma scan_mapping: "fst (scan_transitions mapping_transitions (mapping_code m) i) =
    mapping_code (mapping_next m i)"
  by (cases m) (auto simp: scan_transitions_def mapping_transitions_def mk_tr_def)

lemma scan_enum: "fst (scan_transitions enumeration_transitions (enum_code m) i) =
    enum_code (enum_next m i)"
  by (cases m) (auto simp: scan_transitions_def enumeration_transitions_def mk_tr_def)

lemma scan_session: "fst (scan_transitions session_transitions (session_code m) i) =
    session_code (session_next m i)"
  by (cases m) (auto simp: scan_transitions_def session_transitions_def mk_tr_def)

lemma switch_once_eq:
  assumes cur: "state_at au (current_state au) = Some s"
    and ts: "active_transitions au = Some ts"
    and now: "now = p_seconds P (w_reads w)"
    and late: "late \<longleftrightarrow> timeout s \<noteq> 0 \<and> scast (timeout s) < now - last_ts au"
    and new: "fst (scan_transitions ts (current_state au) (if late then -1 else input)) = new"
    and there: "state_at au new \<noteq> None"
  shows "switch_once P au input w =
    Some ((au\<lparr>current_state := new, last_ts := now\<rparr>, late), tick_read w)"
proof -
  obtain found where sc: "scan_transitions ts (current_state au) (if late then -1 else input) =
      (new, found)"
    using new by (metis prod.collapse)
  have same: "\<not> found \<Longrightarrow> au\<lparr>current_state := new\<rparr> = au"
    using sc scan_not_found by auto
  obtain s' where "state_at au new = Some s'" using there by blast
  then show ?thesis using cur ts sc same
    by (cases found) (auto simp: switch_once_def late now Let_def split: if_splits)
qed

lemma table_lengths:
  "length mapping_transitions = 13" "length enumeration_transitions = 8"
  "length session_transitions = 16" "length mapping_states = 3" "length enumeration_states = 3"
  "length session_states = 4"
  by (simp_all add: mapping_transitions_def enumeration_transitions_def session_transitions_def
      mapping_states_def enumeration_states_def session_states_def)

lemma mapping_tables:
  assumes "mapping_in m au"
  shows "state_at au (mapping_code m') \<noteq> None" "active_transitions au = Some mapping_transitions"
    "state_at au (current_state au) = Some (case m of Quiescent \<Rightarrow> mk_state ''Quiescent'' 0
       | Command \<Rightarrow> mk_state ''Command'' 5 | Emitting \<Rightarrow> mk_state ''Emit'' 30)"
proof -
  show "state_at au (mapping_code m') \<noteq> None"
    using assms by (cases m') (simp_all add: mapping_in_def state_at_def table_lengths)
  show "active_transitions au = Some mapping_transitions"
    using assms by (simp add: mapping_in_def active_transitions_def table_lengths)
  show "state_at au (current_state au) = Some (case m of Quiescent \<Rightarrow> mk_state ''Quiescent'' 0
       | Command \<Rightarrow> mk_state ''Command'' 5 | Emitting \<Rightarrow> mk_state ''Emit'' 30)"
    using assms by (cases m) (simp_all add: mapping_in_def state_at_def mapping_states_def)
qed

lemma enum_tables:
  assumes "enum_in m au"
  shows "state_at au (enum_code m') \<noteq> None" "active_transitions au = Some enumeration_transitions"
proof -
  show "state_at au (enum_code m') \<noteq> None"
    using assms by (cases m') (simp_all add: enum_in_def state_at_def table_lengths)
  show "active_transitions au = Some enumeration_transitions"
    using assms by (simp add: enum_in_def active_transitions_def table_lengths)
qed

lemma session_tables:
  assumes "session_in m au"
  shows "state_at au (session_code m') \<noteq> None" "active_transitions au = Some session_transitions"
    "\<exists>n. state_at au (current_state au) = Some (mk_state n 1)"
proof -
  show "state_at au (session_code m') \<noteq> None"
    using assms by (cases m') (simp_all add: session_in_def state_at_def table_lengths)
  show "active_transitions au = Some session_transitions"
    using assms by (simp add: session_in_def active_transitions_def table_lengths)
  show "\<exists>n. state_at au (current_state au) = Some (mk_state n 1)"
    using assms by (cases m) (auto simp: session_in_def state_at_def session_states_def)
qed

definition mapping_late :: "mapping_mode \<Rightarrow> u64 \<Rightarrow> bool" where
  "mapping_late m elapsed \<longleftrightarrow> (case mapping_limit m of None \<Rightarrow> False | Some l \<Rightarrow> l < elapsed)"

lemma mapping_late_simps [simp]:
  "\<not> mapping_late Quiescent d" "mapping_late Command d \<longleftrightarrow> 5 < d" "mapping_late Emitting d \<longleftrightarrow> 30 < d"
  by (simp_all add: mapping_late_def)

lemma switch_once_mapping:
  fixes P :: port and w :: world
  assumes m: "mapping_in m au"
  defines "late \<equiv> mapping_late m (p_seconds P (w_reads w) - last_ts au)"
  shows "switch_once P au input w =
    Some ((au\<lparr>current_state := mapping_code (mapping_next m (if late then -1 else input)),
      last_ts := p_seconds P (w_reads w)\<rparr>, late), tick_read w)"
proof (rule switch_once_eq [OF mapping_tables(3,2) [OF m] refl _ _ mapping_tables(1) [OF m]])
  show "fst (scan_transitions mapping_transitions (current_state au) (if late then -1 else input)) =
      mapping_code (mapping_next m (if late then -1 else input))"
    using m by (simp only: mapping_in_def scan_mapping)
qed (cases m; simp add: late_def mk_state_def)

lemma mapping_in_update [simp]:
  "mapping_in m (au\<lparr>current_state := mapping_code m', last_ts := t\<rparr>) \<longleftrightarrow> m = m' \<and>
     transitions_table au = mapping_transitions \<and> transitions_no au = 13 \<and>
     states_table au = mapping_states"
  by (cases m; cases m') (auto simp: mapping_in_def)

lemma mapping_in_tables:
  "mapping_in m au \<Longrightarrow> transitions_table au = mapping_transitions \<and> transitions_no au = 13 \<and>
     states_table au = mapping_states"
  by (simp add: mapping_in_def)

lemma switch_state_mapping_eq:
  assumes m: "mapping_in m au"
  shows "switch_state_mapping P au input w =
    (if mapping_late m (p_seconds P (w_reads w) - last_ts au)
     then Some (au\<lparr>current_state := mapping_code Quiescent,
        last_ts := p_seconds P (Suc (w_reads w))\<rparr>, tick_read (tick_read w))
     else Some (au\<lparr>current_state := mapping_code (mapping_next m input),
        last_ts := p_seconds P (w_reads w)\<rparr>, tick_read w))"
proof (cases "mapping_late m (p_seconds P (w_reads w) - last_ts au)")
  case False
  then show ?thesis
    by (subst switch_state_mapping.simps) (simp add: switch_once_mapping [OF m])
next
  case True
  let ?au = "au\<lparr>current_state := mapping_code Quiescent, last_ts := p_seconds P (w_reads w)\<rparr>"
  have "mapping_next m (-1) = Quiescent" using True by (cases m) simp_all
  then have first: "switch_once P au input w = Some ((?au, True), tick_read w)"
    using True by (simp add: switch_once_mapping [OF m])
  have "mapping_in Quiescent ?au" using mapping_in_tables [OF m] by (simp only: mapping_in_update)
  note second = switch_once_mapping [OF this, where P = P and w = "tick_read w" and input = "-1"]
  have "switch_state_mapping P ?au (-1) (tick_read w) =
      Some (au\<lparr>current_state := mapping_code Quiescent, last_ts := p_seconds P (Suc (w_reads w))\<rparr>,
        tick_read (tick_read w))"
    by (subst switch_state_mapping.simps) (use second in simp)
  with first True show ?thesis by (subst switch_state_mapping.simps) simp
qed

lemma switch_state_enumeration_eq:
  assumes m: "enum_in m au"
  shows "switch_state_enumeration P au input w =
    Some (au\<lparr>current_state := enum_code (enum_next m input), last_ts := p_seconds P (w_reads w)\<rparr>,
      tick_read w)"
proof -
  obtain found where sc: "scan_transitions enumeration_transitions (current_state au) input =
      (enum_code (enum_next m input), found)"
    using scan_enum [of m input] m by (metis enum_in_def prod.collapse)
  obtain s s' where "state_at au (current_state au) = Some s"
    "state_at au (enum_code (enum_next m input)) = Some s'"
    using enum_tables(1) [OF m] m by (metis enum_in_def not_None_eq)
  moreover have "\<not> found \<Longrightarrow> au\<lparr>current_state := enum_code (enum_next m input)\<rparr> = au"
    using sc scan_not_found by fastforce
  ultimately show ?thesis using enum_tables(2) [OF m] sc
    by (cases found) (auto simp: switch_state_enumeration_def)
qed

section \<open>The session machine and its recursion\<close>

lemma switch_once_session:
  fixes P :: port and w :: world
  assumes m: "session_in m au"
  defines "late \<equiv> 1 < p_seconds P (w_reads w) - last_ts au"
  shows "switch_once P au input w =
    Some ((au\<lparr>current_state := session_code (session_next m (if late then -1 else input)),
      last_ts := p_seconds P (w_reads w)\<rparr>, late), tick_read w)"
proof -
  obtain n where cur: "state_at au (current_state au) = Some (mk_state n 1)"
    using session_tables(3) [OF m] by blast
  show ?thesis
  proof (rule switch_once_eq [OF cur session_tables(2) [OF m] refl _ _ session_tables(1) [OF m]])
    show "fst (scan_transitions session_transitions (current_state au) (if late then -1 else input)) =
        session_code (session_next m (if late then -1 else input))"
      using m by (simp only: session_in_def scan_session)
  qed (simp add: late_def mk_state_def)
qed

lemma session_in_update [simp]:
  "session_in m (au\<lparr>current_state := session_code m', last_ts := t\<rparr>) \<longleftrightarrow> m = m' \<and>
     transitions_table au = session_transitions \<and> transitions_no au = 16 \<and>
     states_table au = session_states"
  by (cases m; cases m') (auto simp: session_in_def)

lemma session_in_tables:
  "session_in m au \<Longrightarrow> transitions_table au = session_transitions \<and> transitions_no au = 16 \<and>
     states_table au = session_states"
  by (simp add: session_in_def)

lemma session_next_timeout: "session_next m (-1) = Nascent"
  by (cases m) simp_all

text \<open>One unfolding of the recursion.\<close>

lemma switch_state_session_unfold:
  assumes m: "session_in m au"
  shows "switch_state_session P au input w =
    (if 1 < p_seconds P (w_reads w) - last_ts au
     then switch_state_session P (au\<lparr>current_state := session_code Nascent,
        last_ts := p_seconds P (w_reads w)\<rparr>) (-1) (tick_read w)
     else Some (au\<lparr>current_state := session_code (session_next m input),
        last_ts := p_seconds P (w_reads w)\<rparr>, tick_read w))"
  by (subst switch_state_session.simps)
    (simp add: switch_once_session [OF m] session_next_timeout)

text \<open>
  The recursion of a session switch ends once the clock gains at most one second between
  two readings.
\<close>

lemma session_switch_runs:
  assumes m: "session_in m au" and steady: "w_reads w \<le> k"
    "p_seconds P (Suc k) - p_seconds P k \<le> 1"
  shows "\<exists>au' w'. switch_state_session P au input w = Some (au', w') \<and>
    session_in (if 1 < p_seconds P (w_reads w) - last_ts au then Nascent
                else session_next m input) au' \<and> w_reads w' \<le> Suc (Suc k)"
proof (cases "1 < p_seconds P (w_reads w) - last_ts au")
  case False
  then show ?thesis using session_in_tables [OF m] steady(1)
    by (simp add: switch_state_session_unfold [OF m] del: session_code.simps)
next
  case True
  have "\<exists>au' w'. switch_state_session P au (-1) w = Some (au', w') \<and> session_in Nascent au' \<and>
      w_reads w' \<le> Suc (Suc k)"
    if "session_in Nascent au" "w_reads w \<le> Suc k"
      "w_reads w = Suc k \<Longrightarrow> last_ts au = p_seconds P k" for au w
    using that
  proof (induction "Suc k - w_reads w" arbitrary: au w rule: less_induct)
    case less
    let ?au = "au\<lparr>current_state := session_code Nascent, last_ts := p_seconds P (w_reads w)\<rparr>"
    have au': "session_in Nascent ?au"
      using session_in_tables [OF less.prems(1)] by (simp only: session_in_update)
    show ?case
    proof (cases "1 < p_seconds P (w_reads w) - last_ts au")
      case False
      then show ?thesis using session_in_tables [OF less.prems(1)] less.prems(2)
        by (simp add: switch_state_session_unfold [OF less.prems(1)] del: session_code.simps)
    next
      case True
      then have "w_reads w \<noteq> Suc k" using less.prems(3) steady(2) by auto
      then have lt: "w_reads w \<le> k" using less.prems(2) by simp
      have "\<exists>au' w'. switch_state_session P ?au (-1) (tick_read w) = Some (au', w') \<and>
          session_in Nascent au' \<and> w_reads w' \<le> Suc (Suc k)"
        by (rule less.hyps) (use lt au' in auto)
      then show ?thesis using True by (simp add: switch_state_session_unfold [OF less.prems(1)])
    qed
  qed
  note run = this
  let ?au = "au\<lparr>current_state := session_code Nascent, last_ts := p_seconds P (w_reads w)\<rparr>"
  have "session_in Nascent ?au" using session_in_tables [OF m] by (simp only: session_in_update)
  then have "\<exists>au' w'. switch_state_session P ?au (-1) (tick_read w) = Some (au', w') \<and>
      session_in Nascent au' \<and> w_reads w' \<le> Suc (Suc k)"
    by (rule run) (use steady(1) in auto)
  then show ?thesis using True by (simp add: switch_state_session_unfold [OF m])
qed

text \<open>A clock that keeps having readings at most one second apart.\<close>

definition calm_clock :: "port \<Rightarrow> bool" where
  "calm_clock P \<longleftrightarrow> (\<forall>n. \<exists>k \<ge> n. p_seconds P (Suc k) - p_seconds P k \<le> 1)"

lemma session_switch_calm:
  assumes "session_in m au" "calm_clock P"
  obtains au' w' where "switch_state_session P au i w = Some (au', w')"
    "session_in (if 1 < p_seconds P (w_reads w) - last_ts au then Nascent else session_next m i) au'"
proof -
  obtain k where "w_reads w \<le> k" "p_seconds P (Suc k) - p_seconds P k \<le> 1"
    using assms(2) by (auto simp: calm_clock_def)
  from session_switch_runs [OF assms(1) this, of i] that show ?thesis by blast
qed

end
