(* ===== verification/LltdSessionTable.thy ===== *)
theory LltdSessionTable
  imports LltdAutomata LltdWire
begin

text \<open>
  lltdAutomata.c, the session table: 16 slots with a valid flag, a counter and the summary
  flag \<open>all_complete\<close>, and the classification of frames into session events.  A table or
  address pointer that may be null is an option.  The table is shown to implement a finite
  map from mapper address and generation to session data; the locale \<open>session_store\<close> is
  the contract its clients use.
\<close>

section \<open>State\<close>

record session_entry =
  mapper_mac :: ethernet_address_t
  generation :: u16
  seq_number :: u16
  se_state :: u8
  complete :: bool
  valid :: bool
  last_activity_ts :: u64
  created_ts :: u64

record session_table =
  entries :: "session_entry list"
  count :: u8
  all_complete :: bool

abbreviation (input) SESSION_TABLE_MAX_ENTRIES :: nat where "SESSION_TABLE_MAX_ENTRIES \<equiv> 16"
abbreviation (input) sizeof_session_table :: nat where "sizeof_session_table \<equiv> 520"

definition zero_entry :: session_entry where
  "zero_entry = \<lparr>mapper_mac = zero_mac, generation = 0, seq_number = 0, se_state = 0,
     complete = False, valid = False, last_activity_ts = 0, created_ts = 0\<rparr>"

section \<open>Operations\<close>

definition mac_equal :: "ethernet_address_t \<Rightarrow> ethernet_address_t \<Rightarrow> bool" where
  "mac_equal a b \<longleftrightarrow>
     a0 a = a0 b \<and> a1 a = a1 b \<and> a2 a = a2 b \<and> a3 a = a3 b \<and> a4 a = a4 b \<and> a5 a = a5 b"

definition session_table_create :: "port \<Rightarrow> world \<Rightarrow> session_table option \<times> world" where
  "session_table_create P w =
     (let (ok, w) = lltd_port_malloc P sizeof_session_table w
      in if ok
         then (Some \<lparr>entries = replicate SESSION_TABLE_MAX_ENTRIES zero_entry, count = 0,
                     all_complete = True\<rparr>, w)
         else (None, w))"

definition session_table_destroy :: "session_table option \<Rightarrow> world \<Rightarrow> world" where
  "session_table_destroy table w = (case table of None \<Rightarrow> w | Some _ \<Rightarrow> lltd_port_free w)"

text \<open>The returned pointer is the index of the entry.\<close>

definition session_key_at :: "ethernet_address_t \<Rightarrow> u16 \<Rightarrow> session_entry \<Rightarrow> bool" where
  "session_key_at mac gen entry \<longleftrightarrow>
     valid entry \<and> mac_equal (mapper_mac entry) mac \<and> generation entry = gen"

definition session_table_find ::
    "session_table option \<Rightarrow> ethernet_address_t option \<Rightarrow> u16 \<Rightarrow> u16 \<Rightarrow> nat option" where
  "session_table_find table mac gen seq =
     (case (table, mac) of
        (Some t, Some m) \<Rightarrow> first_index (session_key_at m gen) (entries t)
      | _ \<Rightarrow> None)"

definition session_table_add ::
    "port \<Rightarrow> session_table option \<Rightarrow> ethernet_address_t option \<Rightarrow> u16 \<Rightarrow> u16 \<Rightarrow> world \<Rightarrow>
     nat option \<times> session_table option \<times> world" where
  "session_table_add P table mac gen seq w =
     (case (table, mac) of
        (Some t, Some m) \<Rightarrow>
          (case session_table_find table mac gen seq of
             Some i \<Rightarrow>
               (let (now, w) = lltd_monotonic_seconds P w;
                    entry = (entries t ! i)\<lparr>seq_number := seq, last_activity_ts := now\<rparr>
                in (Some i, Some (t\<lparr>entries := (entries t)[i := entry]\<rparr>), w))
           | None \<Rightarrow>
               (case first_index (\<lambda>entry. \<not> valid entry) (entries t) of
                  Some i \<Rightarrow>
                    (let (now, w) = lltd_monotonic_seconds P w;
                         entry = \<lparr>mapper_mac = m, generation = gen, seq_number = seq,
                           se_state = sess_discover_noack, complete = False, valid = True,
                           last_activity_ts = now, created_ts = now\<rparr>
                     in (Some i, Some (t\<lparr>entries := (entries t)[i := entry],
                           count := count t + 1, all_complete := False\<rparr>), w))
                | None \<Rightarrow> (None, table, w)))
      | _ \<Rightarrow> (None, table, w))"

text \<open>The scan for completeness, with its early exit.\<close>

fun scan_complete :: "session_entry list \<Rightarrow> bool \<Rightarrow> bool \<times> bool" where
  "scan_complete [] any_valid = (True, any_valid)"
| "scan_complete (entry # es) any_valid =
     (if valid entry then (if \<not> complete entry then (False, True) else scan_complete es True)
      else scan_complete es any_valid)"

definition session_table_update_complete_status :: "session_table option \<Rightarrow> session_table option" where
  "session_table_update_complete_status table =
     map_option (\<lambda>t. let (all, any) = scan_complete (entries t) False
       in t\<lparr>all_complete := \<not> any \<or> all\<rparr>) table"

definition session_table_remove ::
    "session_table option \<Rightarrow> ethernet_address_t option \<Rightarrow> u16 \<Rightarrow> session_table option" where
  "session_table_remove table mac gen =
     (case (table, mac) of
        (Some t, Some m) \<Rightarrow>
          session_table_update_complete_status (Some
            (case first_index (session_key_at m gen) (entries t) of
               Some i \<Rightarrow> t\<lparr>entries := (entries t)[i := (entries t ! i)\<lparr>valid := False\<rparr>],
                           count := (if 0 < count t then count t - 1 else count t)\<rparr>
             | None \<Rightarrow> t))
      | _ \<Rightarrow> table)"

definition session_table_is_empty :: "session_table option \<Rightarrow> bool" where
  "session_table_is_empty table = (case table of None \<Rightarrow> True | Some t \<Rightarrow> count t = 0)"

definition session_table_all_complete :: "session_table option \<Rightarrow> bool" where
  "session_table_all_complete table = (case table of None \<Rightarrow> True | Some t \<Rightarrow> all_complete t)"

definition session_table_clear :: "session_table option \<Rightarrow> session_table option" where
  "session_table_clear table =
     map_option (\<lambda>t. \<lparr>entries = replicate SESSION_TABLE_MAX_ENTRIES zero_entry, count = 0,
       all_complete = True\<rparr>) table"

text \<open>The scan of a Discover's station list for our address; \<open>k\<close> stations to go.\<close>

fun station_listed :: "u8 list \<Rightarrow> ethernet_address_t \<Rightarrow> nat \<Rightarrow> nat \<Rightarrow> bool option" where
  "station_listed f our_mac i 0 = Some False"
| "station_listed f our_mac i (Suc k) = do {
     s \<leftarrow> load_mac f (sizeof_demux_header + 4 + 14 * i + 6);
     if mac_equal s our_mac then Some True else station_listed f our_mac (i + 1) k
   }"

definition derive_session_event ::
    "bool \<Rightarrow> u8 list option \<Rightarrow> session_table option \<Rightarrow> ethernet_address_t option \<Rightarrow> int option" where
  "derive_session_event le frame table our_mac =
     (case frame of
        None \<Rightarrow> Some (-1)
      | Some f \<Rightarrow> do {
          header \<leftarrow> load_demux_header le f;
          if opcode header = opcode_reset then
            Some (if mac_equal (realDestination header) EthernetBroadcast
                  then uint (sess_topo_reset :: u8) else uint (sess_reset :: u8))
          else if opcode header = opcode_hello then Some (uint (sess_hello :: u8))
          else if opcode header = opcode_discover then do {
            raw \<leftarrow> load_u16 le f sizeof_demux_header;
            let gen = lltd_ntohs le raw;
            let xid = lltd_ntohs le (seqNumber header);
            let existing = (case table of None \<Rightarrow> None | Some t \<Rightarrow>
              map_option ((!) (entries t)) (session_table_find table (Some (realSource header)) gen xid));
            acking \<leftarrow> (case our_mac of
                None \<Rightarrow> Some False
              | Some mac \<Rightarrow> do {
                  raw \<leftarrow> load_u16 le f (sizeof_demux_header + 2);
                  let station_count = unat (lltd_ntohs le raw);
                  if station_count = 0 then Some True else station_listed f mac 0 station_count
                });
            let changed_xid = (case existing of None \<Rightarrow> False | Some e \<Rightarrow> seq_number e \<noteq> xid);
            if (case existing of None \<Rightarrow> False
                | Some e \<Rightarrow> \<not> mac_equal (mapper_mac e) (realSource header))
            then Some (uint (sess_discover_conflicting :: u8))
            else if acking
            then Some (if changed_xid then uint (sess_discover_acking_chgd_xid :: u8)
                       else uint (sess_discover_acking :: u8))
            else Some (if changed_xid then uint (sess_discover_noack_chgd_xid :: u8)
                       else uint (sess_discover_noack :: u8))
          }
          else Some (-1)
        })"

section \<open>The table as a map\<close>

type_synonym session_key = "ethernet_address_t \<times> u16"

definition skey :: "session_entry \<Rightarrow> session_key" where
  "skey e = (mapper_mac e, generation e)"

definition entry_lookup :: "session_entry list \<Rightarrow> session_key \<rightharpoonup> session_entry" where
  "entry_lookup es k = map_option ((!) es) (first_index (session_key_at (fst k) (snd k)) es)"

definition session_map :: "session_table \<Rightarrow> session_key \<rightharpoonup> session_entry" where
  "session_map t = entry_lookup (entries t)"

definition unique_keys :: "session_entry list \<Rightarrow> bool" where
  "unique_keys es \<longleftrightarrow> (\<forall>i j. i < length es \<and> j < length es \<and> valid (es ! i) \<and> valid (es ! j) \<and>
     skey (es ! i) = skey (es ! j) \<longrightarrow> i = j)"

definition table_ok :: "session_table \<Rightarrow> bool" where
  "table_ok t \<longleftrightarrow> length (entries t) = SESSION_TABLE_MAX_ENTRIES \<and> unique_keys (entries t) \<and>
     unat (count t) = length (filter valid (entries t)) \<and>
     all_complete t = (\<forall>e \<in> set (entries t). valid e \<longrightarrow> complete e)"

lemma mac_equal_eq [simp]: "mac_equal a b \<longleftrightarrow> a = b"
  by (cases a; cases b) (auto simp: mac_equal_def)

lemma session_key_at_iff: "session_key_at m g e \<longleftrightarrow> valid e \<and> skey e = (m, g)"
  by (auto simp: session_key_at_def skey_def)

lemma entry_lookup_iff:
  assumes "unique_keys es"
  shows "entry_lookup es k = Some e \<longleftrightarrow>
    (\<exists>i < length es. es ! i = e \<and> valid e \<and> skey e = k)"
proof
  assume "entry_lookup es k = Some e"
  then obtain i where i: "first_index (session_key_at (fst k) (snd k)) es = Some i" "es ! i = e"
    by (auto simp: entry_lookup_def)
  from first_index_SomeD [OF i(1)] i(2) show "\<exists>i < length es. es ! i = e \<and> valid e \<and> skey e = k"
    by (auto simp: session_key_at_iff)
next
  assume "\<exists>i < length es. es ! i = e \<and> valid e \<and> skey e = k"
  then obtain i where i: "i < length es" "es ! i = e" "valid e" "skey e = k" by blast
  have "session_key_at (fst k) (snd k) e" using i by (simp add: session_key_at_iff)
  then have "\<exists>j. first_index (session_key_at (fst k) (snd k)) es = Some j"
    using i by (intro first_index_exI [of e]) (auto simp: in_set_conv_nth)
  then obtain j where j: "first_index (session_key_at (fst k) (snd k)) es = Some j" ..
  have "j = i" using first_index_SomeD [OF j] i assms
    by (auto simp: session_key_at_iff unique_keys_def)
  then show "entry_lookup es k = Some e" using j i by (simp add: entry_lookup_def)
qed

lemma option_ext: "(\<And>e. x = Some e \<longleftrightarrow> y = Some e) \<Longrightarrow> x = y"
  by (cases x; cases y) auto

text \<open>Writing an entry over a slot, and taking one out of use.\<close>

lemma unique_keys_put:
  assumes "unique_keys es" "i < length es"
    and "\<And>j. j < length es \<Longrightarrow> j \<noteq> i \<Longrightarrow> valid (es ! j) \<Longrightarrow> valid e \<Longrightarrow> skey (es ! j) \<noteq> skey e"
  shows "unique_keys (es[i := e])"
  unfolding unique_keys_def
proof (intro allI impI)
  fix j k
  assume "j < length (es[i := e]) \<and> k < length (es[i := e]) \<and> valid (es[i := e] ! j) \<and>
    valid (es[i := e] ! k) \<and> skey (es[i := e] ! j) = skey (es[i := e] ! k)"
  then show "j = k"
    using assms(1,2) assms(3) [of j] assms(3) [of k]
    by (cases "j = i"; cases "k = i") (auto simp: unique_keys_def)
qed

lemma entry_lookup_put:
  assumes u: "unique_keys es" and i: "i < length es" and "valid e"
    and new: "\<And>j. j < length es \<Longrightarrow> j \<noteq> i \<Longrightarrow> valid (es ! j) \<Longrightarrow> skey (es ! j) \<noteq> skey e"
    and same: "valid (es ! i) \<Longrightarrow> skey (es ! i) = skey e"
  shows "entry_lookup (es[i := e]) = (entry_lookup es)(skey e \<mapsto> e)"
proof
  fix k
  have u': "unique_keys (es[i := e])" using unique_keys_put [OF u i] new by blast
  show "entry_lookup (es[i := e]) k = ((entry_lookup es)(skey e \<mapsto> e)) k"
  proof (rule option_ext)
    fix x
    show "entry_lookup (es[i := e]) k = Some x \<longleftrightarrow> ((entry_lookup es)(skey e \<mapsto> e)) k = Some x"
    proof (cases "k = skey e")
      case True
      then show ?thesis using entry_lookup_iff [OF u', of k x] i \<open>valid e\<close> new
        by (auto simp: nth_list_update split: if_splits)
    next
      case False
      then show ?thesis
        using entry_lookup_iff [OF u', of k x] entry_lookup_iff [OF u, of k x] i same
        by (auto simp: nth_list_update split: if_splits) metis
    qed
  qed
qed

lemma entry_lookup_drop:
  assumes u: "unique_keys es" and i: "i < length es" and "\<not> valid e" and v: "valid (es ! i)"
  shows "entry_lookup (es[i := e]) = (entry_lookup es)(skey (es ! i) := None)"
proof
  fix k
  have u': "unique_keys (es[i := e])" using unique_keys_put [OF u i] \<open>\<not> valid e\<close> by blast
  show "entry_lookup (es[i := e]) k = ((entry_lookup es)(skey (es ! i) := None)) k"
  proof (rule option_ext)
    fix x
    show "entry_lookup (es[i := e]) k = Some x \<longleftrightarrow>
        ((entry_lookup es)(skey (es ! i) := None)) k = Some x"
      using entry_lookup_iff [OF u', of k x] entry_lookup_iff [OF u, of k x] i v \<open>\<not> valid e\<close> u
      by (auto simp: nth_list_update unique_keys_def split: if_splits)
  qed
qed

lemma find_lookup:
  "map_option ((!) (entries t)) (session_table_find (Some t) (Some m) g seq) = session_map t (m, g)"
  by (simp add: session_table_find_def session_map_def entry_lookup_def)

lemma find_NoneD: "session_table_find (Some t) (Some m) g seq = None \<longleftrightarrow> session_map t (m, g) = None"
  by (metis find_lookup map_option_is_None)

lemma find_SomeD:
  assumes "session_table_find (Some t) (Some m) g seq = Some i"
  shows "i < length (entries t)" "valid (entries t ! i)" "skey (entries t ! i) = (m, g)"
    "session_map t (m, g) = Some (entries t ! i)"
  using first_index_SomeD [of "session_key_at m g" "entries t" i] assms find_lookup [of t m g seq]
  by (auto simp: session_table_find_def session_key_at_iff)

text \<open>The entry a new session gets, and an entry that is touched again.\<close>

definition fresh_entry :: "session_key \<Rightarrow> u16 \<Rightarrow> u64 \<Rightarrow> session_entry" where
  "fresh_entry k seq now = \<lparr>mapper_mac = fst k, generation = snd k, seq_number = seq,
     se_state = sess_discover_noack, complete = False, valid = True, last_activity_ts = now,
     created_ts = now\<rparr>"

lemma count_le: "table_ok t \<Longrightarrow> unat (count t) \<le> 16"
  using length_filter_le [of valid "entries t"] by (auto simp: table_ok_def)

lemma full_iff:
  assumes "table_ok t"
  shows "first_index (\<lambda>e. \<not> valid e) (entries t) = None \<longleftrightarrow> count t = 16"
proof -
  have "first_index (\<lambda>e. \<not> valid e) (entries t) = None \<longleftrightarrow> filter valid (entries t) = entries t"
    by (simp add: first_index_None_iff filter_id_conv)
  also have "\<dots> \<longleftrightarrow> length (filter valid (entries t)) = length (entries t)"
    by (metis filter_id_conv length_filter_less less_irrefl)
  also have "\<dots> \<longleftrightarrow> unat (count t) = 16" using assms by (simp add: table_ok_def)
  also have "\<dots> \<longleftrightarrow> count t = 16"
    using word_unat_eq_iff [of "count t" 16] by simp
  finally show ?thesis .
qed

text \<open>What adding does, in its three cases.\<close>

lemma add_cases:
  assumes ok: "table_ok t"
  obtains (touched) e i t' where "session_map t (m, g) = Some e"
      "session_table_add P (Some t) (Some m) g seq w = (Some i, Some t', tick_read w)"
      "entries t' ! i = e\<lparr>seq_number := seq, last_activity_ts := p_seconds P (w_reads w)\<rparr>"
      "session_map t' = (session_map t)((m, g) \<mapsto> entries t' ! i)" "table_ok t'"
      "count t' = count t"
    | (fresh) i t' where "session_map t (m, g) = None" "count t \<noteq> 16"
      "session_table_add P (Some t) (Some m) g seq w = (Some i, Some t', tick_read w)"
      "session_map t' = (session_map t)((m, g) \<mapsto> fresh_entry (m, g) seq (p_seconds P (w_reads w)))"
      "table_ok t'" "count t' = count t + 1" "\<not> all_complete t'"
    | (full) "session_map t (m, g) = None" "count t = 16"
      "session_table_add P (Some t) (Some m) g seq w = (None, Some t, w)"
proof (cases "session_table_find (Some t) (Some m) g seq")
  case (Some i)
  note f = find_SomeD [OF Some]
  let ?e = "(entries t ! i)\<lparr>seq_number := seq, last_activity_ts := p_seconds P (w_reads w)\<rparr>"
  let ?t = "t\<lparr>entries := (entries t)[i := ?e]\<rparr>"
  have u: "unique_keys (entries t)" using ok by (simp add: table_ok_def)
  have key: "skey ?e = (m, g)" using f(3) by (simp add: skey_def)
  have other: "j < length (entries t) \<Longrightarrow> j \<noteq> i \<Longrightarrow> valid (entries t ! j) \<Longrightarrow>
      skey (entries t ! j) \<noteq> skey ?e" for j
    using u f key unfolding unique_keys_def by metis
  have "entry_lookup ((entries t)[i := ?e]) = (entry_lookup (entries t))(skey ?e \<mapsto> ?e)"
    by (rule entry_lookup_put [OF u f(1)]) (use f other key in auto)
  then have map: "session_map ?t = (session_map t)((m, g) \<mapsto> ?e)" by (simp add: session_map_def key)
  have cnt: "length (filter valid ((entries t)[i := ?e])) = length (filter valid (entries t))"
    using filter_update_len [of i "entries t" valid ?e] f by simp
  have "(\<forall>e \<in> set ((entries t)[i := ?e]). valid e \<longrightarrow> complete e) \<longleftrightarrow>
      (\<forall>e \<in> set (entries t). valid e \<longrightarrow> complete e)"
    unfolding all_set_conv_all_nth using f(1)
    by (intro iffI allI impI; erule_tac x = ia in allE; auto simp: nth_list_update split: if_splits)
  then have "table_ok ?t" using ok unique_keys_put [OF u f(1)] other cnt
    by (auto simp: table_ok_def)
  moreover have "session_table_add P (Some t) (Some m) g seq w = (Some i, Some ?t, tick_read w)"
    by (simp add: session_table_add_def Some)
  ultimately show ?thesis using map f by (intro touched [of "entries t ! i" i ?t]) simp_all
next
  case None
  note none = None
  then have nomap: "session_map t (m, g) = None" by (simp add: find_NoneD)
  show ?thesis
  proof (cases "first_index (\<lambda>e. \<not> valid e) (entries t)")
    case None
    with none ok full_iff [OF ok] show ?thesis
      by (intro full [OF nomap]) (simp_all add: session_table_add_def)
  next
    case (Some i)
    note at = first_index_SomeD [OF Some]
    let ?e = "fresh_entry (m, g) seq (p_seconds P (w_reads w))"
    let ?t = "t\<lparr>entries := (entries t)[i := ?e], count := count t + 1, all_complete := False\<rparr>"
    have u: "unique_keys (entries t)" using ok by (simp add: table_ok_def)
    have key: "skey ?e = (m, g)" "valid ?e" "\<not> complete ?e"
      by (simp_all add: skey_def fresh_entry_def)
    have other: "j < length (entries t) \<Longrightarrow> valid (entries t ! j) \<Longrightarrow>
        skey (entries t ! j) \<noteq> skey ?e" for j
      using nomap entry_lookup_iff [OF u, of "(m, g)" "entries t ! j"] key
      by (auto simp: session_map_def)
    have "entry_lookup ((entries t)[i := ?e]) = (entry_lookup (entries t))(skey ?e \<mapsto> ?e)"
      by (rule entry_lookup_put [OF u]) (use at other key in auto)
    then have map: "session_map ?t = (session_map t)((m, g) \<mapsto> ?e)"
      by (simp add: session_map_def key)
    have "length (filter valid ((entries t)[i := ?e])) = Suc (length (filter valid (entries t)))"
      using filter_update_len [of i "entries t" valid ?e] at key by simp
    moreover have n16: "count t \<noteq> 16" using full_iff [OF ok] Some by simp
    then have "unat (count t + 1) = Suc (unat (count t))"
      using count_le [OF ok] by (simp add: unat_word_ariths word_unat_eq_iff)
    moreover have "?e \<in> set ((entries t)[i := ?e])" using at by (simp add: set_update_memI)
    ultimately have "table_ok ?t"
      using ok unique_keys_put [OF u, of i ?e] other at key by (auto simp: table_ok_def)
    moreover have "session_table_add P (Some t) (Some m) g seq w = (Some i, Some ?t, tick_read w)"
      by (simp add: session_table_add_def none Some fresh_entry_def)
    ultimately show ?thesis using map by (intro fresh [OF nomap n16, of i ?t]) simp_all
  qed
qed

lemma scan_complete_eq:
  "fst (scan_complete es b) \<longleftrightarrow> (\<forall>e \<in> set es. valid e \<longrightarrow> complete e)"
  "\<not> fst (scan_complete es b) \<Longrightarrow> snd (scan_complete es b)"
  by (induction es b rule: scan_complete.induct) auto

lemma update_complete_status_eq:
  "session_table_update_complete_status (Some t) =
     Some (t\<lparr>all_complete := (\<forall>e \<in> set (entries t). valid e \<longrightarrow> complete e)\<rparr>)"
proof -
  have "(\<not> snd (scan_complete (entries t) False) \<or> fst (scan_complete (entries t) False)) =
      (\<forall>e \<in> set (entries t). valid e \<longrightarrow> complete e)"
    using scan_complete_eq [of "entries t" False] by blast
  then show ?thesis
    by (simp add: session_table_update_complete_status_def case_prod_beta Let_def)
qed

text \<open>The entry adding returns, and what writing over it and refreshing the flag does.\<close>

lemma add_at:
  assumes "session_table_add P (Some t) (Some m) g seq w = (Some i, table, w')"
  obtains t' where "table = Some t'" "i < length (entries t')" "valid (entries t' ! i)"
    "skey (entries t' ! i) = (m, g)"
proof (cases "session_table_find (Some t) (Some m) g seq")
  case (Some k)
  with assms find_SomeD [OF Some] show ?thesis
    by (intro that [of "the table"]) (auto simp: session_table_add_def Let_def skey_def)
next
  case None
  then obtain k where "first_index (\<lambda>e. \<not> valid e) (entries t) = Some k"
    using assms by (auto simp: session_table_add_def split: option.splits)
  with None assms first_index_SomeD(1) [OF this] show ?thesis
    by (intro that [of "the table"]) (auto simp: session_table_add_def Let_def skey_def)
qed

lemma map_at:
  assumes "table_ok t" "i < length (entries t)" "valid (entries t ! i)"
  shows "session_map t (skey (entries t ! i)) = Some (entries t ! i)"
  using assms entry_lookup_iff [of "entries t"] by (auto simp: session_map_def table_ok_def)

lemma overwrite_runs:
  assumes ok: "table_ok t" and i: "i < length (entries t)" "valid (entries t ! i)"
    and e: "valid e" "skey e = skey (entries t ! i)"
  obtains t' where "session_table_update_complete_status
      (Some (t\<lparr>entries := (entries t)[i := e]\<rparr>)) = Some t'" "table_ok t'"
    "session_map t' = (session_map t)(skey e \<mapsto> e)" "count t' = count t"
proof -
  let ?es = "(entries t)[i := e]"
  let ?t = "t\<lparr>entries := ?es, all_complete := (\<forall>e \<in> set ?es. valid e \<longrightarrow> complete e)\<rparr>"
  have u: "unique_keys (entries t)" using ok by (simp add: table_ok_def)
  have other: "j < length (entries t) \<Longrightarrow> j \<noteq> i \<Longrightarrow> valid (entries t ! j) \<Longrightarrow>
      skey (entries t ! j) \<noteq> skey e" for j
    using u i e(2) unfolding unique_keys_def by metis
  have map: "session_map ?t = (session_map t)(skey e \<mapsto> e)"
    using entry_lookup_put [OF u i(1) e(1)] other e(2) by (simp add: session_map_def)
  have "length (filter valid ?es) = length (filter valid (entries t))"
    using filter_update_len [of i "entries t" valid e] i e by simp
  then have "table_ok ?t"
    using ok unique_keys_put [OF u i(1)] other by (auto simp: table_ok_def)
  moreover have "session_table_update_complete_status
      (Some (t\<lparr>entries := (entries t)[i := e]\<rparr>)) = Some ?t"
    by (simp add: update_complete_status_eq)
  ultimately show ?thesis using map by (intro that [of ?t]) simp_all
qed

lemma update_status_ok:
  assumes "table_ok t"
  shows "session_table_update_complete_status (Some t) = Some t"
  using assms by (simp add: update_complete_status_eq table_ok_def)

lemma remove_runs:
  assumes ok: "table_ok t"
  obtains t' where "session_table_remove (Some t) (Some m) g = Some t'" "table_ok t'"
    "session_map t' = (session_map t)((m, g) := None)"
proof (cases "first_index (session_key_at m g) (entries t)")
  case None
  then have "session_map t (m, g) = None" by (simp add: session_map_def entry_lookup_def)
  then show ?thesis using None ok
    by (intro that [of "t\<lparr>all_complete := (\<forall>e \<in> set (entries t). valid e \<longrightarrow> complete e)\<rparr>"])
      (auto simp: session_table_remove_def update_complete_status_eq table_ok_def session_map_def
        fun_upd_idem)
next
  case (Some i)
  note at = first_index_SomeD [OF Some]
  have i: "i < length (entries t)" "valid (entries t ! i)" "skey (entries t ! i) = (m, g)"
    using at by (auto simp: session_key_at_iff)
  let ?e = "(entries t ! i)\<lparr>valid := False\<rparr>"
  let ?es = "(entries t)[i := ?e]"
  let ?t = "t\<lparr>entries := ?es, count := count t - 1,
    all_complete := (\<forall>e \<in> set ?es. valid e \<longrightarrow> complete e)\<rparr>"
  have u: "unique_keys (entries t)" using ok by (simp add: table_ok_def)
  have "0 < length (filter valid (entries t))" using i by (intro filter_length_pos [of i])
  then have pos: "0 < count t" using ok by (simp add: table_ok_def word_less_nat_alt)
  have len: "length (filter valid (entries t)) = Suc (length (filter valid ?es))"
    using filter_update_len [of i "entries t" valid ?e] i by simp
  have "unat (count t - 1) = unat (count t) - 1"
    using pos by (metis unat_minus_one word_not_simps(1))
  then have "table_ok ?t"
    using ok len unique_keys_put [OF u i(1), of ?e] by (simp add: table_ok_def)
  moreover have "session_map ?t = (session_map t)((m, g) := None)"
    using entry_lookup_drop [OF u i(1) _ i(2), of ?e] i(3) by (simp add: session_map_def)
  moreover have "session_table_remove (Some t) (Some m) g = Some ?t"
    using Some pos by (simp add: session_table_remove_def update_complete_status_eq)
  ultimately show ?thesis by (intro that)
qed

lemma zero_table_ok:
  defines "t \<equiv> \<lparr>entries = replicate SESSION_TABLE_MAX_ENTRIES zero_entry, count = 0, all_complete = True\<rparr>"
  shows "table_ok t" "session_map t = Map.empty"
proof -
  have u: "unique_keys (replicate 16 zero_entry)"
    by (auto simp: unique_keys_def) (simp_all add: zero_entry_def)
  then show "table_ok t" by (simp add: t_def table_ok_def zero_entry_def)
  show "session_map t = Map.empty"
  proof
    fix k
    show "session_map t k = None"
    proof (rule ccontr)
      assume "session_map t k \<noteq> None"
      then obtain e where "session_map t k = Some e" by blast
      then show False using entry_lookup_iff [OF u, of k e]
        by (auto simp: session_map_def t_def zero_entry_def)
    qed
  qed
qed

lemma is_empty_iff:
  assumes "table_ok t"
  shows "session_table_is_empty (Some t) \<longleftrightarrow> session_map t = Map.empty"
proof -
  have u: "unique_keys (entries t)" using assms by (simp add: table_ok_def)
  have "session_table_is_empty (Some t) \<longleftrightarrow> length (filter valid (entries t)) = 0"
    using assms word_unat_eq_iff [of "count t" 0]
    by (simp add: session_table_is_empty_def table_ok_def del: length_0_conv)
  also have "\<dots> \<longleftrightarrow> (\<forall>e \<in> set (entries t). \<not> valid e)" by (simp add: filter_empty_conv)
  also have "\<dots> \<longleftrightarrow> session_map t = Map.empty"
  proof
    assume none: "\<forall>e \<in> set (entries t). \<not> valid e"
    show "session_map t = Map.empty"
    proof
      fix k
      show "session_map t k = None"
      proof (rule ccontr)
        assume "session_map t k \<noteq> None"
        then obtain e where "session_map t k = Some e" by blast
        then show False using entry_lookup_iff [OF u, of k e] none
          by (auto simp: session_map_def)
      qed
    qed
  next
    assume empty: "session_map t = Map.empty"
    show "\<forall>e \<in> set (entries t). \<not> valid e"
    proof (intro ballI notI)
      fix e
      assume "e \<in> set (entries t)" "valid e"
      then have "session_map t (skey e) = Some e"
        using entry_lookup_iff [OF u, of "skey e" e] by (auto simp: session_map_def in_set_conv_nth)
      with empty show False by simp
    qed
  qed
  finally show ?thesis .
qed

section \<open>The contract of a session store\<close>

text \<open>What a session is after it was touched at a time with a sequence number.\<close>

definition touch :: "session_key \<Rightarrow> u16 \<Rightarrow> u64 \<Rightarrow> session_entry option \<Rightarrow> session_entry" where
  "touch k seq now e = (case e of None \<Rightarrow> fresh_entry k seq now
     | Some e \<Rightarrow> e\<lparr>seq_number := seq, last_activity_ts := now\<rparr>)"

locale session_store =
  fixes inv :: "'t \<Rightarrow> bool" and abs :: "'t \<Rightarrow> session_key \<rightharpoonup> session_entry"
    and find :: "'t \<Rightarrow> session_key \<Rightarrow> session_entry option"
    and now :: u64 and add :: "session_key \<Rightarrow> u16 \<Rightarrow> 't \<Rightarrow> 't option"
    and remove :: "session_key \<Rightarrow> 't \<Rightarrow> 't" and empty :: "'t \<Rightarrow> bool"
  assumes find_abs: "inv t \<Longrightarrow> find t k = abs t k"
    and add_abs: "inv t \<Longrightarrow> add k seq t = Some t' \<Longrightarrow>
      inv t' \<and> abs t' = (abs t)(k \<mapsto> touch k seq now (abs t k))"
    and add_full: "inv t \<Longrightarrow> add k seq t = None \<Longrightarrow> abs t k = None"
    and remove_abs: "inv t \<Longrightarrow> inv (remove k t) \<and> abs (remove k t) = (abs t)(k := None)"
    and empty_abs: "inv t \<Longrightarrow> empty t \<longleftrightarrow> abs t = Map.empty"
begin

lemma find_after_add:
  "inv t \<Longrightarrow> add k seq t = Some t' \<Longrightarrow>
   find t' k' = (if k' = k then Some (touch k seq now (find t k)) else find t k')"
  using add_abs [of t k seq t'] by (simp add: find_abs)

lemma find_after_remove: "inv t \<Longrightarrow> find (remove k t) k' = (if k' = k then None else find t k')"
  using remove_abs [of t k] by (simp add: find_abs)

lemma known_never_full: "inv t \<Longrightarrow> find t k = Some e \<Longrightarrow> \<exists>t'. add k seq t = Some t'"
  using add_full [of t k seq] by (cases "add k seq t") (auto simp: find_abs)

lemma not_empty_after_add: "inv t \<Longrightarrow> add k seq t = Some t' \<Longrightarrow> \<not> empty t'"
  using add_abs [of t k seq t'] empty_abs [of t']
  by (metis fun_upd_same option.distinct(1))

lemma remove_undoes_add:
  "inv t \<Longrightarrow> find t k = None \<Longrightarrow> add k seq t = Some t' \<Longrightarrow>
   find (remove k t') k' = find t k'"
  using add_abs [of t k seq t'] remove_abs [of t' k] by (auto simp: find_abs)

end

text \<open>The operations of the code in the shape of the contract.\<close>

definition table_find :: "session_table \<Rightarrow> session_key \<Rightarrow> session_entry option" where
  "table_find t k = map_option ((!) (entries t)) (session_table_find (Some t) (Some (fst k)) (snd k) 0)"

definition table_add :: "port \<Rightarrow> world \<Rightarrow> session_key \<Rightarrow> u16 \<Rightarrow> session_table \<Rightarrow> session_table option" where
  "table_add P w k seq t =
     (case session_table_add P (Some t) (Some (fst k)) (snd k) seq w of
        (Some i, t', w) \<Rightarrow> t' | (None, t', w) \<Rightarrow> None)"

definition table_remove :: "session_key \<Rightarrow> session_table \<Rightarrow> session_table" where
  "table_remove k t = the (session_table_remove (Some t) (Some (fst k)) (snd k))"

interpretation table: session_store table_ok session_map table_find "p_seconds P (w_reads w)"
    "table_add P w" table_remove "\<lambda>t. session_table_is_empty (Some t)" for P :: port and w :: world
proof
  fix t and k :: session_key and seq t'
  assume ok: "table_ok t"
  obtain m g where k: "k = (m, g)" by (cases k)
  show "table_find t k = session_map t k" by (simp add: table_find_def k find_lookup)
  show "table_ok (table_remove k t) \<and> session_map (table_remove k t) = (session_map t)(k := None)"
    by (rule remove_runs [OF ok, of m g]) (simp add: table_remove_def k)
  show "session_table_is_empty (Some t) \<longleftrightarrow> session_map t = Map.empty" by (rule is_empty_iff [OF ok])
  show "table_ok t' \<and>
      session_map t' = (session_map t)(k \<mapsto> touch k seq (p_seconds P (w_reads w)) (session_map t k))"
    if "table_add P w k seq t = Some t'"
    by (rule add_cases [OF ok, of m g P seq w]) (use that in \<open>auto simp: table_add_def k touch_def\<close>)
  show "session_map t k = None" if "table_add P w k seq t = None"
    by (rule add_cases [OF ok, of m g P seq w]) (use that in \<open>auto simp: table_add_def k\<close>)
qed

section \<open>Session events\<close>

definition station_bytes :: "ethernet_header_t \<Rightarrow> u8 list" where
  "station_bytes s = mac_bytes (destination s) @ mac_bytes (source s) @ be16 (ethertype s)"

lemma length_station_bytes [simp]: "length (station_bytes s) = 14"
  by (simp add: station_bytes_def)

lemma load_mac_drop: "p \<le> length f \<Longrightarrow> load_mac f (p + q) = load_mac (drop p f) q"
  by (simp add: load_mac_def load_bytes_drop)

lemma station_listed_eq:
  assumes "drop (36 + 14 * i) f = concat (map station_bytes ss) @ rest" "36 + 14 * i \<le> length f"
  shows "station_listed f m i (length ss) = Some (m \<in> source ` set ss)"
  using assms
proof (induction ss arbitrary: i)
  case (Cons s ss)
  have "load_mac f (36 + 14 * i + 6) = Some (source s)"
    using load_mac_drop [OF Cons.prems(2), of 6] Cons.prems(1)
    by (simp add: station_bytes_def load_mac_skip load_mac_here)
  moreover have "drop (36 + 14 * (i + 1)) f = drop 14 (drop (36 + 14 * i) f)"
    by (simp add: add.commute)
  then have "drop (36 + 14 * (i + 1)) f = concat (map station_bytes ss) @ rest"
    using Cons.prems(1) by simp
  moreover have "36 + 14 * (i + 1) \<le> length f"
    using arg_cong [OF Cons.prems(1), of length] by simp
  ultimately show ?case using Cons.IH [of "i + 1"] by (auto simp: add.assoc)
qed simp

text \<open>The body of a Discover: generation, number of stations, stations.\<close>

definition discover_body :: "u16 \<Rightarrow> ethernet_header_t list \<Rightarrow> u8 list" where
  "discover_body gen ss = be16 gen @ be16 (of_nat (length ss)) @ concat (map station_bytes ss)"

lemma derive_discover:
  assumes h: "load_demux_header le f = Some h" "opcode h = opcode_discover"
    and body: "drop 32 f = discover_body gen ss @ rest" "length ss < 65536"
  shows "derive_session_event le (Some f) (Some t) (Some mac) = Some
    (let acking = (ss = [] \<or> mac \<in> source ` set ss);
         changed = (case session_map t (realSource h, gen) of None \<Rightarrow> False
           | Some e \<Rightarrow> seq_number e \<noteq> lltd_ntohs le (seqNumber h))
     in if acking then (if changed then 5 else 3) else (if changed then 4 else 2))"
proof -
  let ?xid = "lltd_ntohs le (seqNumber h)"
  have len: "32 \<le> length f" using h(1) load_demux_header_Some_iff by blast
  have raw: "load_u16 le f 32 = Some (u16_of_mem le (be16 gen))"
    "load_u16 le f 34 = Some (u16_of_mem le (be16 (of_nat (length ss))))"
    using load_u16_drop [OF len, of le 0] load_u16_drop [OF len, of le 2] body(1)
    by (simp_all add: discover_body_def load_u16_here load_u16_skip)
  have n: "unat (of_nat (length ss) :: u16) = length ss"
    by (rule unat_of_nat_small) (use body(2) in simp)
  have "drop 36 f = drop 4 (drop 32 f)" by simp
  also have "\<dots> = concat (map station_bytes ss) @ rest" by (simp add: body discover_body_def)
  finally have stations: "station_listed f mac 0 (length ss) = Some (mac \<in> source ` set ss)"
    using station_listed_eq [of 0 f ss rest mac] arg_cong [OF body(1), of length] len
    by (simp add: discover_body_def)
  show ?thesis
  proof (cases "session_table_find (Some t) (Some (realSource h)) gen ?xid")
    case None
    then have "session_map t (realSource h, gen) = None" by (simp add: find_NoneD)
    then show ?thesis
      using h raw n stations None by (simp add: derive_session_event_def ntohs_mem Let_def)
  next
    case (Some i)
    have "mapper_mac (entries t ! i) = realSource h"
      using find_SomeD(3) [OF Some] by (simp add: skey_def)
    then show ?thesis
      using h raw n stations Some find_SomeD(4) [OF Some]
      by (simp add: derive_session_event_def ntohs_mem Let_def)
  qed
qed

text \<open>A frame that holds its stations is classified.\<close>

definition stations_complete :: "bool \<Rightarrow> u8 list \<Rightarrow> bool" where
  "stations_complete le f \<longleftrightarrow> (\<exists>raw. load_u16 le f 34 = Some raw \<and>
     36 + 14 * unat (lltd_ntohs le raw) \<le> length f)"

lemma station_listed_runs:
  "36 + 14 * (i + k) \<le> length f \<Longrightarrow> station_listed f m i k \<noteq> None"
proof (induction k arbitrary: i)
  case (Suc k)
  have "load_mac f (36 + 14 * i + 6) \<noteq> None" using Suc.prems by simp
  then obtain s where "load_mac f (36 + 14 * i + 6) = Some s" by blast
  then show ?case using Suc.IH [of "i + 1"] Suc.prems by (cases "s = m") (auto simp: add.assoc)
qed simp

lemma derive_runs:
  assumes h: "load_demux_header le f = Some h"
    and st: "opcode h = opcode_discover \<Longrightarrow> stations_complete le f"
  obtains v where "derive_session_event le (Some f) table (Some mac) = Some v" "-1 \<le> v" "v < 8"
proof (cases "opcode h = opcode_discover")
  case True
  then obtain raw where raw: "load_u16 le f 34 = Some raw"
    "36 + 14 * unat (lltd_ntohs le raw) \<le> length f"
    using st by (auto simp: stations_complete_def)
  then have "34 \<le> length f" by simp
  then obtain g where g: "load_u16 le f 32 = Some g" by (rule load_u16_in [of 32 f, simplified])
  obtain b where b: "unat (lltd_ntohs le raw) \<noteq> 0 \<Longrightarrow>
      station_listed f mac 0 (unat (lltd_ntohs le raw)) = Some b"
    using raw(2) station_listed_runs [of 0 "unat (lltd_ntohs le raw)" f mac] by fastforce
  show ?thesis
  proof (cases "unat (lltd_ntohs le raw) = 0")
    case True
    with h \<open>opcode h = opcode_discover\<close> g raw(1) show ?thesis
      by (intro that [of "the (derive_session_event le (Some f) table (Some mac))"])
        (simp_all add: derive_session_event_def Let_def)
  next
    case False
    with h \<open>opcode h = opcode_discover\<close> g raw(1) b show ?thesis
      by (intro that [of "the (derive_session_event le (Some f) table (Some mac))"])
        (simp_all add: derive_session_event_def Let_def)
  qed
next
  case False
  with h show ?thesis
    by (intro that [of "the (derive_session_event le (Some f) table (Some mac))"])
      (auto simp: derive_session_event_def)
qed

text \<open>The entry that was found always has the address it was looked up by.\<close>

lemma derive_never_conflicting:
  assumes "derive_session_event le frame table mac = Some v"
  shows "v \<noteq> 0"
proof
  assume v: "v = 0"
  have same: "mapper_mac (entries t ! i) = m"
    if "session_table_find (Some t) (Some m) g xid = Some i" for t m g xid i
    using find_SomeD(3) [OF that] by (simp add: skey_def)
  show False
    using assms unfolding v derive_session_event_def
    by (auto simp: Let_def same bind_eq_Some_conv split: option.splits if_splits)
qed

end
