(* ===== verification/LltdTick.thy ===== *)
theory LltdTick
  imports LltdSessionTable
begin

text \<open>
  lltdAutomata.c, the RepeatBand statistics, the timers of the mapping machine, and
  \<open>automata_tick\<close>, which the platform loops call after every frame or poll timeout.  A
  pointer that may be null is an option; \<open>send_hello\<close> of the tick port is a parameter, a
  function on the world that is \<^term>\<open>None\<close> where it leaves its buffers.
\<close>

abbreviation (input) BAND_NMAX :: u32 where "BAND_NMAX \<equiv> 10000"
abbreviation (input) BAND_BETA :: nat where "BAND_BETA \<equiv> 2"
abbreviation (input) BAND_GAMMA :: "'a::len word" where "BAND_GAMMA \<equiv> 10"
abbreviation (input) BAND_TXC :: u64 where "BAND_TXC \<equiv> 4"
abbreviation (input) BAND_BLOCK_TIME :: u64 where "BAND_BLOCK_TIME \<equiv> 300"
abbreviation (input) HELLO_MIN_INTERVAL_MS :: u64 where "HELLO_MIN_INTERVAL_MS \<equiv> 1000"

text \<open>A macro on C ints.\<close>

definition BAND_MUL_FRAME :: "int \<Rightarrow> int" where
  "BAND_MUL_FRAME x = (x * 20) div 3"

section \<open>RepeatBand statistics\<close>

definition band_init_stats :: "port \<Rightarrow> band_state option \<Rightarrow> world \<Rightarrow> band_state option \<times> world" where
  "band_init_stats P band w =
     (case band of
        None \<Rightarrow> (None, w)
      | Some b \<Rightarrow>
          (let (now, w) = lltd_monotonic_milliseconds P w
           in (Some (b\<lparr>Ni := BAND_ALPHA, band_r := 0, begun := False, hello_timeout_ts := 0,
                       block_timeout_ts := now + BAND_BLOCK_TIME\<rparr>), w)))"

text \<open>The loop that raises \<open>r\<close> to the power BAND_BETA, in 32-bit arithmetic.\<close>

fun r_power :: "u32 \<Rightarrow> u32 \<Rightarrow> nat \<Rightarrow> u32" where
  "r_power r acc 0 = acc"
| "r_power r acc (Suc k) = r_power r (acc * r) k"

definition band_new_ni :: "u32 \<Rightarrow> u32" where
  "band_new_ni r =
     (let r_pow_beta = r_power r r (BAND_BETA - 1);
          new_ni = BAND_ALPHA * r_pow_beta
      in if BAND_NMAX < new_ni then BAND_NMAX else new_ni)"

definition band_update_stats :: "port \<Rightarrow> band_state option \<Rightarrow> world \<Rightarrow> band_state option \<times> world" where
  "band_update_stats P band w =
     (case band of
        None \<Rightarrow> (None, w)
      | Some b \<Rightarrow>
          (let b = (if 0 < band_r b \<and> begun b then b\<lparr>Ni := band_new_ni (band_r b)\<rparr> else b);
               (now, w) = lltd_monotonic_milliseconds P w
           in (Some (b\<lparr>band_r := 0, block_timeout_ts := now + BAND_BLOCK_TIME\<rparr>), w)))"

definition band_interval_ms :: "u32 \<Rightarrow> u64" where
  "band_interval_ms n =
     (let numerator = BAND_TXC * ucast n * 20;
          denominator = BAND_GAMMA * 3;
          interval_ms = numerator div denominator;
          interval_ms = (if numerator mod denominator \<noteq> 0 then interval_ms + 1 else interval_ms)
      in if interval_ms < of_int (BAND_MUL_FRAME 1) then of_int (BAND_MUL_FRAME 1) else interval_ms)"

definition band_choose_hello_time ::
    "port \<Rightarrow> band_state option \<Rightarrow> world \<Rightarrow> u64 \<times> band_state option \<times> world" where
  "band_choose_hello_time P band w =
     (case band of
        None \<Rightarrow> (0, None, w)
      | Some b \<Rightarrow>
          (let (now, w) = lltd_monotonic_milliseconds P w;
               ts = now + band_interval_ms (Ni b)
           in (ts, Some (b\<lparr>hello_timeout_ts := ts\<rparr>), w)))"

definition band_do_hello :: "port \<Rightarrow> band_state option \<Rightarrow> world \<Rightarrow> band_state option \<times> world" where
  "band_do_hello P band w =
     (case band of
        None \<Rightarrow> (None, w)
      | Some b \<Rightarrow>
          (let (_, band, w) = band_choose_hello_time P (Some b) w
           in (map_option (\<lambda>b. b\<lparr>begun := True\<rparr>) band, w)))"

definition band_on_hello_received :: "band_state option \<Rightarrow> band_state option" where
  "band_on_hello_received band =
     map_option (\<lambda>b.
       let b = b\<lparr>band_r := band_r b + 1\<rparr>
       in if BAND_GAMMA \<le> band_r b \<and> \<not> begun b then b\<lparr>begun := True\<rparr> else b) band"

section \<open>Timers of the mapping machine\<close>

definition mapping_reset_charge :: "mapping_state option \<Rightarrow> mapping_state option" where
  "mapping_reset_charge m = map_option (\<lambda>m. m\<lparr>ctc := 0, charge_timeout_ts := 0\<rparr>) m"

definition mapping_on_charge ::
    "port \<Rightarrow> mapping_state option \<Rightarrow> world \<Rightarrow> mapping_state option \<times> world" where
  "mapping_on_charge P m w =
     (case m of
        None \<Rightarrow> (None, w)
      | Some m \<Rightarrow>
          (let (now, w) = lltd_monotonic_seconds P w
           in (Some (m\<lparr>ctc := ctc m + 1, charge_timeout_ts := now + 1\<rparr>), w)))"

definition mapping_check_charge_timeout ::
    "port \<Rightarrow> mapping_state option \<Rightarrow> world \<Rightarrow> bool \<times> mapping_state option \<times> world" where
  "mapping_check_charge_timeout P mstate w =
     (case mstate of
        None \<Rightarrow> (False, None, w)
      | Some m \<Rightarrow>
          if charge_timeout_ts m = 0 then (False, Some m, w)
          else
            let (now, w) = lltd_monotonic_seconds P w
            in if charge_timeout_ts m \<le> now
               then (True, Some (m\<lparr>ctc := 0, charge_timeout_ts := 0\<rparr>), w)
               else (False, Some m, w))"

definition mapping_check_inactive_timeout ::
    "port \<Rightarrow> mapping_state option \<Rightarrow> world \<Rightarrow> bool \<times> world" where
  "mapping_check_inactive_timeout P mstate w =
     (case mstate of
        None \<Rightarrow> (False, w)
      | Some m \<Rightarrow>
          if inactive_timeout_ts m = 0 then (False, w)
          else
            let (now, w) = lltd_monotonic_seconds P w in (inactive_timeout_ts m \<le> now, w))"

definition mapping_reset_inactive_timeout ::
    "port \<Rightarrow> mapping_state option \<Rightarrow> world \<Rightarrow> mapping_state option \<times> world" where
  "mapping_reset_inactive_timeout P mstate w =
     (case mstate of
        None \<Rightarrow> (None, w)
      | Some m \<Rightarrow>
          (let (now, w) = lltd_monotonic_seconds P w
           in (Some (m\<lparr>inactive_timeout_ts := now + 30\<rparr>), w)))"

section \<open>The tick\<close>

text \<open>\<open>tp_last_hello_tx_ms\<close> is the value behind the pointer, if there is one.\<close>

record lltd_automata_tick_port =
  tp_network_interface :: iface
  tp_last_hello_tx_ms :: "u64 option"
  tp_send_hello :: "(iface \<Rightarrow> world \<Rightarrow> world option) option"

record tick_state =
  tk_mapping :: "mapping_state automata option"
  tk_enumeration :: "band_state automata option"
  tk_sessions :: "session_table option"
  tk_port :: "lltd_automata_tick_port option"

definition tick_mapping :: "port \<Rightarrow> tick_state \<Rightarrow> world \<Rightarrow> (tick_state \<times> world) option" where
  "tick_mapping P s w =
     (case tk_mapping s of
        None \<Rightarrow> Some (s, w)
      | Some mapping \<Rightarrow>
          if extra mapping = None then Some (s, w)
          else do {
            let (fired, w) = mapping_check_inactive_timeout P (extra mapping) w;
            (mapping, sessions, w) \<leftarrow>
              (if fired then do {
                 let mapping = mapping\<lparr>extra :=
                   map_option (\<lambda>m. m\<lparr>inactive_timeout_ts := 0\<rparr>) (extra mapping)\<rparr>;
                 (mapping, w) \<leftarrow> switch_state_mapping P mapping (-1) w;
                 let mapping = mapping\<lparr>extra := mapping_reset_charge (extra mapping)\<rparr>;
                 Some (mapping, session_table_clear (tk_sessions s), w)
               } else Some (mapping, tk_sessions s, w));
            let (_, mstate, w) = mapping_check_charge_timeout P (extra mapping) w;
            Some (s\<lparr>tk_mapping := Some (mapping\<lparr>extra := mstate\<rparr>), tk_sessions := sessions\<rparr>, w)
          })"

fun expire_entries :: "u64 \<Rightarrow> session_entry list \<Rightarrow> u8 \<Rightarrow> session_entry list \<times> u8" where
  "expire_entries now_s [] cnt = ([], cnt)"
| "expire_entries now_s (entry # es) cnt =
     (if valid entry \<and> last_activity_ts entry + 60 < now_s then
        (let (es, cnt) = expire_entries now_s es (if 0 < cnt then cnt - 1 else cnt)
         in (entry\<lparr>valid := False\<rparr> # es, cnt))
      else
        (let (es, cnt) = expire_entries now_s es cnt in (entry # es, cnt)))"

definition tick_sessions :: "u64 \<Rightarrow> session_table option \<Rightarrow> session_table option" where
  "tick_sessions now_s sessions =
     (case sessions of
        None \<Rightarrow> None
      | Some t \<Rightarrow>
          (let (es, cnt) = expire_entries now_s (entries t) (count t)
           in session_table_update_complete_status (Some (t\<lparr>entries := es, count := cnt\<rparr>))))"

text \<open>The transition of the enumeration machine at a tick.\<close>

definition tick_enum_state ::
    "port \<Rightarrow> band_state automata \<Rightarrow> session_table option \<Rightarrow> world \<Rightarrow>
     (band_state automata \<times> world) option" where
  "tick_enum_state P enumeration sessions w =
     (if current_state enumeration \<noteq> 0 then
        if session_table_is_empty sessions then
          Some (enumeration\<lparr>current_state := 0, extra := map_option (\<lambda>b. b\<lparr>hello_timeout_ts := 0,
            block_timeout_ts := 0, begun := False\<rparr>) (extra enumeration)\<rparr>, w)
        else if session_table_all_complete sessions
        then switch_state_enumeration P enumeration (uint (enum_sess_complete :: u8)) w
        else switch_state_enumeration P enumeration (uint (enum_sess_not_complete :: u8)) w
      else Some (enumeration, w))"

text \<open>\<open>port->send_hello\<close>, when there is one, with the bookkeeping of the last Hello.\<close>

definition tick_send_hello ::
    "u64 \<Rightarrow> lltd_automata_tick_port option \<Rightarrow> world \<Rightarrow>
     (lltd_automata_tick_port option \<times> world) option" where
  "tick_send_hello now_ms port w =
     (case port of
        None \<Rightarrow> Some (None, w)
      | Some p \<Rightarrow>
          (case tp_send_hello p of
             None \<Rightarrow> Some (Some p, w)
           | Some send \<Rightarrow>
               if tp_network_interface p = 0 then Some (Some p, w)
               else do {
                 w \<leftarrow> send (tp_network_interface p) w;
                 Some (Some (p\<lparr>tp_last_hello_tx_ms :=
                   map_option (\<lambda>_. now_ms) (tp_last_hello_tx_ms p)\<rparr>), w)
               }))"

definition tick_last_tx :: "lltd_automata_tick_port option \<Rightarrow> u64" where
  "tick_last_tx port =
     (case port of None \<Rightarrow> 0 | Some p \<Rightarrow> (case tp_last_hello_tx_ms p of None \<Rightarrow> 0 | Some t \<Rightarrow> t))"

definition tick_hello ::
    "port \<Rightarrow> u64 \<Rightarrow> band_state automata \<Rightarrow> band_state \<Rightarrow> lltd_automata_tick_port option \<Rightarrow> world \<Rightarrow>
     (band_state automata \<times> lltd_automata_tick_port option \<times> world) option" where
  "tick_hello P now_ms enumeration band port w =
     (if 0 < hello_timeout_ts band \<and> hello_timeout_ts band \<le> now_ms then
        let last_tx = tick_last_tx port in
        if 0 < last_tx \<and> now_ms - last_tx < HELLO_MIN_INTERVAL_MS then
          Some (enumeration\<lparr>extra := Some (band\<lparr>hello_timeout_ts := last_tx + HELLO_MIN_INTERVAL_MS\<rparr>)\<rparr>,
            port, w)
        else do {
            (port, w) \<leftarrow> tick_send_hello now_ms port w;
            let (b, w) = band_do_hello P (Some band) w;
            let b = map_option (\<lambda>b. if hello_timeout_ts b < now_ms + HELLO_MIN_INTERVAL_MS
                    then b\<lparr>hello_timeout_ts := now_ms + HELLO_MIN_INTERVAL_MS\<rparr> else b) b;
            (enumeration, w) \<leftarrow> switch_state_enumeration P (enumeration\<lparr>extra := b\<rparr>)
              (uint (enum_hello :: u8)) w;
            Some (enumeration, port, w)
          }
      else Some (enumeration, port, w))"

definition tick_block :: "port \<Rightarrow> u64 \<Rightarrow> band_state automata \<Rightarrow> world \<Rightarrow> band_state automata \<times> world" where
  "tick_block P now_ms enumeration w =
     (case extra enumeration of
        None \<Rightarrow> (enumeration, w)
      | Some band \<Rightarrow>
          if 0 < block_timeout_ts band \<and> block_timeout_ts band \<le> now_ms then
            (let (b, w) = band_update_stats P (Some band) w;
                 (_, b, w) = band_choose_hello_time P b w
             in (enumeration\<lparr>extra := b\<rparr>, w))
          else (enumeration, w))"

definition tick_enumeration :: "port \<Rightarrow> u64 \<Rightarrow> tick_state \<Rightarrow> world \<Rightarrow> (tick_state \<times> world) option" where
  "tick_enumeration P now_ms s w =
     (case tk_enumeration s of
        None \<Rightarrow> Some (s, w)
      | Some enumeration \<Rightarrow>
          if extra enumeration = None then Some (s, w)
          else do {
            (enumeration, w) \<leftarrow> tick_enum_state P enumeration (tk_sessions s) w;
            if current_state enumeration = 1 then do {
              band \<leftarrow> extra enumeration;
              (enumeration, port, w) \<leftarrow> tick_hello P now_ms enumeration band (tk_port s) w;
              let (enumeration, w) = tick_block P now_ms enumeration w;
              Some (s\<lparr>tk_enumeration := Some enumeration, tk_port := port\<rparr>, w)
            } else Some (s\<lparr>tk_enumeration := Some enumeration\<rparr>, w)
          })"

definition automata_tick :: "port \<Rightarrow> tick_state \<Rightarrow> world \<Rightarrow> (tick_state \<times> world) option" where
  "automata_tick P s w = do {
     let (now_ms, w) = lltd_monotonic_milliseconds P w;
     let (now_s, w) = lltd_monotonic_seconds P w;
     (s, w) \<leftarrow> tick_mapping P s w;
     let s = s\<lparr>tk_sessions := tick_sessions now_s (tk_sessions s)\<rparr>;
     tick_enumeration P now_ms s w
   }"

end
