(* ===== verification/LltdTickLemmas.thy ===== *)
theory LltdTickLemmas
  imports LltdTick
begin

text \<open>
  What a tick does to sessions, machines and statistics: expiry of idle sessions as a
  filter of the session map, the bounds of the RepeatBand numbers, and the invariant
  \<open>tick_ok\<close> of everything a platform loop owns.
\<close>

section \<open>Expiry of sessions\<close>

definition idle :: "u64 \<Rightarrow> session_entry \<Rightarrow> bool" where
  "idle now_s e \<longleftrightarrow> last_activity_ts e + 60 < now_s"

definition expired :: "u64 \<Rightarrow> session_entry \<Rightarrow> session_entry" where
  "expired now_s e = (if valid e \<and> idle now_s e then e\<lparr>valid := False\<rparr> else e)"

lemma expired_simps [simp]:
  "valid (expired n e) \<longleftrightarrow> valid e \<and> \<not> idle n e" "skey (expired n e) = skey e"
  "complete (expired n e) = complete e"
  "\<not> (valid e \<and> idle n e) \<Longrightarrow> expired n e = e"
  by (auto simp: expired_def skey_def)

lemma expire_entries_eq:
  "length (filter valid es) \<le> unat cnt \<Longrightarrow>
   fst (expire_entries n es cnt) = map (expired n) es \<and>
   unat (snd (expire_entries n es cnt)) + length (filter valid es) =
     unat cnt + length (filter valid (map (expired n) es))"
proof (induction es arbitrary: cnt)
  case (Cons e es)
  show ?case
  proof (cases "valid e \<and> idle n e")
    case True
    then have pos: "0 < cnt" using Cons.prems by (simp add: word_less_nat_alt)
    then have "unat (cnt - 1) = unat cnt - 1" by (metis unat_minus_one word_not_simps(1))
    with Cons.IH [of "cnt - 1"] Cons.prems True pos show ?thesis
      by (auto simp: idle_def expired_def split: prod.split)
  next
    case False
    with Cons.IH [of "cnt - (if valid e then 1 else 0)"] Cons.IH [of cnt] Cons.prems show ?thesis
      by (auto simp: idle_def expired_def split: prod.split if_splits)
  qed
qed simp

lemma unique_keys_expired:
  assumes "unique_keys es"
  shows "unique_keys (map (expired n) es)"
  using assms by (auto simp: unique_keys_def)

lemma entry_lookup_expired:
  assumes u: "unique_keys es"
  shows "entry_lookup (map (expired n) es) k =
    (case entry_lookup es k of None \<Rightarrow> None | Some e \<Rightarrow> if idle n e then None else Some e)"
proof (rule option_ext)
  fix x
  have "entry_lookup (map (expired n) es) k = Some x \<longleftrightarrow>
      (\<exists>i < length es. expired n (es ! i) = x \<and> valid x \<and> skey x = k)"
    using entry_lookup_iff [OF unique_keys_expired [OF u]] by auto
  also have "\<dots> \<longleftrightarrow> (\<exists>i < length es. es ! i = x \<and> valid x \<and> skey x = k) \<and> \<not> idle n x"
    by (auto simp: expired_def split: if_splits)
  also have "\<dots> \<longleftrightarrow> entry_lookup es k = Some x \<and> \<not> idle n x"
    using entry_lookup_iff [OF u] by simp
  finally show "entry_lookup (map (expired n) es) k = Some x \<longleftrightarrow>
      (case entry_lookup es k of None \<Rightarrow> None | Some e \<Rightarrow> if idle n e then None else Some e) = Some x"
    by (auto split: option.split)
qed

lemma tick_sessions_runs:
  assumes ok: "table_ok t"
  obtains t' where "tick_sessions n (Some t) = Some t'" "table_ok t'"
    "session_map t' = (\<lambda>k. case session_map t k of None \<Rightarrow> None
       | Some e \<Rightarrow> if idle n e then None else Some e)"
proof -
  have u: "unique_keys (entries t)" and cnt: "unat (count t) = length (filter valid (entries t))"
    using ok by (simp_all add: table_ok_def)
  obtain es c where ec: "expire_entries n (entries t) (count t) = (es, c)" by fastforce
  then have es: "es = map (expired n) (entries t)" "unat c = length (filter valid es)"
    using expire_entries_eq [of "entries t" "count t" n] cnt by simp_all
  let ?t = "t\<lparr>entries := es, count := c,
    all_complete := (\<forall>e \<in> set es. valid e \<longrightarrow> complete e)\<rparr>"
  have "tick_sessions n (Some t) = Some ?t"
    by (simp add: tick_sessions_def ec update_complete_status_eq)
  moreover have "table_ok ?t"
    using ok unique_keys_expired [OF u] es by (simp add: table_ok_def)
  moreover have "session_map ?t = (\<lambda>k. case session_map t k of None \<Rightarrow> None
       | Some e \<Rightarrow> if idle n e then None else Some e)"
    using entry_lookup_expired [OF u] es by (simp add: session_map_def fun_eq_iff)
  ultimately show ?thesis by (rule that)
qed

section \<open>Bounds of the statistics\<close>

lemma band_new_ni_le: "band_new_ni r \<le> 10000"
  by (simp add: band_new_ni_def Let_def not_less)

lemma ceil_third: "m div 3 + (if m mod 3 \<noteq> 0 then 1 else 0) = (m + 2) div 3" for m :: nat
  by presburger

lemma band_interval_eq:
  assumes "n \<le> 10000"
  shows "unat (band_interval_ms n) = max 6 ((8 * unat n + 2) div 3)"
proof -
  have n: "unat n \<le> 10000" using assms by (simp add: word_le_nat_alt)
  have cast: "unat (ucast n :: u64) = unat n" using n by (simp add: unat_ucast_mod)
  define N :: u64 where "N = 4 * ucast n * 20"
  have num: "unat N = 80 * unat n" using n by (simp add: N_def unat_word_ariths cast)
  define x where "x = N div 30 + (if N mod 30 \<noteq> 0 then 1 else 0)"
  have "N mod 30 = 0 \<longleftrightarrow> 80 * unat n mod 30 = 0"
    using word_unat_eq_iff [of "N mod 30" 0] num by (simp add: unat_mod)
  moreover have "unat (N div 30) = 80 * unat n div 30" by (simp add: unat_div num)
  moreover have "80 * unat n div 30 \<le> 800000" using n by simp
  ultimately have "unat x = 80 * unat n div 30 + (if 80 * unat n mod 30 \<noteq> 0 then 1 else 0)"
    by (simp add: x_def unat_word_ariths)
  also have "\<dots> = 8 * unat n div 3 + (if 8 * unat n mod 3 \<noteq> 0 then 1 else 0)"
    using div_mult_mult1 [of 10 "8 * unat n" 3] mult_mod_right [of 10 "8 * unat n" 3] by simp
  also have "\<dots> = (8 * unat n + 2) div 3" by (rule ceil_third)
  finally have x: "unat x = (8 * unat n + 2) div 3" .
  have "band_interval_ms n = (if x < 6 then 6 else x)"
    by (simp add: band_interval_ms_def Let_def x_def N_def BAND_MUL_FRAME_def)
  then show ?thesis using x by (auto simp: word_less_nat_alt max_def)
qed

section \<open>The invariant of a tick\<close>

definition mapping_ok :: "mapping_state automata option \<Rightarrow> bool" where
  "mapping_ok a \<longleftrightarrow> (\<forall>au. a = Some au \<longrightarrow> (\<exists>m. mapping_in m au))"

definition enumeration_ok :: "band_state automata option \<Rightarrow> bool" where
  "enumeration_ok a \<longleftrightarrow> (\<forall>au. a = Some au \<longrightarrow> (\<exists>m. enum_in m au) \<and>
     (\<forall>b. extra au = Some b \<longrightarrow> Ni b \<le> 10000))"

definition sessions_ok :: "session_table option \<Rightarrow> bool" where
  "sessions_ok s \<longleftrightarrow> (\<forall>t. s = Some t \<longrightarrow> table_ok t)"

text \<open>The Hello function never leaves its buffers.\<close>

definition port_sends :: "lltd_automata_tick_port option \<Rightarrow> bool" where
  "port_sends port \<longleftrightarrow> (\<forall>p send. port = Some p \<and> tp_send_hello p = Some send \<longrightarrow>
     (\<forall>w. send (tp_network_interface p) w \<noteq> None))"

definition tick_ok :: "tick_state \<Rightarrow> bool" where
  "tick_ok s \<longleftrightarrow> mapping_ok (tk_mapping s) \<and> enumeration_ok (tk_enumeration s) \<and>
     sessions_ok (tk_sessions s) \<and> port_sends (tk_port s)"

lemma tick_send_hello_runs:
  assumes "port_sends p"
  obtains p' w' where "tick_send_hello now p w = Some (p', w')" "port_sends p'"
proof (cases "\<exists>q send. p = Some q \<and> tp_send_hello q = Some send \<and> tp_network_interface q \<noteq> 0")
  case False
  then have "tick_send_hello now p w = Some (p, w)"
    by (auto simp: tick_send_hello_def split: option.split)
  then show ?thesis using assms by (rule that)
next
  case True
  then obtain q send where q: "p = Some q" "tp_send_hello q = Some send"
    "tp_network_interface q \<noteq> 0" by blast
  then obtain w' where "send (tp_network_interface q) w = Some w'"
    using assms by (fastforce simp: port_sends_def)
  with q assms show ?thesis
    by (intro that [of "Some (q\<lparr>tp_last_hello_tx_ms :=
          map_option (\<lambda>_. now) (tp_last_hello_tx_ms q)\<rparr>)" w'])
      (auto simp: tick_send_hello_def port_sends_def)
qed

lemma mapping_in_extra [simp]: "mapping_in m (au\<lparr>extra := x\<rparr>) = mapping_in m au"
  by (simp add: mapping_in_def)

lemma enum_in_extra [simp]: "enum_in m (au\<lparr>extra := x\<rparr>) = enum_in m au"
  by (simp add: enum_in_def)

lemma enum_in_update [simp]:
  "enum_in m (au\<lparr>current_state := enum_code m', last_ts := t\<rparr>) \<longleftrightarrow> m = m' \<and>
     transitions_table au = enumeration_transitions \<and> transitions_no au = 8 \<and>
     states_table au = enumeration_states"
  by (cases m; cases m') (auto simp: enum_in_def)

lemma enum_in_tables:
  "enum_in m au \<Longrightarrow> transitions_table au = enumeration_transitions \<and> transitions_no au = 8 \<and>
     states_table au = enumeration_states"
  by (simp add: enum_in_def)

lemma clear_sessions_ok [simp]: "sessions_ok (session_table_clear s)"
  using zero_table_ok(1) by (auto simp: sessions_ok_def session_table_clear_def)

text \<open>Whether the inactivity timer of the mapping machine has run out.\<close>

definition inactive_fires :: "port \<Rightarrow> tick_state \<Rightarrow> world \<Rightarrow> bool" where
  "inactive_fires P s w \<longleftrightarrow>
     (case tk_mapping s of None \<Rightarrow> False
      | Some au \<Rightarrow> (case extra au of None \<Rightarrow> False
        | Some m \<Rightarrow> inactive_timeout_ts m \<noteq> 0 \<and> inactive_timeout_ts m \<le> p_seconds P (w_reads w)))"

lemma switch_state_mapping_runs:
  assumes "mapping_in m au"
  obtains au' w' m' where "switch_state_mapping P au i w = Some (au', w')" "mapping_in m' au'"
    "extra au' = extra au" "w_events w' = w_events w"
    "i = -1 \<Longrightarrow> m' = Quiescent"
proof (cases "mapping_late m (p_seconds P (w_reads w) - last_ts au)")
  case True
  then show ?thesis
    using that [OF switch_state_mapping_eq [OF assms, of P i w, unfolded if_P [OF True]],
        of Quiescent] mapping_in_tables [OF assms] by (simp del: mapping_code.simps)
next
  case False
  have "i = -1 \<Longrightarrow> mapping_next m i = Quiescent" by (cases m) simp_all
  then show ?thesis
    using that [OF switch_state_mapping_eq [OF assms, of P i w, unfolded if_not_P [OF False]],
        of "mapping_next m i"] mapping_in_tables [OF assms] by (simp del: mapping_code.simps)
qed

text \<open>The same with the state it ends in.\<close>

lemma switch_mapping_mode:
  fixes P :: port and w :: world
  assumes m: "mapping_in m au"
  defines "late \<equiv> mapping_late m (p_seconds P (w_reads w) - last_ts au)"
  obtains au' w' where "switch_state_mapping P au i w = Some (au', w')"
    "mapping_in (if late then Quiescent else mapping_next m i) au'" "w_events w' = w_events w"
proof (cases late)
  case True
  from switch_state_mapping_eq [OF m, of P i w, folded late_def, unfolded if_P [OF True]] show ?thesis
    by (rule that) (use True mapping_in_tables [OF m] in \<open>simp_all del: mapping_code.simps\<close>)
next
  case False
  from switch_state_mapping_eq [OF m, of P i w, folded late_def, unfolded if_not_P [OF False]] show ?thesis
    by (rule that) (use False mapping_in_tables [OF m] in \<open>simp_all del: mapping_code.simps\<close>)
qed

lemma check_charge_runs:
  obtains fired m' w' where "mapping_check_charge_timeout P m w = (fired, m', w')"
    "w_events w' = w_events w" "m' = None \<longleftrightarrow> m = None"
  by (cases "mapping_check_charge_timeout P m w")
    (auto simp: mapping_check_charge_timeout_def Let_def split: option.splits if_splits)

lemma tick_mapping_runs:
  assumes ok: "tick_ok s"
  obtains s' w' where "tick_mapping P s w = Some (s', w')" "tick_ok s'"
    "tk_enumeration s' = tk_enumeration s" "tk_port s' = tk_port s" "w_events w' = w_events w"
    "tk_sessions s' =
       (if inactive_fires P s w then session_table_clear (tk_sessions s) else tk_sessions s)"
    "inactive_fires P s w \<Longrightarrow> \<exists>au. tk_mapping s' = Some au \<and> mapping_in Quiescent au"
    "tk_mapping s' = None \<longleftrightarrow> tk_mapping s = None"
proof (cases "\<exists>au m. tk_mapping s = Some au \<and> extra au = Some m")
  case False
  then have "tick_mapping P s w = Some (s, w)" "\<not> inactive_fires P s w"
    by (auto simp: tick_mapping_def inactive_fires_def split: option.splits)
  with ok show ?thesis by (intro that [of s w]) auto
next
  case True
  then obtain au m where au: "tk_mapping s = Some au" "extra au = Some m" by blast
  obtain md where md: "mapping_in md au" using ok au by (auto simp: tick_ok_def mapping_ok_def)
  define w1 where "w1 = snd (mapping_check_inactive_timeout P (Some m) w)"
  have chk: "mapping_check_inactive_timeout P (Some m) w = (inactive_fires P s w, w1)"
    "w_events w1 = w_events w"
    using au by (auto simp: mapping_check_inactive_timeout_def w1_def inactive_fires_def)
  show ?thesis
  proof (cases "inactive_fires P s w")
    case True
    let ?au = "au\<lparr>extra := Some (m\<lparr>inactive_timeout_ts := 0\<rparr>)\<rparr>"
    have "mapping_in md ?au" using md by simp
    then obtain au' w2 where sw: "switch_state_mapping P ?au (-1) w1 = Some (au', w2)"
      "mapping_in Quiescent au'" "w_events w2 = w_events w1"
      by (rule switch_state_mapping_runs [where P = P and i = "-1" and w = w1]) auto
    obtain fired m' w3 where cc: "mapping_check_charge_timeout P
        (mapping_reset_charge (extra au')) w2 = (fired, m', w3)" "w_events w3 = w_events w2"
      by (rule check_charge_runs)
    show ?thesis
      by (rule that [of "s\<lparr>tk_mapping := Some (au'\<lparr>extra := m'\<rparr>),
            tk_sessions := session_table_clear (tk_sessions s)\<rparr>" w3])
        (use True au chk sw cc ok in \<open>auto simp: tick_mapping_def tick_ok_def mapping_ok_def\<close>)
  next
    case False
    obtain fired m' w3 where cc: "mapping_check_charge_timeout P (Some m) w1 = (fired, m', w3)"
      "w_events w3 = w_events w1"
      by (rule check_charge_runs)
    show ?thesis
      by (rule that [of "s\<lparr>tk_mapping := Some (au\<lparr>extra := m'\<rparr>)\<rparr>" w3])
        (use False au chk cc ok md in \<open>auto simp: tick_mapping_def tick_ok_def mapping_ok_def\<close>)
  qed
qed

section \<open>The enumeration machine at a tick\<close>

lemma enum_code_0 [simp]: "enum_code m = 0 \<longleftrightarrow> m = EnumQuiescent" "enum_code m = 1 \<longleftrightarrow> m = EnumPausing"
  by (cases m; simp)+

lemma current_state_enum: "enum_in m au \<Longrightarrow> current_state au = enum_code m"
  by (simp add: enum_in_def)

text \<open>The state a tick moves the machine to.\<close>

definition enum_tick_mode :: "enum_mode \<Rightarrow> session_table option \<Rightarrow> enum_mode" where
  "enum_tick_mode m sessions =
     (if m = EnumQuiescent \<or> session_table_is_empty sessions then EnumQuiescent
      else if session_table_all_complete sessions then enum_next m 0 else enum_next m 1)"

lemma tick_enum_state_runs:
  assumes m: "enum_in m au" and b: "extra au = Some b"
  obtains au' b' w' where "tick_enum_state P au sessions w = Some (au', w')"
    "enum_in (enum_tick_mode m sessions) au'" "extra au' = Some b'" "Ni b' = Ni b"
    "w_events w' = w_events w" "enum_tick_mode m sessions \<noteq> EnumQuiescent \<Longrightarrow> b' = b"
proof -
  note cs = current_state_enum [OF m] and t = enum_in_tables [OF m]
  have quiet: "enum_in EnumQuiescent (au\<lparr>current_state := 0, extra := x\<rparr>)" for x
    using t by (simp add: enum_in_def)
  consider (q) "m = EnumQuiescent" | (e) "m \<noteq> EnumQuiescent" "session_table_is_empty sessions"
    | (s) "m \<noteq> EnumQuiescent" "\<not> session_table_is_empty sessions" by blast
  then show ?thesis
  proof cases
    case q
    then show ?thesis using m b cs
      by (intro that [of au w b]) (simp_all add: tick_enum_state_def enum_tick_mode_def)
  next
    case e
    let ?b = "b\<lparr>hello_timeout_ts := 0, block_timeout_ts := 0, begun := False\<rparr>"
    show ?thesis
      by (rule that [of "au\<lparr>current_state := 0, extra := Some ?b\<rparr>" w ?b])
        (use e b cs quiet in \<open>simp_all add: tick_enum_state_def enum_tick_mode_def\<close>)
  next
    case s
    let ?i = "if session_table_all_complete sessions then 0 else 1 :: int"
    have sw: "tick_enum_state P au sessions w = switch_state_enumeration P au ?i w"
      using s cs by (simp add: tick_enum_state_def)
    let ?au = "au\<lparr>current_state := enum_code (enum_next m ?i), last_ts := p_seconds P (w_reads w)\<rparr>"
    have "tick_enum_state P au sessions w = Some (?au, tick_read w)"
      unfolding sw by (rule switch_state_enumeration_eq [OF m])
    then show ?thesis
      by (rule that [of ?au "tick_read w" b])
        (use s b t in \<open>simp_all add: enum_tick_mode_def del: enum_next.simps\<close>)
  qed
qed

definition hello_due :: "band_state \<Rightarrow> u64 \<Rightarrow> bool" where
  "hello_due b now_ms \<longleftrightarrow> 0 < hello_timeout_ts b \<and> hello_timeout_ts b \<le> now_ms"

definition hello_allowed :: "lltd_automata_tick_port option \<Rightarrow> u64 \<Rightarrow> bool" where
  "hello_allowed p now_ms \<longleftrightarrow> tick_last_tx p = 0 \<or> 1000 \<le> now_ms - tick_last_tx p"

lemma tick_hello_runs:
  assumes m: "enum_in EnumPausing au" and b: "extra au = Some b" and sends: "port_sends p"
  obtains au' b' p' w' where "tick_hello P now au b p w = Some (au', p', w')"
    "enum_in EnumPausing au'" "extra au' = Some b'" "Ni b' = Ni b" "port_sends p'"
    "if hello_due b now \<and> hello_allowed p now
     then now + 1000 \<le> hello_timeout_ts b' \<and>
       (\<exists>w2. tick_send_hello now p w = Some (p', w2) \<and> w_events w' = w_events w2)
     else p' = p \<and> w' = w \<and>
       (hello_due b now \<longrightarrow> hello_timeout_ts b' = tick_last_tx p + 1000)"
proof -
  consider (no) "\<not> hello_due b now" | (sup) "hello_due b now" "\<not> hello_allowed p now"
    | (send) "hello_due b now" "hello_allowed p now" by blast
  then show ?thesis
  proof cases
    case no
    then show ?thesis using m b sends
      by (intro that [of au p w b]) (auto simp: tick_hello_def hello_due_def)
  next
    case sup
    then have "0 < tick_last_tx p" "now - tick_last_tx p < 1000"
      by (simp_all add: hello_allowed_def word_gt_0 not_le)
    then show ?thesis using m b sup sends
      by (intro that [of "au\<lparr>extra := Some (b\<lparr>hello_timeout_ts := tick_last_tx p + 1000\<rparr>)\<rparr>" p w
            "b\<lparr>hello_timeout_ts := tick_last_tx p + 1000\<rparr>"])
        (auto simp: tick_hello_def hello_due_def)
  next
    case send
    then have ok: "\<not> (0 < tick_last_tx p \<and> now - tick_last_tx p < 1000)"
      by (auto simp: hello_allowed_def)
    obtain p1 w1 where p1: "tick_send_hello now p w = Some (p1, w1)" "port_sends p1"
      by (rule tick_send_hello_runs [OF sends])
    define ts where "ts = p_millis P (w_reads w1) + band_interval_ms (Ni b)"
    define b1 where "b1 = (if ts < now + 1000
      then b\<lparr>hello_timeout_ts := ts, begun := True, hello_timeout_ts := now + 1000\<rparr>
      else b\<lparr>hello_timeout_ts := ts, begun := True\<rparr>)"
    have dh: "band_do_hello P (Some b) w1 = (Some (b\<lparr>hello_timeout_ts := ts, begun := True\<rparr>), tick_read w1)"
      by (simp add: band_do_hello_def band_choose_hello_time_def ts_def Let_def)
    have "enum_in EnumPausing (au\<lparr>extra := Some b1\<rparr>)" using m by simp
    note sw = switch_state_enumeration_eq [OF this, of P 2 "tick_read w1"]
    let ?au = "au\<lparr>extra := Some b1, current_state := enum_code EnumPausing,
      last_ts := p_seconds P (w_reads (tick_read w1))\<rparr>"
    have "tick_hello P now au b p w = Some (?au, p1, tick_read (tick_read w1))"
      using send ok p1 dh sw by (auto simp: tick_hello_def hello_due_def b1_def Let_def)
    moreover have "enum_in EnumPausing ?au" using enum_in_tables [OF m] by (simp add: enum_in_def)
    moreover have "now + 1000 \<le> hello_timeout_ts b1" by (auto simp: b1_def)
    ultimately show ?thesis using send p1
      by (intro that [of ?au p1 "tick_read (tick_read w1)" b1]) (simp_all add: b1_def)
  qed
qed

lemma tick_block_runs:
  assumes "extra au = Some b" "Ni b \<le> 10000"
  obtains au' b' w' where "tick_block P now au w = (au', w')" "extra au' = Some b'" "Ni b' \<le> 10000"
    "au' = au\<lparr>extra := Some b'\<rparr>" "w_events w' = w_events w"
proof (cases "0 < block_timeout_ts b \<and> block_timeout_ts b \<le> now")
  case True
  obtain b1 w1 where b1: "band_update_stats P (Some b) w = (Some b1, w1)" "Ni b1 \<le> 10000"
    "w_events w1 = w_events w"
    using assms(2) band_new_ni_le
    by (cases "band_update_stats P (Some b) w") (auto simp: band_update_stats_def Let_def)
  let ?b = "b1\<lparr>hello_timeout_ts := p_millis P (w_reads w1) + band_interval_ms (Ni b1)\<rparr>"
  have "band_choose_hello_time P (Some b1) w1 = (hello_timeout_ts ?b, Some ?b, tick_read w1)"
    by (simp add: band_choose_hello_time_def Let_def)
  with b1 True assms show ?thesis
    by (intro that [of "au\<lparr>extra := Some ?b\<rparr>" "tick_read w1" ?b]) (simp_all add: tick_block_def)
next
  case False
  with assms show ?thesis by (intro that [of au w b]) (auto simp: tick_block_def)
qed

lemma tick_send_hello_port:
  assumes "tick_send_hello now p w = Some (p', w')"
  shows "p' = p \<or> (\<exists>q. p = Some q \<and>
    p' = Some (q\<lparr>tp_last_hello_tx_ms := map_option (\<lambda>_. now) (tp_last_hello_tx_ms q)\<rparr>))"
  using assms by (auto simp: tick_send_hello_def bind_eq_Some_conv split: option.splits if_splits)

text \<open>When a tick sends a Hello, and what sending one does to the port and the events.\<close>

definition hello_now :: "u64 \<Rightarrow> tick_state \<Rightarrow> bool" where
  "hello_now now s \<longleftrightarrow> (\<exists>au b m. tk_enumeration s = Some au \<and> extra au = Some b \<and> enum_in m au \<and>
     enum_tick_mode m (tk_sessions s) = EnumPausing \<and> hello_due b now \<and>
     hello_allowed (tk_port s) now)"

definition hello_effect ::
    "u64 \<Rightarrow> lltd_automata_tick_port option \<Rightarrow> world \<Rightarrow> lltd_automata_tick_port option \<Rightarrow> world \<Rightarrow> bool"
  where "hello_effect now p w p' w' \<longleftrightarrow> (\<exists>w1. w_events w1 = w_events w \<and>
     (\<exists>w2. tick_send_hello now p w1 = Some (p', w2) \<and> w_events w' = w_events w2))"

lemma enum_in_unique: "enum_in m au \<Longrightarrow> enum_in m' au \<Longrightarrow> m' = m"
  by (cases m; cases m') (auto simp: enum_in_def)

lemma tick_enumeration_runs:
  assumes ok: "tick_ok s"
  obtains s' w' where "tick_enumeration P now s w = Some (s', w')" "tick_ok s'"
    "tk_mapping s' = tk_mapping s" "tk_sessions s' = tk_sessions s"
    "\<And>au m. tk_enumeration s = Some au \<Longrightarrow> extra au \<noteq> None \<Longrightarrow> enum_in m au \<Longrightarrow>
       \<exists>au'. tk_enumeration s' = Some au' \<and> enum_in (enum_tick_mode m (tk_sessions s)) au' \<and>
         extra au' \<noteq> None"
    "if hello_now now s then hello_effect now (tk_port s) w (tk_port s') w'
     else tk_port s' = tk_port s \<and> w_events w' = w_events w"
    "tk_enumeration s' = None \<longleftrightarrow> tk_enumeration s = None"
proof (cases "\<exists>au b. tk_enumeration s = Some au \<and> extra au = Some b")
  case False
  with ok show ?thesis
    by (intro that [of s w]) (auto simp: tick_enumeration_def hello_now_def split: option.splits)
next
  case True
  then obtain au b where au: "tk_enumeration s = Some au" "extra au = Some b" by blast
  then obtain m where m: "enum_in m au" "Ni b \<le> 10000"
    using ok by (auto simp: tick_ok_def enumeration_ok_def)
  note uniq = enum_in_unique [OF m(1)]
  let ?m = "enum_tick_mode m (tk_sessions s)"
  have now_iff: "hello_now now s \<longleftrightarrow> ?m = EnumPausing \<and> hello_due b now \<and> hello_allowed (tk_port s) now"
    using au m by (auto simp: hello_now_def dest: uniq)
  obtain au1 b1 w1 where 1: "tick_enum_state P au (tk_sessions s) w = Some (au1, w1)"
    "enum_in ?m au1" "extra au1 = Some b1" "Ni b1 = Ni b" "w_events w1 = w_events w"
    "?m \<noteq> EnumQuiescent \<Longrightarrow> b1 = b"
    by (rule tick_enum_state_runs [OF m(1) au(2), where P = P and sessions = "tk_sessions s" and w = w]) blast
  show ?thesis
  proof (cases "?m = EnumPausing")
    case False
    then have "current_state au1 \<noteq> 1" using current_state_enum [OF 1(2)] by simp
    then show ?thesis using au 1 m ok False
      by (intro that [of "s\<lparr>tk_enumeration := Some au1\<rparr>" w1])
        (auto simp: tick_enumeration_def tick_ok_def enumeration_ok_def now_iff dest: uniq)
  next
    case True
    then have b1: "b1 = b" using 1(6) by simp
    have sends: "port_sends (tk_port s)" using ok by (simp add: tick_ok_def)
    obtain au2 b2 p2 w2 where 2: "tick_hello P now au1 b1 (tk_port s) w1 = Some (au2, p2, w2)"
      "enum_in EnumPausing au2" "extra au2 = Some b2" "Ni b2 = Ni b1" "port_sends p2"
      "if hello_due b1 now \<and> hello_allowed (tk_port s) now
       then now + 1000 \<le> hello_timeout_ts b2 \<and>
         (\<exists>w3. tick_send_hello now (tk_port s) w1 = Some (p2, w3) \<and> w_events w2 = w_events w3)
       else p2 = tk_port s \<and> w2 = w1 \<and>
         (hello_due b1 now \<longrightarrow> hello_timeout_ts b2 = tick_last_tx (tk_port s) + 1000)"
      by (rule tick_hello_runs [OF 1(2) [unfolded True] 1(3) sends])
    obtain au3 b3 w3 where 3: "tick_block P now au2 w2 = (au3, w3)" "extra au3 = Some b3"
      "Ni b3 \<le> 10000" "au3 = au2\<lparr>extra := Some b3\<rparr>" "w_events w3 = w_events w2"
      by (rule tick_block_runs [OF 2(3)]) (use 1 2 m in auto)
    have cur: "current_state au1 = 1" using current_state_enum [OF 1(2)] True by simp
    have in3: "enum_in EnumPausing au3" using 2(2) 3(4) by simp
    have run: "tick_enumeration P now s w =
        Some (s\<lparr>tk_enumeration := Some au3, tk_port := p2\<rparr>, w3)"
      using au 1 2 3(1) cur by (simp add: tick_enumeration_def)
    have eff: "if hello_now now s then hello_effect now (tk_port s) w p2 w3
        else p2 = tk_port s \<and> w_events w3 = w_events w"
      using 2(6) 1(5) 3(5) True by (auto simp: now_iff b1 hello_effect_def)
    show ?thesis
      by (rule that [OF run]) (use ok in3 3 True au eff 2(5) in
        \<open>auto simp: tick_ok_def enumeration_ok_def dest: uniq\<close>)
  qed
qed

section \<open>The whole tick\<close>

text \<open>What the table holds after a tick that read \<open>now_s\<close> seconds.\<close>

definition sessions_after :: "bool \<Rightarrow> u64 \<Rightarrow> session_table \<Rightarrow> session_key \<rightharpoonup> session_entry" where
  "sessions_after fired now_s t =
     (if fired then Map.empty
      else (\<lambda>k. case session_map t k of None \<Rightarrow> None
              | Some e \<Rightarrow> if idle now_s e then None else Some e))"

lemma automata_tick_runs:
  assumes ok: "tick_ok s"
  obtains s' w' where "automata_tick P s w = Some (s', w')" "tick_ok s'"
    "\<And>t. tk_sessions s = Some t \<Longrightarrow> \<exists>t'. tk_sessions s' = Some t' \<and> table_ok t' \<and>
       session_map t' = sessions_after (inactive_fires P s (tick_read (tick_read w)))
         (p_seconds P (Suc (w_reads w))) t"
    "tk_sessions s = None \<Longrightarrow> tk_sessions s' = None"
    "\<And>au m. tk_enumeration s = Some au \<Longrightarrow> extra au \<noteq> None \<Longrightarrow> enum_in m au \<Longrightarrow>
       \<exists>au'. tk_enumeration s' = Some au' \<and> enum_in (enum_tick_mode m (tk_sessions s')) au' \<and>
         extra au' \<noteq> None"
    "inactive_fires P s (tick_read (tick_read w)) \<Longrightarrow>
       \<exists>au. tk_mapping s' = Some au \<and> mapping_in Quiescent au"
    "if hello_now (p_millis P (w_reads w)) (s\<lparr>tk_sessions := tk_sessions s'\<rparr>)
     then hello_effect (p_millis P (w_reads w)) (tk_port s) w (tk_port s') w'
     else tk_port s' = tk_port s \<and> w_events w' = w_events w"
    "tk_mapping s' = None \<longleftrightarrow> tk_mapping s = None"
    "tk_enumeration s' = None \<longleftrightarrow> tk_enumeration s = None"
proof -
  let ?now = "p_millis P (w_reads w)" and ?s = "p_seconds P (Suc (w_reads w))"
    and ?w = "tick_read (tick_read w)"
  let ?fires = "inactive_fires P s ?w"
  obtain s1 w1 where 1: "tick_mapping P s ?w = Some (s1, w1)" "tick_ok s1"
    "tk_enumeration s1 = tk_enumeration s" "tk_port s1 = tk_port s" "w_events w1 = w_events ?w"
    "tk_sessions s1 = (if ?fires then session_table_clear (tk_sessions s) else tk_sessions s)"
    "?fires \<Longrightarrow> \<exists>au. tk_mapping s1 = Some au \<and> mapping_in Quiescent au"
    "tk_mapping s1 = None \<longleftrightarrow> tk_mapping s = None"
    by (rule tick_mapping_runs [OF ok, where P = P and w = ?w]) (rule that)
  define s2 where "s2 = s1\<lparr>tk_sessions := tick_sessions ?s (tk_sessions s1)\<rparr>"
  have table: "\<exists>t'. tk_sessions s2 = Some t' \<and> table_ok t' \<and> session_map t' = sessions_after ?fires ?s t"
    if t: "tk_sessions s = Some t" for t
  proof -
    obtain t1 where t1: "tk_sessions s1 = Some t1" "table_ok t1"
      "session_map t1 = (if ?fires then Map.empty else session_map t)"
    proof (cases ?fires)
      case True
      then show ?thesis using 1(6) t zero_table_ok that
        by (simp add: session_table_clear_def)
    next
      case False
      then show ?thesis using 1(6) t ok that by (simp add: tick_ok_def sessions_ok_def)
    qed
    obtain t2 where "tick_sessions ?s (Some t1) = Some t2" "table_ok t2"
      "session_map t2 = (\<lambda>k. case session_map t1 k of None \<Rightarrow> None
         | Some e \<Rightarrow> if idle ?s e then None else Some e)"
      by (rule tick_sessions_runs [OF t1(2)])
    with t1 show ?thesis by (auto simp: s2_def sessions_after_def)
  qed
  have none: "tk_sessions s = None \<Longrightarrow> tk_sessions s2 = None"
    using 1(6) by (auto simp: s2_def tick_sessions_def session_table_clear_def)
  have ok2: "tick_ok s2"
    using 1(2) table none
    by (cases "tk_sessions s") (auto simp: tick_ok_def sessions_ok_def s2_def)
  obtain s' w' where 2: "tick_enumeration P ?now s2 w1 = Some (s', w')" "tick_ok s'"
    "tk_mapping s' = tk_mapping s2" "tk_sessions s' = tk_sessions s2"
    "\<And>au m. tk_enumeration s2 = Some au \<Longrightarrow> extra au \<noteq> None \<Longrightarrow> enum_in m au \<Longrightarrow>
       \<exists>au'. tk_enumeration s' = Some au' \<and> enum_in (enum_tick_mode m (tk_sessions s2)) au' \<and>
         extra au' \<noteq> None"
    "if hello_now ?now s2 then hello_effect ?now (tk_port s2) w1 (tk_port s') w'
     else tk_port s' = tk_port s2 \<and> w_events w' = w_events w1"
    "tk_enumeration s' = None \<longleftrightarrow> tk_enumeration s2 = None"
    by (rule tick_enumeration_runs [OF ok2, where P = P and now = ?now and w = w1]) (rule that)
  have "hello_now ?now s2 = hello_now ?now (s\<lparr>tk_sessions := tk_sessions s'\<rparr>)"
    using 1 2(4) by (simp add: hello_now_def s2_def)
  then have eff: "if hello_now ?now (s\<lparr>tk_sessions := tk_sessions s'\<rparr>)
     then hello_effect ?now (tk_port s) w (tk_port s') w'
     else tk_port s' = tk_port s \<and> w_events w' = w_events w"
    using 2(6) 1(4,5) by (auto simp: s2_def hello_effect_def)
  have run: "automata_tick P s w = Some (s', w')"
    using 1(1) 2(1) by (simp add: automata_tick_def s2_def Let_def)
  show ?thesis
    by (rule that [OF run 2(2)])
      (use 1(3,7,8) 2(3,4,5,7) table none eff in \<open>auto simp: s2_def\<close>)
qed

end
