(* ===== verification/LltdAutomataProps.thy ===== *)
theory LltdAutomataProps
  imports LltdTickLemmas LltdPosixPort
begin

text \<open>
  The properties of lltdAutomata.c: the machines refine their versions on named states, a
  switch of the session machine returns exactly when the clock calms down, the session
  table is a finite map, the event classification, the bounds of the RepeatBand numbers,
  and the tick with everything it keeps.
\<close>

section \<open>The machines\<close>

text \<open>
  C18.  A switch of the mapping machine always returns and keeps its extra state.  Quiescent
  never times out; Command does not after one second and does after more than 5, Emit does
  after more than 30 seconds.  A machine that has timed out goes to Quiescent and the input
  is lost; otherwise it takes the transition the named machine takes, and unknown inputs
  leave the state as it is.  (Nothing is said of a Command state that has lasted 2 to 5
  seconds, nor of a Reset in the Emit state: there the code and its documentation differ.)
\<close>

theorem mapping_switch_refines:
  fixes P :: port and w :: world and au :: "'x automata"
  assumes "mapping_in m au"
  defines "elapsed \<equiv> p_seconds P (w_reads w) - last_ts au"
  assumes "m = Command \<Longrightarrow> elapsed \<le> 1 \<or> 5 < elapsed"
    and "m = Emitting \<Longrightarrow> input \<noteq> uint (opcode_reset :: u8)"
  shows "\<exists>au' w'. switch_state_mapping P au input w = Some (au', w') \<and> extra au' = extra au \<and>
    mapping_in
      (if m = Command \<and> 5 < elapsed \<or> m = Emitting \<and> 30 < elapsed then Quiescent
       else mapping_next m input) au'"
proof -
  have "mapping_late m elapsed \<longleftrightarrow> m = Command \<and> 5 < elapsed \<or> m = Emitting \<and> 30 < elapsed"
    by (cases m) simp_all
  then show ?thesis
    using mapping_in_tables [OF assms(1)]
    by (simp add: switch_state_mapping_eq [OF assms(1)] elapsed_def del: mapping_code.simps)
qed

definition demo_mapping :: "mapping_state automata" where
  "demo_mapping = \<lparr>last_ts = 0, current_state = 1, transitions_table = mapping_transitions,
     transitions_no = 13, states_table = mapping_states, states_no = 3,
     automata_name = ''Mapping'', extra = Some \<lparr>ctc = 1, charge_timeout_ts = 5,
     inactive_timeout_ts = 7\<rparr>\<rparr>"

text \<open>A platform whose clock gains one second with every reading.\<close>

definition steady_os :: os_env where
  "steady_os = \<lparr>os_little_endian = True, os_clock_gettime = (\<lambda>i. Some (of_nat i, 0)),
     os_time = (\<lambda>i. 0), os_malloc = (\<lambda>i n. True), os_gethostname = None\<rparr>"

lemma steady_seconds: "p_seconds (posix_port steady_os) i = of_nat i"
  by (simp add: posix_port_def posix_monotonic_seconds_def steady_os_def)

theorem mapping_switch_refines_witness:
  "\<exists>au' w'. switch_state_mapping (posix_port steady_os) demo_mapping 2 world0 = Some (au', w') \<and>
     extra au' = extra demo_mapping \<and>
     mapping_in
       (if Command = Command \<and> 5 < p_seconds (posix_port steady_os) (w_reads world0) - last_ts demo_mapping \<or>
           Command = Emitting \<and> 30 < p_seconds (posix_port steady_os) (w_reads world0) - last_ts demo_mapping
        then Quiescent else mapping_next Command 2) au'"
  by (rule mapping_switch_refines)
    (simp_all add: mapping_in_def demo_mapping_def steady_seconds world0_def)

text \<open>
  A switch of the enumeration machine always returns and takes the transition of the
  named machine; the timeouts of its state table play no role.
\<close>

theorem enumeration_switch_refines:
  assumes "enum_in m au"
  shows "\<exists>au' w'. switch_state_enumeration P au input w = Some (au', w') \<and> extra au' = extra au \<and>
    enum_in (enum_next m input) au' \<and> last_ts au' = p_seconds P (w_reads w)"
  using enum_in_tables [OF assms]
  by (simp add: switch_state_enumeration_eq [OF assms] del: enum_code.simps)

definition demo_band :: band_state where
  "demo_band = \<lparr>Ni = 45, band_r = 3, begun = True, hello_timeout_ts = 10, block_timeout_ts = 300\<rparr>"

definition demo_enumeration :: "band_state automata" where
  "demo_enumeration = \<lparr>last_ts = 0, current_state = 1, transitions_table = enumeration_transitions,
     transitions_no = 8, states_table = enumeration_states, states_no = 3,
     automata_name = ''RepeatBand'', extra = Some demo_band\<rparr>"

lemma demo_enumeration_in: "enum_in EnumPausing demo_enumeration"
  by (simp add: enum_in_def demo_enumeration_def)

theorem enumeration_switch_refines_witness:
  "\<exists>au' w'. switch_state_enumeration (posix_port steady_os) demo_enumeration 0 world0 =
       Some (au', w') \<and> extra au' = extra demo_enumeration \<and>
     enum_in (enum_next EnumPausing 0) au' \<and>
     last_ts au' = p_seconds (posix_port steady_os) (w_reads world0)"
  by (rule enumeration_switch_refines [OF demo_enumeration_in])

text \<open>
  C19.  Every state of the session machine times out after one second, and a switch that
  finds a timeout switches again.  It returns as soon as the clock, from some reading on,
  gains at most one second between two readings; with a timeout on the way the machine ends
  in Nascent, without one it takes the transition of the named machine.
\<close>

theorem session_switch_returns:
  assumes m: "session_in m au" and steady: "w_reads w \<le> k"
    "p_seconds P (Suc k) - p_seconds P k \<le> 1"
  shows "\<exists>au' w'. switch_state_session P au input w = Some (au', w') \<and>
    session_in (if 1 < p_seconds P (w_reads w) - last_ts au then Nascent
                else session_next m input) au' \<and> w_reads w' \<le> Suc (Suc k)"
  by (rule session_switch_runs [OF assms])

definition demo_session :: "unit automata" where
  "demo_session = \<lparr>last_ts = 0, current_state = 2, transitions_table = session_transitions,
     transitions_no = 16, states_table = session_states, states_no = 4,
     automata_name = ''Session'', extra = None\<rparr>"

lemma demo_session_in: "session_in Pending demo_session"
  by (simp add: session_in_def demo_session_def)

theorem session_switch_returns_witness:
  "\<exists>au' w'. switch_state_session (posix_port steady_os) demo_session 3 world0 = Some (au', w') \<and>
     session_in (if 1 < p_seconds (posix_port steady_os) (w_reads world0) - last_ts demo_session
       then Nascent else session_next Pending 3) au' \<and> w_reads w' \<le> Suc (Suc 5)"
  by (rule session_switch_returns [OF demo_session_in])
    (simp_all add: steady_seconds world0_def)

text \<open>
  The recursion is unbounded: on a platform where every reading of the clock is more
  than one second after the one before, a switch of a session machine that has timed out
  never returns.
\<close>

theorem session_switch_diverges:
  fixes P :: port and au :: "'x automata"
  assumes "session_in m au" "1 < p_seconds P (w_reads w) - last_ts au"
    and "\<And>i. 1 < p_seconds P (Suc i) - p_seconds P i"
  shows "switch_state_session P au input w = None"
proof (rule ccontr)
  assume "switch_state_session P au input w \<noteq> None"
  then obtain y where y: "switch_state_session P au input w = Some y" by blast
  define late where "late = (\<lambda>(((P :: port, au :: 'x automata), input :: int), w :: world).
    (\<exists>m. session_in m au) \<and> 1 < p_seconds P (w_reads w) - last_ts au \<and>
    (\<forall>i. 1 < p_seconds P (Suc i) - p_seconds P i))"
  have "\<not> late (((P, au), input), w)"
  proof (rule switch_state_session.raw_induct [where ?Pa = "\<lambda>x y. \<not> late x", OF _ y])
    fix rec and P :: port and au :: "'x automata" and input :: int and w :: world and y
    assume IH: "\<And>au input w b y. rec au input w b = Some y \<Longrightarrow> \<not> late (((au, input), w), b)"
      and run: "switch_once P au input w \<bind> (\<lambda>((autom, timed_out), w).
        if timed_out then rec P autom (- 1) w else Some (autom, w)) = Some y"
    show "\<not> late (((P, au), input), w)"
    proof
      assume late: "late (((P, au), input), w)"
      then obtain m where m: "session_in m au" by (auto simp: late_def)
      let ?au = "au\<lparr>current_state := session_code Nascent, last_ts := p_seconds P (w_reads w)\<rparr>"
      have "session_in Nascent ?au" using session_in_tables [OF m] by (simp only: session_in_update)
      then have "late (((P, ?au), -1), tick_read w)" using late by (auto simp: late_def)
      moreover have "rec P ?au (-1) (tick_read w) = Some y"
        using run late by (simp add: late_def switch_once_session [OF m] session_next_timeout)
      ultimately show False using IH by blast
    qed
  qed
  with assms show False by (auto simp: late_def)
qed

definition jumpy_os :: os_env where
  "jumpy_os = steady_os\<lparr>os_clock_gettime := (\<lambda>i. Some (2 + 2 * of_nat i, 0))\<rparr>"

lemma jumpy_seconds: "p_seconds (posix_port jumpy_os) i = 2 + 2 * of_nat i"
  by (simp add: posix_port_def posix_monotonic_seconds_def jumpy_os_def)

theorem session_switch_diverges_witness:
  "switch_state_session (posix_port jumpy_os) demo_session 3 world0 = None"
  by (rule session_switch_diverges [OF demo_session_in])
    (simp_all add: jumpy_seconds world0_def demo_session_def)

section \<open>The session table\<close>

text \<open>
  C16.  Adding a session makes exactly that session present: a known one gets the new
  sequence number and time stamp and keeps the rest, a new one starts incomplete, and all
  others stay.  It fails only for a new session in a table of 16.
\<close>

theorem session_add_updates_map:
  assumes "table_ok t"
  shows "(\<exists>i t' w'. session_table_add P (Some t) (Some m) g seq w = (Some i, Some t', w') \<and>
      table_ok t' \<and>
      session_map t' = (session_map t)((m, g) \<mapsto>
        touch (m, g) seq (p_seconds P (w_reads w)) (session_map t (m, g)))) \<or>
    (session_table_add P (Some t) (Some m) g seq w = (None, Some t, w) \<and>
      session_map t (m, g) = None \<and> count t = 16)"
  by (rule add_cases [OF assms, of m g P seq w]) (auto simp: touch_def)

definition demo_table :: session_table where
  "demo_table = \<lparr>entries = replicate 16 zero_entry, count = 0, all_complete = True\<rparr>"

lemma demo_table_ok: "table_ok demo_table" "session_map demo_table = Map.empty"
  using zero_table_ok by (simp_all add: demo_table_def)

theorem session_add_updates_map_witness:
  "(\<exists>i t' w'. session_table_add (posix_port steady_os) (Some demo_table) (Some zero_mac) 5 9 world0 =
       (Some i, Some t', w') \<and> table_ok t' \<and>
      session_map t' = (session_map demo_table)((zero_mac, 5) \<mapsto>
        touch (zero_mac, 5) 9 (p_seconds (posix_port steady_os) (w_reads world0))
          (session_map demo_table (zero_mac, 5)))) \<or>
    (session_table_add (posix_port steady_os) (Some demo_table) (Some zero_mac) 5 9 world0 =
       (None, Some demo_table, world0) \<and>
      session_map demo_table (zero_mac, 5) = None \<and> count demo_table = 16)"
  by (rule session_add_updates_map [OF demo_table_ok(1)])

text \<open>
  Whoever adds a session and removes it again has the table it started with, as far as
  lookups can tell: the slots may differ, the sessions do not, and the emptiness test is
  right on either side.
\<close>

theorem session_remove_undoes_add:
  assumes "table_ok t" "session_table_find (Some t) (Some m) g 0 = None"
    and "session_table_add P (Some t) (Some m) g seq w = (Some i, Some t', w')"
  shows "\<exists>t''. session_table_remove (Some t') (Some m) g = Some t'' \<and> table_ok t'' \<and>
    \<not> session_table_is_empty (Some t') \<and>
    (\<forall>m' g'. map_option ((!) (entries t'')) (session_table_find (Some t'') (Some m') g' 0) =
       map_option ((!) (entries t)) (session_table_find (Some t) (Some m') g' 0))"
proof -
  have add: "table_add P w (m, g) seq t = Some t'" using assms(3) by (simp add: table_add_def)
  have none: "table_find t (m, g) = None" using assms(2) by (simp add: table_find_def)
  have ok': "table_ok t'" using table.add_abs [OF assms(1) add] by blast
  obtain t'' where t'': "session_table_remove (Some t') (Some m) g = Some t''" "table_ok t''"
    by (rule remove_runs [OF ok', of m g])
  then have "table_remove (m, g) t' = t''" by (simp add: table_remove_def)
  then have "table_find t'' k = table_find t k" for k
    using table.remove_undoes_add [OF assms(1) none add, of k] by simp
  then have "table_find t'' (m', g') = table_find t (m', g')" for m' g' by blast
  with t'' table.not_empty_after_add [OF assms(1) add] show ?thesis
    by (auto simp: table_find_def)
qed

theorem session_remove_undoes_add_witness:
  "\<exists>i t' w'. session_table_add (posix_port steady_os) (Some demo_table) (Some zero_mac) 5 9 world0 =
      (Some i, Some t', w') \<and>
    (\<exists>t''. session_table_remove (Some t') (Some zero_mac) 5 = Some t'' \<and> table_ok t'' \<and>
      \<not> session_table_is_empty (Some t') \<and>
      (\<forall>m' g'. map_option ((!) (entries t'')) (session_table_find (Some t'') (Some m') g' 0) =
         map_option ((!) (entries demo_table)) (session_table_find (Some demo_table) (Some m') g' 0)))"
proof -
  have none: "session_table_find (Some demo_table) (Some zero_mac) 5 0 = None"
    using demo_table_ok by (simp add: find_NoneD)
  have "count demo_table \<noteq> 16" by (simp add: demo_table_def)
  then obtain i t' w' where a: "session_table_add (posix_port steady_os) (Some demo_table)
      (Some zero_mac) 5 9 world0 = (Some i, Some t', w')"
    by (rule_tac add_cases [OF demo_table_ok(1), of zero_mac 5 "posix_port steady_os" 9 world0])
      (auto simp: demo_table_ok)
  with session_remove_undoes_add [OF demo_table_ok(1) none a] show ?thesis by blast
qed

section \<open>Session events\<close>

text \<open>
  C17.  A Discover whose generation the table holds for no other mapper is classified by two
  questions: whether it acknowledges the station (no stations listed, or ours among them)
  and whether the table knows the mapper and generation under another sequence number.
\<close>

theorem discover_event_classified:
  fixes h :: lltd_demultiplex_header_t
  assumes "load_demux_header le f = Some h" "opcode h = opcode_discover"
    and "drop 32 f = discover_body gen ss @ rest" "length ss < 65536"
    and "\<And>m. m \<noteq> realSource h \<Longrightarrow> session_map t (m, gen) = None"
  shows "derive_session_event le (Some f) (Some t) (Some mac) = Some
    (let acking = (ss = [] \<or> mac \<in> source ` set ss);
         changed = (case session_map t (realSource h, gen) of None \<Rightarrow> False
           | Some e \<Rightarrow> seq_number e \<noteq> lltd_ntohs le (seqNumber h))
     in if acking then (if changed then uint (sess_discover_acking_chgd_xid :: u8)
          else uint (sess_discover_acking :: u8))
        else (if changed then uint (sess_discover_noack_chgd_xid :: u8)
          else uint (sess_discover_noack :: u8)))"
  using derive_discover [OF assms(1-4)] by (simp add: Let_def)

definition demo_discover :: "u8 list" where
  "demo_discover = demux_bytes EthernetBroadcast zero_mac lltdEtherType 1 0 0 0 zero_mac zero_mac 7 @
     discover_body 3 []"

definition demo_discover_header :: lltd_demultiplex_header_t where
  "demo_discover_header = the (load_demux_header True demo_discover)"

lemma demo_discover_loads: "load_demux_header True demo_discover = Some demo_discover_header"
  "opcode demo_discover_header = 0" "realSource demo_discover_header = zero_mac"
  "load_u16 True demo_discover 32 = Some 0x0300" "load_u16 True demo_discover 34 = Some 0"
proof -
  show "load_u16 True demo_discover 32 = Some 0x0300" "load_u16 True demo_discover 34 = Some 0"
    by code_simp+
qed (simp_all add: demo_discover_header_def demo_discover_def load_demux_bytes discover_body_def)

theorem discover_event_classified_witness:
  "derive_session_event True (Some demo_discover) (Some demo_table) (Some zero_mac) = Some
    (let acking = (([] :: ethernet_header_t list) = [] \<or> zero_mac \<in> source ` set ([] :: ethernet_header_t list));
         changed = (case session_map demo_table (realSource demo_discover_header, 3) of None \<Rightarrow> False
           | Some e \<Rightarrow> seq_number e \<noteq> lltd_ntohs True (seqNumber demo_discover_header))
     in if acking then (if changed then uint (sess_discover_acking_chgd_xid :: u8)
          else uint (sess_discover_acking :: u8))
        else (if changed then uint (sess_discover_noack_chgd_xid :: u8)
          else uint (sess_discover_noack :: u8)))"
  by (rule discover_event_classified [where ss = "[]" and gen = 3 and rest = "[]"
        and h = demo_discover_header and f = demo_discover and le = True and t = demo_table
        and mac = zero_mac])
    (simp_all add: demo_discover_header_def demo_discover_def load_demux_bytes discover_body_def
      demo_table_ok(2))

text \<open>
  No frame is ever classified as a conflicting Discover: the entry the table returns
  for a mapper is always an entry of that mapper, so the test for a conflict cannot succeed
  and the Temporary state of the session machine is never entered by a frame.
\<close>

theorem conflicting_discover_unreachable:
  assumes "derive_session_event le frame table mac = Some v"
  shows "v \<noteq> 0 \<and> (session_in Nascent (au :: 'x automata) \<longrightarrow> session_next Nascent v \<noteq> Temporary)"
  using derive_never_conflicting [OF assms] by simp

theorem conflicting_discover_unreachable_witness:
  "(-1 :: int) \<noteq> 0 \<and> (session_in Nascent demo_session \<longrightarrow> session_next Nascent (-1) \<noteq> Temporary)"
  by (rule conflicting_discover_unreachable [where le = True and frame = None and table = None
        and mac = None]) (simp add: derive_session_event_def)

end
