(* ===== verification/LltdTickProps.thy ===== *)
theory LltdTickProps
  imports LltdAutomataProps
begin

text \<open>
  The properties of the RepeatBand statistics and of \<open>automata_tick\<close>: exact values and
  bounds, the invariant, expiry of sessions, the inactivity timeout, and when a tick sends
  a Hello.
\<close>

section \<open>RepeatBand\<close>

lemma unat_alpha_square: "unat (BAND_ALPHA * (r * r) :: u32) = 45 * (unat r)\<^sup>2 mod 2 ^ 32"
proof -
  have "45 * (r * r) = of_nat (45 * (unat r)\<^sup>2)" by (simp add: power2_eq_square)
  then have "unat (45 * (r * r)) = take_bit 32 (45 * (unat r)\<^sup>2)"
    by (simp only: unsigned_of_nat) simp
  then show ?thesis by (simp only: take_bit_eq_mod)
qed

lemma band_new_ni_eq: "unat (band_new_ni r) = min 10000 (45 * (unat r)\<^sup>2 mod 2 ^ 32)"
proof -
  have "band_new_ni r = (if 10000 < BAND_ALPHA * (r * r) then 10000 else BAND_ALPHA * (r * r))"
    by (simp add: band_new_ni_def Let_def numeral_2_eq_2)
  then show ?thesis using unat_alpha_square [of r] by (auto simp: word_less_nat_alt)
qed

text \<open>
  C20.  At the end of a block of an enumeration that has begun and in which at least one and
  at most 9769 Hellos were heard, the estimate of the number of stations becomes 45 times
  the square of the Hellos heard, at most 10000; the counter of Hellos starts again at zero,
  the next block ends 300 milliseconds from now, and nothing else changes.
\<close>

theorem band_update_exact:
  assumes "0 < band_r b" "begun b" "band_r b < 9770"
  shows "\<exists>b' w'. band_update_stats P (Some b) w = (Some b', w') \<and>
    unat (Ni b') = min 10000 (45 * (unat (band_r b))\<^sup>2) \<and>
    b' = b\<lparr>Ni := Ni b', band_r := 0, block_timeout_ts := p_millis P (w_reads w) + 300\<rparr>"
proof -
  have "unat (band_r b) \<le> 9769" using assms(3) by (simp add: word_less_nat_alt)
  then have "(unat (band_r b))\<^sup>2 \<le> 9769\<^sup>2" by (intro power_mono) auto
  then have "45 * (unat (band_r b))\<^sup>2 mod 2 ^ 32 = 45 * (unat (band_r b))\<^sup>2" by simp
  then show ?thesis using assms band_new_ni_eq [of "band_r b"]
    by (simp add: band_update_stats_def Let_def)
qed

theorem band_update_exact_witness:
  "\<exists>b' w'. band_update_stats (posix_port steady_os) (Some demo_band) world0 = (Some b', w') \<and>
    unat (Ni b') = min 10000 (45 * (unat (band_r demo_band))\<^sup>2) \<and>
    b' = demo_band\<lparr>Ni := Ni b', band_r := 0,
      block_timeout_ts := p_millis (posix_port steady_os) (w_reads world0) + 300\<rparr>"
  by (rule band_update_exact) (simp_all add: demo_band_def)

text \<open>
  Beyond that the product wraps before the cap is applied: 65536 Hellos in one block give
  the estimate 0.
\<close>

lemma band_update_wraps:
  "fst (band_update_stats P (Some (demo_band\<lparr>band_r := 65536\<rparr>)) w) =
     Some (demo_band\<lparr>band_r := 0, Ni := 0,
       block_timeout_ts := p_millis P (w_reads w) + 300\<rparr>)"
proof -
  have "band_new_ni 65536 = 0" by code_simp
  then show ?thesis by (simp add: band_update_stats_def Let_def demo_band_def)
qed

text \<open>
  The time of the next Hello is the current time plus 8/3 milliseconds per estimated
  station, rounded up, and at least 6 milliseconds; with an estimate within its cap it is at
  most 26667 milliseconds away.
\<close>

theorem hello_time_bounds:
  assumes "Ni b \<le> 10000"
  shows "\<exists>b' w' d. band_choose_hello_time P (Some b) w = (hello_timeout_ts b', Some b', w') \<and>
    hello_timeout_ts b' = p_millis P (w_reads w) + d \<and>
    unat d = max 6 ((8 * unat (Ni b) + 2) div 3) \<and> 6 \<le> unat d \<and> unat d \<le> 26667"
proof -
  have "unat (Ni b) \<le> 10000" using assms by (simp add: word_le_nat_alt)
  then show ?thesis
    using band_interval_eq [OF assms] by (auto simp: band_choose_hello_time_def Let_def)
qed

theorem hello_time_bounds_witness:
  "\<exists>b' w' d. band_choose_hello_time (posix_port steady_os) (Some demo_band) world0 =
      (hello_timeout_ts b', Some b', w') \<and>
    hello_timeout_ts b' = p_millis (posix_port steady_os) (w_reads world0) + d \<and>
    unat d = max 6 ((8 * unat (Ni demo_band) + 2) div 3) \<and> 6 \<le> unat d \<and> unat d \<le> 26667"
  by (rule hello_time_bounds) (simp add: demo_band_def)

section \<open>The tick\<close>

definition demo_tick_state :: tick_state where
  "demo_tick_state = \<lparr>tk_mapping = Some demo_mapping, tk_enumeration = Some demo_enumeration,
     tk_sessions = Some demo_table, tk_port = None\<rparr>"

lemma demo_mapping_in: "mapping_in Command demo_mapping"
  by (simp add: mapping_in_def demo_mapping_def)

lemma demo_tick_ok: "tick_ok demo_tick_state"
  using demo_mapping_in demo_enumeration_in demo_table_ok(1)
  by (auto simp: tick_ok_def mapping_ok_def enumeration_ok_def sessions_ok_def port_sends_def demo_tick_state_def
      demo_enumeration_def demo_band_def)

text \<open>
  C13.  A tick always returns, whatever the clock and the machines do, provided the Hello
  function keeps to its buffers, and it keeps the invariant: machines in named states, the estimate within its cap, a
  session table without duplicates and with a right counter and summary flag.
\<close>

theorem tick_keeps_invariant:
  assumes "tick_ok s"
  shows "\<exists>s' w'. automata_tick P s w = Some (s', w') \<and> tick_ok s'"
  by (rule automata_tick_runs [OF assms, of P w]) blast

theorem tick_keeps_invariant_witness:
  "\<exists>s' w'. automata_tick (posix_port steady_os) demo_tick_state world0 = Some (s', w') \<and> tick_ok s'"
  by (rule tick_keeps_invariant [OF demo_tick_ok])

text \<open>
  C15.  As long as the inactivity timer of the mapping machine has not run out, a tick drops
  every session idle for more than 60 seconds and keeps every session used within the last
  second with all its fields; it adds none, changes none of those it keeps, and afterwards
  the table reports itself empty exactly when no session is left.  (The clock is at least a
  minute below its 64-bit limit.  Nothing is said here of a session idle for 2 to 60
  seconds, on which the code and its documentation differ.)
\<close>

theorem tick_expires_idle_sessions:
  assumes "tick_ok s" "tk_sessions s = Some t"
    and "\<not> inactive_fires P s (tick_read (tick_read w))"
  defines "now \<equiv> unat (p_seconds P (Suc (w_reads w)))"
  assumes clock: "now + 60 < 2 ^ 64"
  shows "\<exists>s' w' t'. automata_tick P s w = Some (s', w') \<and> tk_sessions s' = Some t' \<and>
    (\<forall>k e. session_map t k = Some e \<and> unat (last_activity_ts e) + 60 < now \<longrightarrow>
       session_map t' k = None) \<and>
    (\<forall>k e. session_map t k = Some e \<and> unat (last_activity_ts e) \<le> now \<and>
       now \<le> unat (last_activity_ts e) + 1 \<longrightarrow> session_map t' k = Some e) \<and>
    session_map t' \<subseteq>\<^sub>m session_map t \<and>
    (session_table_is_empty (Some t') \<longleftrightarrow> session_map t' = Map.empty)"
proof (rule automata_tick_runs [OF assms(1), of P w])
  fix s' w'
  assume run: "automata_tick P s w = Some (s', w')"
    and t: "\<And>t. tk_sessions s = Some t \<Longrightarrow> \<exists>t'. tk_sessions s' = Some t' \<and> table_ok t' \<and>
       session_map t' = sessions_after (inactive_fires P s (tick_read (tick_read w)))
         (p_seconds P (Suc (w_reads w))) t"
  have old: "last_activity_ts e + 60 < p_seconds P (Suc (w_reads w))"
    if "unat (last_activity_ts e) + 60 < now" for e :: session_entry
    using that clock unsigned_less [of "p_seconds P (Suc (w_reads w))"]
    by (simp add: now_def word_less_nat_alt unat_word_ariths)
  have recent: "\<not> last_activity_ts e + 60 < p_seconds P (Suc (w_reads w))"
    if "unat (last_activity_ts e) \<le> now" "now \<le> unat (last_activity_ts e) + 1" for e :: session_entry
    using that clock by (simp add: now_def word_less_nat_alt unat_word_ariths)
  from t [OF assms(2)] run assms(3) show ?thesis
    by (auto simp: sessions_after_def idle_def is_empty_iff map_le_def old recent
        split: option.splits if_splits)
qed

lemma demo_not_inactive:
  "\<not> inactive_fires (posix_port steady_os) demo_tick_state (tick_read (tick_read world0))"
  by (simp add: inactive_fires_def demo_tick_state_def demo_mapping_def steady_seconds world0_def)

theorem tick_expires_idle_sessions_witness:
  "\<exists>s' w' t'. automata_tick (posix_port steady_os) demo_tick_state world0 = Some (s', w') \<and>
    tk_sessions s' = Some t' \<and>
    (\<forall>k e. session_map demo_table k = Some e \<and> unat (last_activity_ts e) + 60 <
         unat (p_seconds (posix_port steady_os) (Suc (w_reads world0))) \<longrightarrow>
       session_map t' k = None) \<and>
    (\<forall>k e. session_map demo_table k = Some e \<and>
       unat (last_activity_ts e) \<le> unat (p_seconds (posix_port steady_os) (Suc (w_reads world0))) \<and>
       unat (p_seconds (posix_port steady_os) (Suc (w_reads world0))) \<le>
         unat (last_activity_ts e) + 1 \<longrightarrow> session_map t' k = Some e) \<and>
    session_map t' \<subseteq>\<^sub>m session_map demo_table \<and>
    (session_table_is_empty (Some t') \<longleftrightarrow> session_map t' = Map.empty)"
  by (rule tick_expires_idle_sessions [OF demo_tick_ok _ demo_not_inactive])
    (simp_all add: demo_tick_state_def steady_seconds world0_def)

text \<open>
  When the inactivity timer of the mapping machine has run out, one tick returns the
  mapping machine to Quiescent, forgets all sessions, takes the enumeration machine to
  Quiescent and sends no Hello.
\<close>

theorem tick_inactive_resets:
  assumes "tick_ok s" "tk_sessions s = Some t" "tk_enumeration s = Some au" "extra au = Some b"
    and "inactive_fires P s (tick_read (tick_read w))"
  shows "\<exists>s' w' t' mau eau. automata_tick P s w = Some (s', w') \<and>
    tk_sessions s' = Some t' \<and> session_map t' = Map.empty \<and>
    tk_mapping s' = Some mau \<and> mapping_in Quiescent mau \<and>
    tk_enumeration s' = Some eau \<and> enum_in EnumQuiescent eau \<and> w_events w' = w_events w"
proof -
  obtain m where m: "enum_in m au" using assms(1,3) by (auto simp: tick_ok_def enumeration_ok_def)
  obtain s' w' where run: "automata_tick P s w = Some (s', w')"
    and t: "\<exists>t'. tk_sessions s' = Some t' \<and> table_ok t' \<and> session_map t' = Map.empty"
    and e: "\<exists>au'. tk_enumeration s' = Some au' \<and> enum_in (enum_tick_mode m (tk_sessions s')) au'"
    and q: "\<exists>au. tk_mapping s' = Some au \<and> mapping_in Quiescent au"
    and h: "if hello_now (p_millis P (w_reads w)) (s\<lparr>tk_sessions := tk_sessions s'\<rparr>)
      then hello_effect (p_millis P (w_reads w)) (tk_port s) w (tk_port s') w'
      else tk_port s' = tk_port s \<and> w_events w' = w_events w"
  proof (rule automata_tick_runs [OF assms(1), of P w], goal_cases)
    case (1 s' w')
    show ?case
      by (rule 1(1) [OF 1(2)])
        (use 1(4) [OF assms(2)] 1(6) [OF assms(3) _ m] 1(7) [OF assms(5)] 1(8) assms(4,5) in
          \<open>auto simp: sessions_after_def\<close>)
  qed
  from t obtain t' where t': "tk_sessions s' = Some t'" "table_ok t'" "session_map t' = Map.empty"
    by blast
  have empty: "session_table_is_empty (Some t')" using is_empty_iff [OF t'(2)] t'(3) by simp
  then have "\<not> hello_now (p_millis P (w_reads w)) (s\<lparr>tk_sessions := tk_sessions s'\<rparr>)"
    by (auto simp: hello_now_def enum_tick_mode_def t'(1))
  with run t' e q h empty show ?thesis by (auto simp: enum_tick_mode_def)
qed

definition late_world :: world where
  "late_world = world0\<lparr>w_reads := 30\<rparr>"

theorem tick_inactive_resets_witness:
  "\<exists>s' w' t' mau eau. automata_tick (posix_port steady_os) demo_tick_state late_world = Some (s', w') \<and>
    tk_sessions s' = Some t' \<and> session_map t' = Map.empty \<and>
    tk_mapping s' = Some mau \<and> mapping_in Quiescent mau \<and>
    tk_enumeration s' = Some eau \<and> enum_in EnumQuiescent eau \<and> w_events w' = w_events late_world"
  by (rule tick_inactive_resets [OF demo_tick_ok, where t = demo_table and au = demo_enumeration
        and b = demo_band])
    (simp_all add: demo_tick_state_def demo_enumeration_def inactive_fires_def demo_mapping_def
      steady_seconds late_world_def world0_def)


text \<open>
  C14.  A tick sends at most one Hello, and exactly when the enumeration machine is Pausing
  after its own transition, its Hello timer has run out, and no Hello was sent in the last
  second.  Then the Hello function is called once and the time of the tick is noted; in all
  other cases nothing is sent and the port stays as it was.
\<close>

theorem tick_hello_rate_limited:
  assumes "tick_ok s" "tk_enumeration s = Some au" "extra au = Some b" "enum_in m au"
    and "tk_port s = Some p" "tp_send_hello p = Some send" "tp_network_interface p \<noteq> 0"
    and "tp_last_hello_tx_ms p = Some sent"
  shows "\<exists>s' w'. automata_tick P s w = Some (s', w') \<and>
    (let now = p_millis P (w_reads w) in
     if enum_tick_mode m (tk_sessions s') = EnumPausing \<and>
        hello_timeout_ts b \<noteq> 0 \<and> hello_timeout_ts b \<le> now \<and> (sent = 0 \<or> 1000 \<le> now - sent)
     then tk_port s' = Some (p\<lparr>tp_last_hello_tx_ms := Some now\<rparr>) \<and>
       (\<exists>w1 w2. w_events w1 = w_events w \<and> send (tp_network_interface p) w1 = Some w2 \<and>
         w_events w' = w_events w2)
     else tk_port s' = Some p \<and> w_events w' = w_events w)"
proof (rule automata_tick_runs [OF assms(1), of P w], goal_cases)
  case (1 s' w')
  let ?now = "p_millis P (w_reads w)"
  have "hello_now ?now (s\<lparr>tk_sessions := tk_sessions s'\<rparr>) \<longleftrightarrow>
      enum_tick_mode m (tk_sessions s') = EnumPausing \<and>
      hello_timeout_ts b \<noteq> 0 \<and> hello_timeout_ts b \<le> ?now \<and> (sent = 0 \<or> 1000 \<le> ?now - sent)"
    using assms by (auto simp: hello_now_def hello_due_def hello_allowed_def tick_last_tx_def
        word_gt_0 dest: enum_in_unique)
  then show ?case using 1(1,7) assms
    by (auto simp: Let_def hello_effect_def tick_send_hello_def bind_eq_Some_conv split: if_splits)
qed

definition demo_tick_port :: lltd_automata_tick_port where
  "demo_tick_port = \<lparr>tp_network_interface = 1, tp_last_hello_tx_ms = Some 0,
     tp_send_hello = Some (\<lambda>i w. Some (lltd_port_sleep_ms 1 w))\<rparr>"

theorem tick_hello_rate_limited_witness:
  "\<exists>s' w'. automata_tick (posix_port steady_os) (demo_tick_state\<lparr>tk_port := Some demo_tick_port\<rparr>)
      late_world = Some (s', w') \<and>
    (let now = p_millis (posix_port steady_os) (w_reads late_world) in
     if enum_tick_mode EnumPausing (tk_sessions s') = EnumPausing \<and>
        hello_timeout_ts demo_band \<noteq> 0 \<and> hello_timeout_ts demo_band \<le> now \<and>
        ((0 :: u64) = 0 \<or> 1000 \<le> now - 0)
     then tk_port s' = Some (demo_tick_port\<lparr>tp_last_hello_tx_ms := Some now\<rparr>) \<and>
       (\<exists>w1 w2. w_events w1 = w_events late_world \<and> Some (lltd_port_sleep_ms 1 w1) = Some w2 \<and>
         w_events w' = w_events w2)
     else tk_port s' = Some demo_tick_port \<and> w_events w' = w_events late_world)"
proof -
  have "tick_ok (demo_tick_state\<lparr>tk_port := Some demo_tick_port\<rparr>)"
    using demo_tick_ok by (simp add: tick_ok_def port_sends_def demo_tick_port_def)
  from tick_hello_rate_limited [OF this, of demo_enumeration demo_band EnumPausing demo_tick_port
      "\<lambda>i w. Some (lltd_port_sleep_ms 1 w)" 0 "posix_port steady_os" late_world]
  show ?thesis using demo_enumeration_in
    by (simp add: demo_tick_state_def demo_tick_port_def demo_enumeration_def del: One_nat_def)
qed

end
