(* ===== verification/LltdLinuxPort.thy ===== *)
theory LltdLinuxPort
  imports LltdPosixPort
begin

text \<open>
  os/linux/lltd_port.c: the Linux port.  The operating system is a parameter: clock,
  \<open>malloc\<close>, \<open>gethostname\<close>, the address list of \<open>getifaddrs\<close> and what \<open>sendto\<close> returns.
  An interface pointer is looked up in a table of interface structures; 0 is the null
  pointer.  The port keeps the contract of the protocol core.
\<close>

section \<open>State\<close>

text \<open>The fields of \<open>network_interface_t\<close> the port reads.\<close>

record linux_interface =
  ln_deviceName :: string
  ln_ifType :: u32
  ln_socket :: int
  ln_MediumType :: u32
  ln_MTU :: u32
  ln_LinkSpeed :: u32
  ln_flags :: u32
  ln_macAddress :: ethernet_address_t

text \<open>Addresses as \<open>getifaddrs\<close> lists them; the 16 bytes of an IPv6 address by position.\<close>

datatype sockaddr = AF_INET u32 | AF_INET6 "nat \<Rightarrow> u8" | AF_OTHER

record ifaddr =
  ifa_name :: string
  ifa_addr :: "sockaddr option"

record linux_env =
  le_little_endian :: bool
  le_clock_gettime :: "nat \<Rightarrow> (u64 \<times> u64) option"
  le_malloc :: "nat \<Rightarrow> nat \<Rightarrow> bool"
  le_gethostname :: "u8 list option"
  le_getifaddrs :: "ifaddr list option"
  le_sendto :: "nat \<Rightarrow> int \<Rightarrow> u8 list \<Rightarrow> int"

abbreviation (input) IFM_FDX :: "'a::len word" where "IFM_FDX \<equiv> 0x0010"
abbreviation (input) IFF_LOOPBACK :: "'a::len word" where "IFF_LOOPBACK \<equiv> 0x8"

section \<open>Operations\<close>

definition linux_sleep_timespec :: "u32 \<Rightarrow> u32 \<times> u64" where
  "linux_sleep_timespec milliseconds =
     (milliseconds div 1000, ucast (milliseconds mod 1000) * 1000000)"

definition linux_send_frame ::
    "linux_env \<Rightarrow> (iface \<Rightarrow> linux_interface) \<Rightarrow> nat \<Rightarrow> iface \<Rightarrow> u8 list \<Rightarrow> int" where
  "linux_send_frame os nif i ctx frame =
     (if ctx = 0 \<or> length frame = 0 then -1
      else if ln_socket (nif ctx) < 0 then -1
      else
        let written = le_sendto os i (ln_socket (nif ctx)) frame
        in if written = int (length frame) then 0 else -1)"

definition linux_get_mtu :: "(iface \<Rightarrow> linux_interface) \<Rightarrow> iface \<Rightarrow> int \<times> nat option" where
  "linux_get_mtu nif ctx = (if ctx = 0 then (-1, None) else (0, Some (unat (ln_MTU (nif ctx)))))"

definition linux_get_icon_image :: "world \<Rightarrow> (int \<times> u8 list option \<times> nat) \<times> world" where
  "linux_get_icon_image w = ((-1, None, 0), w)"

definition linux_name :: "u8 list" where
  "linux_name = c_literal ''LLTD Responder''"

definition linux_get_friendly_name ::
    "linux_env \<Rightarrow> world \<Rightarrow> (int \<times> u8 list option \<times> nat) \<times> world" where
  "linux_get_friendly_name os w =
     (let len = length linux_name;
          (ok, w) = alloc_with (le_malloc os) (len + 1) w
      in if \<not> ok then ((-1, None, 0), w) else ((0, Some (linux_name @ [0]), len), w))"

definition linux_monotonic_seconds :: "linux_env \<Rightarrow> nat \<Rightarrow> u64" where
  "linux_monotonic_seconds os i =
     (case le_clock_gettime os i of None \<Rightarrow> 0 | Some (sec, nsec) \<Rightarrow> sec)"

definition linux_monotonic_milliseconds :: "linux_env \<Rightarrow> nat \<Rightarrow> u64" where
  "linux_monotonic_milliseconds os i =
     (case le_clock_gettime os i of None \<Rightarrow> 0 | Some (sec, nsec) \<Rightarrow> sec * 1000 + nsec div 1000000)"

definition linux_get_hostname :: "linux_env \<Rightarrow> nat \<Rightarrow> u8 list \<times> nat" where
  "linux_get_hostname os dst_len =
     (if dst_len = 0 then ([], 0)
      else case le_gethostname os of
        None \<Rightarrow> ([], 0)
      | Some hostname \<Rightarrow>
          (let len = c_strnlen hostname;
               len = (if dst_len < len then dst_len else len)
           in (take len hostname, len)))"

definition linux_url :: "u8 list" where
  "linux_url = c_literal ''https://example.invalid/support''"

definition linux_get_support_url :: "nat \<Rightarrow> u8 list \<times> nat" where
  "linux_get_support_url dst_len =
     (if dst_len = 0 then ([], 0)
      else
        let len = length linux_url;
            len = (if dst_len < len then dst_len else len)
        in (take len linux_url, len))"

definition linux_get_upnp_uuid :: "int \<times> u8 list" where
  "linux_get_upnp_uuid = (-1, [])"

definition linux_get_hw_id :: "nat \<Rightarrow> u8 list \<times> nat" where
  "linux_get_hw_id dst_len = ([], 0)"

definition linux_get_mac_address ::
    "(iface \<Rightarrow> linux_interface) \<Rightarrow> iface \<Rightarrow> int \<times> ethernet_address_t option" where
  "linux_get_mac_address nif ctx =
     (if ctx = 0 then (-1, None) else (0, Some (ln_macAddress (nif ctx))))"

definition linux_get_characteristics_flags :: "(iface \<Rightarrow> linux_interface) \<Rightarrow> iface \<Rightarrow> u32" where
  "linux_get_characteristics_flags nif ctx =
     (if ctx = 0 then 0
      else
        let flags = 0;
            flags = (if and (ln_MediumType (nif ctx)) IFM_FDX \<noteq> 0
                     then or flags Config_TLV_NetworkInterfaceDuplex_Value else flags);
            flags = (if and (ln_flags (nif ctx)) IFF_LOOPBACK \<noteq> 0
                     then or flags Config_TLV_InterfaceIsLoopback_Value else flags)
        in flags)"

definition linux_get_if_type :: "(iface \<Rightarrow> linux_interface) \<Rightarrow> iface \<Rightarrow> int \<times> u32 option" where
  "linux_get_if_type nif ctx = (if ctx = 0 then (-1, None) else (0, Some (ln_ifType (nif ctx))))"

text \<open>The scans of the address list, up to the first match.\<close>

fun scan_ipv4 :: "string \<Rightarrow> ifaddr list \<Rightarrow> u32 option" where
  "scan_ipv4 name [] = None"
| "scan_ipv4 name (cur # ifa_next) =
     (case ifa_addr cur of
        Some (AF_INET s_addr) \<Rightarrow> if name \<noteq> ifa_name cur then scan_ipv4 name ifa_next else Some s_addr
      | _ \<Rightarrow> scan_ipv4 name ifa_next)"

fun scan_ipv6 :: "string \<Rightarrow> ifaddr list \<Rightarrow> u8 list option" where
  "scan_ipv6 name [] = None"
| "scan_ipv6 name (cur # ifa_next) =
     (case ifa_addr cur of
        Some (AF_INET6 a) \<Rightarrow> if name \<noteq> ifa_name cur then scan_ipv6 name ifa_next
                            else Some (map a [0..<16])
      | _ \<Rightarrow> scan_ipv6 name ifa_next)"

definition linux_get_ipv4_address ::
    "linux_env \<Rightarrow> (iface \<Rightarrow> linux_interface) \<Rightarrow> iface \<Rightarrow> int \<times> u32 option" where
  "linux_get_ipv4_address os nif ctx =
     (if ctx = 0 then (-1, None)
      else case le_getifaddrs os of
        None \<Rightarrow> (-1, None)
      | Some addrs \<Rightarrow>
          (case scan_ipv4 (ln_deviceName (nif ctx)) addrs of
             None \<Rightarrow> (-1, None) | Some a \<Rightarrow> (0, Some a)))"

definition linux_get_ipv6_address ::
    "linux_env \<Rightarrow> (iface \<Rightarrow> linux_interface) \<Rightarrow> iface \<Rightarrow> int \<times> u8 list option" where
  "linux_get_ipv6_address os nif ctx =
     (if ctx = 0 then (-1, None)
      else case le_getifaddrs os of
        None \<Rightarrow> (-1, None)
      | Some addrs \<Rightarrow>
          (case scan_ipv6 (ln_deviceName (nif ctx)) addrs of
             None \<Rightarrow> (-1, None) | Some a \<Rightarrow> (0, Some a)))"

definition linux_get_link_speed_100bps ::
    "(iface \<Rightarrow> linux_interface) \<Rightarrow> iface \<Rightarrow> int \<times> u32 option" where
  "linux_get_link_speed_100bps nif ctx =
     (if ctx = 0 then (-1, None) else (0, Some (ln_LinkSpeed (nif ctx) div 100)))"

definition linux_get_wifi_mode :: "iface \<Rightarrow> int \<times> u8 option" where
  "linux_get_wifi_mode ctx = (-1, None)"

definition linux_get_bssid :: "iface \<Rightarrow> int \<times> ethernet_address_t" where
  "linux_get_bssid ctx = (-1, zero_mac)"

definition linux_get_ssid :: "iface \<Rightarrow> nat \<Rightarrow> u8 list \<times> nat" where
  "linux_get_ssid ctx dst_len = ([], 0)"

definition linux_get_wifi_max_rate_0_5mbps :: "iface \<Rightarrow> int \<times> u16 option" where
  "linux_get_wifi_max_rate_0_5mbps ctx = (-1, Some 0)"

definition linux_get_wifi_rssi_dbm :: "iface \<Rightarrow> int \<times> u8 option" where
  "linux_get_wifi_rssi_dbm ctx = (-1, Some 0)"

definition linux_get_wifi_phy_medium :: "iface \<Rightarrow> int \<times> u32 option" where
  "linux_get_wifi_phy_medium ctx = (-1, Some 0)"

definition linux_port :: "linux_env \<Rightarrow> (iface \<Rightarrow> linux_interface) \<Rightarrow> port" where
  "linux_port os nif =
     \<lparr>p_little_endian = le_little_endian os,
      p_seconds = linux_monotonic_seconds os,
      p_millis = linux_monotonic_milliseconds os,
      p_malloc = le_malloc os,
      p_send = linux_send_frame os nif,
      p_mtu = linux_get_mtu nif,
      p_icon_image = linux_get_icon_image,
      p_friendly_name = linux_get_friendly_name os,
      p_hostname = linux_get_hostname os,
      p_support_url = linux_get_support_url,
      p_upnp_uuid = linux_get_upnp_uuid,
      p_hw_id = linux_get_hw_id,
      p_mac_address = linux_get_mac_address nif,
      p_characteristics_flags = linux_get_characteristics_flags nif,
      p_if_type = linux_get_if_type nif,
      p_ipv4_address = linux_get_ipv4_address os nif,
      p_ipv6_address = linux_get_ipv6_address os nif,
      p_link_speed_100bps = linux_get_link_speed_100bps nif,
      p_wifi_mode = linux_get_wifi_mode,
      p_bssid = linux_get_bssid,
      p_ssid = linux_get_ssid,
      p_wifi_max_rate_0_5mbps = linux_get_wifi_max_rate_0_5mbps,
      p_wifi_rssi_dbm = linux_get_wifi_rssi_dbm,
      p_wifi_phy_medium = linux_get_wifi_phy_medium\<rparr>"

section \<open>The contract\<close>

lemma scan_ipv6_length: "scan_ipv6 name addrs = Some a \<Longrightarrow> length a = 16"
  by (induction name addrs rule: scan_ipv6.induct) (auto split: option.splits sockaddr.splits if_splits)

lemma scan_ipv6_member:
  "scan_ipv6 name addrs = Some a \<Longrightarrow> \<exists>e b. e \<in> set addrs \<and> ifa_name e = name \<and>
     ifa_addr e = Some (AF_INET6 b) \<and> a = map b [0..<16]"
  by (induction name addrs rule: scan_ipv6.induct) (fastforce split: option.splits sockaddr.splits if_splits)+

lemma linux_hostname_ok:
  "length (fst (linux_get_hostname os n)) \<le> n \<and>
   snd (linux_get_hostname os n) \<le> length (fst (linux_get_hostname os n))"
proof (cases "le_gethostname os")
  case (Some s)
  then show ?thesis using c_strnlen_le [of s] by (auto simp: linux_get_hostname_def Let_def)
qed (simp add: linux_get_hostname_def)

lemma linux_ipv6_ok: "snd (linux_get_ipv6_address os nif ctx) = Some bs \<Longrightarrow> length bs = 16"
  by (auto simp: linux_get_ipv6_address_def dest: scan_ipv6_length split: if_splits option.splits)

lemma linux_name_hands_over: "hands_over (linux_get_friendly_name os)"
  unfolding hands_over_def linux_get_friendly_name_def
  by (auto simp: alloc_with_def Let_def split: if_splits)

interpretation linux: lltd_port_heap "linux_port os nif" for os nif
proof
  show "length (fst (p_hostname (linux_port os nif) n)) \<le> n"
    "snd (p_hostname (linux_port os nif) n) \<le> length (fst (p_hostname (linux_port os nif) n))" for n
    using linux_hostname_ok [of os n] by (simp_all add: linux_port_def)
  show "snd (p_ipv6_address (linux_port os nif) ctx) = Some bs \<Longrightarrow> length bs = 16" for ctx bs
    by (simp add: linux_port_def linux_ipv6_ok)
  show "hands_over (p_friendly_name (linux_port os nif))"
    by (simp add: linux_port_def linux_name_hands_over)
  show "hands_over (p_icon_image (linux_port os nif))"
    by (auto simp: linux_port_def linux_get_icon_image_def hands_over_def)
qed (auto simp: linux_port_def linux_get_support_url_def linux_get_hw_id_def linux_get_ssid_def
    linux_get_upnp_uuid_def Let_def)

end
