(* ===== verification/LltdWindowsPort.thy ===== *)
theory LltdWindowsPort
  imports LltdPosixPort
begin

text \<open>
  os/windows/win32-user/lltd_port.c: the stub port of the Windows builds.  The system calls
  are parameters: \<open>GetTickCount64\<close> per call, \<open>malloc\<close>, and \<open>GetComputerNameA\<close> as the
  bytes it writes into a buffer of the given size with the length it stores; that these fit
  the buffer is its documented behaviour and a hypothesis of the contract.
\<close>

record windows_env =
  we_little_endian :: bool
  we_GetTickCount64 :: "nat \<Rightarrow> u64"
  we_malloc :: "nat \<Rightarrow> nat \<Rightarrow> bool"
  we_GetComputerNameA :: "u32 \<Rightarrow> (u8 list \<times> u32) option"

section \<open>Operations\<close>

definition windows_send_frame :: "iface \<Rightarrow> u8 list \<Rightarrow> int" where
  "windows_send_frame ctx frame = -1"

definition windows_get_mtu :: "iface \<Rightarrow> int \<times> nat option" where
  "windows_get_mtu ctx = (0, Some 1500)"

definition windows_get_icon_image :: "world \<Rightarrow> (int \<times> u8 list option \<times> nat) \<times> world" where
  "windows_get_icon_image w = ((-1, None, 0), w)"

definition windows_name :: "u8 list" where
  "windows_name = c_literal ''LLTD Responder''"

definition windows_get_friendly_name ::
    "windows_env \<Rightarrow> world \<Rightarrow> (int \<times> u8 list option \<times> nat) \<times> world" where
  "windows_get_friendly_name os w =
     (let len = length windows_name;
          (ok, w) = alloc_with (we_malloc os) (len + 1) w
      in if \<not> ok then ((-1, None, 0), w) else ((0, Some (windows_name @ [0]), len), w))"

definition windows_monotonic_seconds :: "windows_env \<Rightarrow> nat \<Rightarrow> u64" where
  "windows_monotonic_seconds os i = we_GetTickCount64 os i div 1000"

definition windows_monotonic_milliseconds :: "windows_env \<Rightarrow> nat \<Rightarrow> u64" where
  "windows_monotonic_milliseconds os i = we_GetTickCount64 os i"

definition windows_get_hostname :: "windows_env \<Rightarrow> nat \<Rightarrow> u8 list \<times> nat" where
  "windows_get_hostname os dst_len =
     (if dst_len = 0 then ([], 0)
      else case we_GetComputerNameA os (of_nat dst_len) of
        None \<Rightarrow> ([], 0)
      | Some (dst, len) \<Rightarrow> (dst, unat len))"

definition windows_url :: "u8 list" where
  "windows_url = c_literal ''https://example.invalid/support''"

definition windows_get_support_url :: "nat \<Rightarrow> u8 list \<times> nat" where
  "windows_get_support_url dst_len =
     (if dst_len = 0 then ([], 0)
      else
        let len = length windows_url;
            len = (if dst_len < len then dst_len else len)
        in (take len windows_url, len))"

definition windows_get_upnp_uuid :: "int \<times> u8 list" where
  "windows_get_upnp_uuid = (-1, [])"

definition windows_get_hw_id :: "nat \<Rightarrow> u8 list \<times> nat" where
  "windows_get_hw_id dst_len = ([], 0)"

definition windows_get_mac_address :: "iface \<Rightarrow> int \<times> ethernet_address_t option" where
  "windows_get_mac_address ctx = (-1, None)"

definition windows_get_characteristics_flags :: "iface \<Rightarrow> u32" where
  "windows_get_characteristics_flags ctx = 0"

definition windows_get_if_type :: "iface \<Rightarrow> int \<times> u32 option" where
  "windows_get_if_type ctx = (-1, Some 0)"

definition windows_get_ipv4_address :: "iface \<Rightarrow> int \<times> u32 option" where
  "windows_get_ipv4_address ctx = (-1, Some 0)"

definition windows_get_ipv6_address :: "iface \<Rightarrow> int \<times> u8 list option" where
  "windows_get_ipv6_address ctx = (-1, Some (replicate 16 0))"

definition windows_get_link_speed_100bps :: "iface \<Rightarrow> int \<times> u32 option" where
  "windows_get_link_speed_100bps ctx = (-1, Some 0)"

definition windows_get_wifi_mode :: "iface \<Rightarrow> int \<times> u8 option" where
  "windows_get_wifi_mode ctx = (-1, None)"

definition windows_get_bssid :: "iface \<Rightarrow> int \<times> ethernet_address_t" where
  "windows_get_bssid ctx = (-1, zero_mac)"

definition windows_get_ssid :: "iface \<Rightarrow> nat \<Rightarrow> u8 list \<times> nat" where
  "windows_get_ssid ctx dst_len = ([], 0)"

definition windows_get_wifi_max_rate_0_5mbps :: "iface \<Rightarrow> int \<times> u16 option" where
  "windows_get_wifi_max_rate_0_5mbps ctx = (-1, Some 0)"

definition windows_get_wifi_rssi_dbm :: "iface \<Rightarrow> int \<times> u8 option" where
  "windows_get_wifi_rssi_dbm ctx = (-1, Some 0)"

definition windows_get_wifi_phy_medium :: "iface \<Rightarrow> int \<times> u32 option" where
  "windows_get_wifi_phy_medium ctx = (-1, Some 0)"

definition windows_port :: "windows_env \<Rightarrow> port" where
  "windows_port os =
     \<lparr>p_little_endian = we_little_endian os,
      p_seconds = windows_monotonic_seconds os,
      p_millis = windows_monotonic_milliseconds os,
      p_malloc = we_malloc os,
      p_send = (\<lambda>i. windows_send_frame),
      p_mtu = windows_get_mtu,
      p_icon_image = windows_get_icon_image,
      p_friendly_name = windows_get_friendly_name os,
      p_hostname = windows_get_hostname os,
      p_support_url = windows_get_support_url,
      p_upnp_uuid = windows_get_upnp_uuid,
      p_hw_id = windows_get_hw_id,
      p_mac_address = windows_get_mac_address,
      p_characteristics_flags = windows_get_characteristics_flags,
      p_if_type = windows_get_if_type,
      p_ipv4_address = windows_get_ipv4_address,
      p_ipv6_address = windows_get_ipv6_address,
      p_link_speed_100bps = windows_get_link_speed_100bps,
      p_wifi_mode = windows_get_wifi_mode,
      p_bssid = windows_get_bssid,
      p_ssid = windows_get_ssid,
      p_wifi_max_rate_0_5mbps = windows_get_wifi_max_rate_0_5mbps,
      p_wifi_rssi_dbm = windows_get_wifi_rssi_dbm,
      p_wifi_phy_medium = windows_get_wifi_phy_medium\<rparr>"

section \<open>The contract\<close>

text \<open>
  The documented behaviour of \<open>GetComputerNameA\<close>: it writes at most as many bytes as the
  buffer has, and stores the number of characters before the terminator.
\<close>

definition computer_name_fits :: "windows_env \<Rightarrow> bool" where
  "computer_name_fits os \<longleftrightarrow> (\<forall>n dst len. we_GetComputerNameA os n = Some (dst, len) \<longrightarrow>
     length dst \<le> unat n \<and> unat len < length dst)"

lemma windows_hostname_ok:
  assumes "computer_name_fits os"
  shows "length (fst (windows_get_hostname os n)) \<le> n \<and>
    snd (windows_get_hostname os n) \<le> length (fst (windows_get_hostname os n))"
proof (cases "we_GetComputerNameA os (of_nat n)")
  case (Some r)
  obtain dst len where r: "r = (dst, len)" by (cases r)
  have "length dst \<le> unat (of_nat n :: u32) \<and> unat len < length dst"
    using assms Some r by (auto simp: computer_name_fits_def)
  then show ?thesis using Some r unat_of_nat_le [where n = n and 'a = 32]
    by (auto simp: windows_get_hostname_def)
qed (simp add: windows_get_hostname_def)

lemma windows_name_hands_over: "hands_over (windows_get_friendly_name os)"
  unfolding hands_over_def windows_get_friendly_name_def
  by (auto simp: alloc_with_def Let_def split: if_splits)

lemma windows_port_contract:
  assumes "computer_name_fits os"
  shows "lltd_port_heap (windows_port os)"
proof
  show "length (fst (p_hostname (windows_port os) n)) \<le> n"
    "snd (p_hostname (windows_port os) n) \<le> length (fst (p_hostname (windows_port os) n))" for n
    using windows_hostname_ok [OF assms, of n] by (simp_all add: windows_port_def)
  show "hands_over (p_friendly_name (windows_port os))"
    by (simp add: windows_port_def windows_name_hands_over)
  show "hands_over (p_icon_image (windows_port os))"
    by (auto simp: windows_port_def windows_get_icon_image_def hands_over_def)
qed (auto simp: windows_port_def windows_get_support_url_def windows_get_hw_id_def
    windows_get_ssid_def windows_get_upnp_uuid_def windows_get_ipv6_address_def Let_def)

end
