(* ===== verification/LltdDarwinPort.thy ===== *)
theory LltdDarwinPort
  imports LltdLinuxPort
begin

text \<open>
  os/darwin/lltd_port.c with the functions of os/darwin/daemon/darwin-ops.c it calls.
  CoreFoundation, IOKit and SystemConfiguration are parameters of the environment: the
  serial number, host name, icon and computer name they give, the WiFi properties of the
  registry, the address list, and the Mach clock.  The getters of this port that allocate a
  temporary free it again, so their net effect on the heap is none; the unchecked
  allocations of \<open>getBSSID\<close> and \<open>getUpnpUuid\<close> are taken to succeed.
\<close>

section \<open>State\<close>

datatype network_interface_type = NetworkInterfaceTypeBond | NetworkInterfaceTypeBridge
  | NetworkInterfaceTypeEthernet | NetworkInterfaceTypeIEEE80211 | NetworkInterfaceTypeVLAN

record darwin_interface =
  dn_deviceName :: string
  dn_ifType :: u32
  dn_interfaceType :: network_interface_type
  dn_flags :: u64
  dn_MediumType :: u64
  dn_MTU :: u32
  dn_LinkSpeed :: u64
  dn_socket :: int
  dn_macAddress :: ethernet_address_t

text \<open>
  A registry value.  A string carries its UTF-8 bytes and what
  \<open>CFStringGetMaximumSizeForEncoding\<close> says of it.
\<close>

datatype cf_value = CFNumber u32 | CFData "u8 list" | CFString "u8 list" nat | CFOther

record darwin_env =
  de_little_endian :: bool
  de_timebase :: "u32 \<times> u32"
  de_mach_absolute_time :: "nat \<Rightarrow> u64"
  de_malloc :: "nat \<Rightarrow> nat \<Rightarrow> bool"
  de_scratch_malloc :: "nat \<Rightarrow> bool"
  de_sendto :: "nat \<Rightarrow> int \<Rightarrow> u8 list \<Rightarrow> int"
  de_getifaddrs :: "ifaddr list option"
  de_machine_name :: "u8 list option \<times> nat"
  de_serial_number :: "u8 list option"
  de_platform_uuid :: "(nat \<Rightarrow> u8) option"
  de_hw_id :: "nat \<Rightarrow> u8"
  de_icon_image :: "world \<Rightarrow> (u8 list option \<times> nat) \<times> world"
  de_friendly_name :: "world \<Rightarrow> (u8 list option \<times> nat) \<times> world"
  de_wifi_media :: "iface \<Rightarrow> bool"
  de_copyWiFiProperty :: "string \<Rightarrow> string \<Rightarrow> cf_value option"

section \<open>darwin-ops.c\<close>

text \<open>
  The URL goes to \<open>*data\<close>; the size is the out-parameter the caller passes in, which the
  function never assigns.
\<close>

definition support_url_prefix :: "u8 list" where
  "support_url_prefix = c_literal ''http://support-sp.apple.com/sp/index?page=psp&cc=''"

definition getSupportInfo :: "darwin_env \<Rightarrow> u8 list option \<times> nat \<Rightarrow> u8 list option \<times> nat" where
  "getSupportInfo os = (\<lambda>(data, stringSize).
     case de_serial_number os of
       None \<Rightarrow> (data, stringSize)
     | Some serialNumber \<Rightarrow>
         if length serialNumber = 11 then
           (Some (support_url_prefix @ take 3 (drop 8 serialNumber) @ [0]), stringSize)
         else if length serialNumber = 12 then
           (Some (support_url_prefix @ take 4 (drop 8 serialNumber) @ [0]), stringSize)
         else (data, stringSize))"

definition getBSSID ::
    "darwin_env \<Rightarrow> (iface \<Rightarrow> darwin_interface) \<Rightarrow> iface \<Rightarrow> ethernet_address_t option" where
  "getBSSID os nif ctx =
     (if ctx = 0 then None
      else case de_copyWiFiProperty os (dn_deviceName (nif ctx)) ''IO80211BSSID'' of
        Some (CFData cfDATA) \<Rightarrow> if length cfDATA < 6 then None else Some (mac_of_bytes (take 6 cfDATA))
      | _ \<Rightarrow> None)"

text \<open>The buffer handed over with its size, when the result is true.\<close>

definition copySSIDFromProperty :: "darwin_env \<Rightarrow> cf_value option \<Rightarrow> (u8 list \<times> nat) option" where
  "copySSIDFromProperty os value =
     (case value of
        Some (CFData dataValue) \<Rightarrow>
          (if length dataValue = 0 then None
           else if \<not> de_scratch_malloc os (length dataValue + 1) then None
           else Some (dataValue @ [0], length dataValue))
      | Some (CFString utf8 maxSize) \<Rightarrow>
          (if \<not> de_scratch_malloc os (maxSize + 1) then None
           else if maxSize + 1 < length utf8 + 1 then None
           else Some (utf8 @ [0], c_strnlen (utf8 @ [0])))
      | _ \<Rightarrow> None)"

definition getSSID ::
    "darwin_env \<Rightarrow> (iface \<Rightarrow> darwin_interface) \<Rightarrow> iface \<Rightarrow> (u8 list \<times> nat) option" where
  "getSSID os nif ctx =
     (if ctx = 0 then None
      else copySSIDFromProperty os (de_copyWiFiProperty os (dn_deviceName (nif ctx)) ''IO80211SSID''))"

definition getWifiMaxRate ::
    "darwin_env \<Rightarrow> (iface \<Rightarrow> darwin_interface) \<Rightarrow> iface \<Rightarrow> u32 option" where
  "getWifiMaxRate os nif ctx =
     (case de_copyWiFiProperty os (dn_deviceName (nif ctx)) ''IO80211MaxLinkSpeed'' of
        Some (CFNumber n) \<Rightarrow> Some n | _ \<Rightarrow> None)"

definition getWifiRssi ::
    "darwin_env \<Rightarrow> (iface \<Rightarrow> darwin_interface) \<Rightarrow> iface \<Rightarrow> u8 option" where
  "getWifiRssi os nif ctx =
     (let value = de_copyWiFiProperty os (dn_deviceName (nif ctx)) ''IO80211RSSI'';
          value = (if value = None then de_copyWiFiProperty os (dn_deviceName (nif ctx)) ''RSSI''
                   else value)
      in case value of Some (CFNumber rssiValue) \<Rightarrow> Some (ucast rssiValue) | _ \<Rightarrow> None)"

definition getWifiPhyMedium ::
    "darwin_env \<Rightarrow> (iface \<Rightarrow> darwin_interface) \<Rightarrow> iface \<Rightarrow> u32 option" where
  "getWifiPhyMedium os nif ctx =
     (case de_copyWiFiProperty os (dn_deviceName (nif ctx)) ''IO80211PHYMode'' of
        Some (CFNumber n) \<Rightarrow> Some n | _ \<Rightarrow> None)"

text \<open>The names the port calls them by.\<close>

abbreviation (input) WgetIfBSSID where "WgetIfBSSID \<equiv> getBSSID"
abbreviation (input) WgetIfSSID where "WgetIfSSID \<equiv> getSSID"
abbreviation (input) WgetIfMaxRate where "WgetIfMaxRate \<equiv> getWifiMaxRate"
abbreviation (input) WgetIfRSSI where "WgetIfRSSI \<equiv> getWifiRssi"
abbreviation (input) WgetIfPhyMedium where "WgetIfPhyMedium \<equiv> getWifiPhyMedium"

text \<open>The address scans skip entries of other families and names, as on Linux.\<close>

fun find_ipv4 :: "string \<Rightarrow> ifaddr list \<Rightarrow> u32 option" where
  "find_ipv4 name [] = None"
| "find_ipv4 name (temp_addr # ifa_next) =
     (case ifa_addr temp_addr of
        Some (AF_INET s_addr) \<Rightarrow> if name = ifa_name temp_addr then Some s_addr
                                else find_ipv4 name ifa_next
      | _ \<Rightarrow> find_ipv4 name ifa_next)"

fun find_ipv6 :: "string \<Rightarrow> ifaddr list \<Rightarrow> u8 list option" where
  "find_ipv6 name [] = None"
| "find_ipv6 name (temp_addr # ifa_next) =
     (case ifa_addr temp_addr of
        Some (AF_INET6 a) \<Rightarrow> if name = ifa_name temp_addr then Some (map a [0..<16])
                            else find_ipv6 name ifa_next
      | _ \<Rightarrow> find_ipv6 name ifa_next)"

definition getIfIPv4info ::
    "darwin_env \<Rightarrow> (iface \<Rightarrow> darwin_interface) \<Rightarrow> iface \<Rightarrow> u32 option" where
  "getIfIPv4info os nif ctx =
     (if ctx = 0 then None
      else case de_getifaddrs os of None \<Rightarrow> None | Some as \<Rightarrow> find_ipv4 (dn_deviceName (nif ctx)) as)"

definition getIfIPv6info ::
    "darwin_env \<Rightarrow> (iface \<Rightarrow> darwin_interface) \<Rightarrow> iface \<Rightarrow> u8 list option" where
  "getIfIPv6info os nif ctx =
     (if ctx = 0 then None
      else case de_getifaddrs os of None \<Rightarrow> None | Some as \<Rightarrow> find_ipv6 (dn_deviceName (nif ctx)) as)"

definition getIfCharacteristics :: "(iface \<Rightarrow> darwin_interface) \<Rightarrow> iface \<Rightarrow> u16 option" where
  "getIfCharacteristics nif ctx =
     (if ctx = 0 then None
      else
        let value = 0;
            value = (if and (dn_MediumType (nif ctx)) IFM_FDX \<noteq> 0
                     then or value (ucast Config_TLV_NetworkInterfaceDuplex_Value) else value);
            value = (if and (dn_flags (nif ctx)) IFF_LOOPBACK \<noteq> 0
                     then or value (ucast Config_TLV_InterfaceIsLoopback_Value) else value)
        in Some value)"

definition getIfIANAType :: "(iface \<Rightarrow> darwin_interface) \<Rightarrow> iface \<Rightarrow> u32 option" where
  "getIfIANAType nif ctx = (if ctx = 0 then None else Some (dn_ifType (nif ctx)))"

definition WgetWirelessMode :: "darwin_env \<Rightarrow> iface \<Rightarrow> u8 option" where
  "WgetWirelessMode os ctx = Some (if de_wifi_media os ctx then 1 else 0)"


section \<open>os/darwin/lltd_port.c\<close>

definition darwin_sleep_timespec :: "u32 \<Rightarrow> u32 \<times> u64" where
  "darwin_sleep_timespec milliseconds =
     (milliseconds div 1000, ucast (milliseconds mod 1000) * 1000000)"

definition darwin_send_frame ::
    "darwin_env \<Rightarrow> (iface \<Rightarrow> darwin_interface) \<Rightarrow> nat \<Rightarrow> iface \<Rightarrow> u8 list \<Rightarrow> int" where
  "darwin_send_frame os nif i ctx frame =
     (if ctx = 0 \<or> length frame = 0 then -1
      else if dn_socket (nif ctx) < 0 then -1
      else
        let written = de_sendto os i (dn_socket (nif ctx)) frame
        in if written = int (length frame) then 0 else -1)"

definition darwin_get_mtu :: "(iface \<Rightarrow> darwin_interface) \<Rightarrow> iface \<Rightarrow> int \<times> nat option" where
  "darwin_get_mtu nif ctx = (if ctx = 0 then (-1, None) else (0, Some (unat (dn_MTU (nif ctx)))))"

definition darwin_get_icon_image ::
    "darwin_env \<Rightarrow> world \<Rightarrow> (int \<times> u8 list option \<times> nat) \<times> world" where
  "darwin_get_icon_image os w =
     (let ((data, sz), w) = de_icon_image os w
      in ((if data \<noteq> None \<and> sz \<noteq> 0 then 0 else -1, data, sz), w))"

definition darwin_get_friendly_name ::
    "darwin_env \<Rightarrow> world \<Rightarrow> (int \<times> u8 list option \<times> nat) \<times> world" where
  "darwin_get_friendly_name os w =
     (let ((data, sz), w) = de_friendly_name os w
      in ((if data \<noteq> None \<and> sz \<noteq> 0 then 0 else -1, data, sz), w))"

text \<open>The documented denominator of \<open>mach_timebase_info\<close> is not zero.\<close>

definition lltd_mach_now_ns :: "darwin_env \<Rightarrow> nat \<Rightarrow> u64" where
  "lltd_mach_now_ns os i =
     (let now = de_mach_absolute_time os i
      in (now * ucast (fst (de_timebase os))) div ucast (snd (de_timebase os)))"

definition darwin_monotonic_seconds :: "darwin_env \<Rightarrow> nat \<Rightarrow> u64" where
  "darwin_monotonic_seconds os i = lltd_mach_now_ns os i div 1000000000"

definition darwin_monotonic_milliseconds :: "darwin_env \<Rightarrow> nat \<Rightarrow> u64" where
  "darwin_monotonic_milliseconds os i = lltd_mach_now_ns os i div 1000000"

definition darwin_get_hostname :: "darwin_env \<Rightarrow> nat \<Rightarrow> u8 list \<times> nat" where
  "darwin_get_hostname os dst_len =
     (if dst_len = 0 then ([], 0)
      else case de_machine_name os of
        (None, _) \<Rightarrow> ([], 0)
      | (Some hostname, hostname_len) \<Rightarrow>
          if hostname_len = 0 then ([], 0)
          else
            let hostname_len = (if dst_len < hostname_len then dst_len else hostname_len)
            in (take hostname_len hostname, hostname_len))"

definition darwin_get_support_url :: "darwin_env \<Rightarrow> nat \<Rightarrow> u8 list \<times> nat" where
  "darwin_get_support_url os dst_len =
     (if dst_len = 0 then ([], 0)
      else case getSupportInfo os (None, 0) of
        (None, _) \<Rightarrow> ([], 0)
      | (Some url, url_len) \<Rightarrow>
          if url_len = 0 then ([], 0)
          else
            let url_len = (if dst_len < url_len then dst_len else url_len)
            in (take url_len url, url_len))"

definition darwin_get_upnp_uuid :: "darwin_env \<Rightarrow> int \<times> u8 list" where
  "darwin_get_upnp_uuid os =
     (case de_platform_uuid os of None \<Rightarrow> (-1, []) | Some uuid \<Rightarrow> (0, map uuid [0..<16]))"

text \<open>The loop over the 16-bit units, keeping the end of the last one that is not zero.\<close>

definition hwid_length :: "u8 list \<Rightarrow> nat" where
  "hwid_length hwid =
     fold (\<lambda>k len. if hwid ! (2 * k) \<noteq> 0 \<or> hwid ! (2 * k + 1) \<noteq> 0 then 2 * k + 2 else len)
       [0..<length hwid div 2] 0"

definition darwin_get_hw_id :: "darwin_env \<Rightarrow> nat \<Rightarrow> u8 list \<times> nat" where
  "darwin_get_hw_id os dst_len =
     (if dst_len = 0 then ([], 0)
      else
        let hwid = map (de_hw_id os) [0..<64];
            len = hwid_length hwid;
            len = (if dst_len < len then dst_len else len)
        in (take len hwid, len))"

definition darwin_get_mac_address ::
    "(iface \<Rightarrow> darwin_interface) \<Rightarrow> iface \<Rightarrow> int \<times> ethernet_address_t option" where
  "darwin_get_mac_address nif ctx =
     (if ctx = 0 then (-1, None) else (0, Some (dn_macAddress (nif ctx))))"

definition darwin_get_characteristics_flags :: "(iface \<Rightarrow> darwin_interface) \<Rightarrow> iface \<Rightarrow> u32" where
  "darwin_get_characteristics_flags nif ctx =
     (case getIfCharacteristics nif ctx of None \<Rightarrow> 0 | Some flags \<Rightarrow> ucast flags)"

definition darwin_get_if_type :: "(iface \<Rightarrow> darwin_interface) \<Rightarrow> iface \<Rightarrow> int \<times> u32 option" where
  "darwin_get_if_type nif ctx =
     (case getIfIANAType nif ctx of None \<Rightarrow> (-1, Some 0) | Some ifType \<Rightarrow> (0, Some ifType))"

definition darwin_get_ipv4_address ::
    "darwin_env \<Rightarrow> (iface \<Rightarrow> darwin_interface) \<Rightarrow> iface \<Rightarrow> int \<times> u32 option" where
  "darwin_get_ipv4_address os nif ctx =
     (case getIfIPv4info os nif ctx of None \<Rightarrow> (-1, Some 0) | Some ipv4 \<Rightarrow> (0, Some ipv4))"

definition darwin_get_ipv6_address ::
    "darwin_env \<Rightarrow> (iface \<Rightarrow> darwin_interface) \<Rightarrow> iface \<Rightarrow> int \<times> u8 list option" where
  "darwin_get_ipv6_address os nif ctx =
     (case getIfIPv6info os nif ctx of
        None \<Rightarrow> (-1, Some (replicate 16 0)) | Some ipv6 \<Rightarrow> (0, Some ipv6))"

definition darwin_get_link_speed_100bps ::
    "(iface \<Rightarrow> darwin_interface) \<Rightarrow> iface \<Rightarrow> int \<times> u32 option" where
  "darwin_get_link_speed_100bps nif ctx =
     (if ctx = 0 then (-1, None) else (0, Some (ucast (dn_LinkSpeed (nif ctx) div 100))))"

definition darwin_get_wifi_mode :: "darwin_env \<Rightarrow> iface \<Rightarrow> int \<times> u8 option" where
  "darwin_get_wifi_mode os ctx =
     (case WgetWirelessMode os ctx of None \<Rightarrow> (-1, Some 0) | Some mode \<Rightarrow> (0, Some mode))"

definition darwin_get_bssid ::
    "darwin_env \<Rightarrow> (iface \<Rightarrow> darwin_interface) \<Rightarrow> iface \<Rightarrow> int \<times> ethernet_address_t" where
  "darwin_get_bssid os nif ctx =
     (case WgetIfBSSID os nif ctx of None \<Rightarrow> (-1, zero_mac) | Some bssid \<Rightarrow> (0, bssid))"

definition darwin_get_ssid ::
    "darwin_env \<Rightarrow> (iface \<Rightarrow> darwin_interface) \<Rightarrow> iface \<Rightarrow> nat \<Rightarrow> u8 list \<times> nat" where
  "darwin_get_ssid os nif ctx dst_len =
     (if dst_len = 0 then ([], 0)
      else case WgetIfSSID os nif ctx of
        None \<Rightarrow> ([], 0)
      | Some (ssid, ssid_len) \<Rightarrow>
          if ssid_len = 0 then ([], 0)
          else
            let ssid_len = (if dst_len < ssid_len then dst_len else ssid_len)
            in (take ssid_len ssid, ssid_len))"

definition darwin_get_wifi_max_rate_0_5mbps ::
    "darwin_env \<Rightarrow> (iface \<Rightarrow> darwin_interface) \<Rightarrow> iface \<Rightarrow> int \<times> u16 option" where
  "darwin_get_wifi_max_rate_0_5mbps os nif ctx =
     (case WgetIfMaxRate os nif ctx of
        None \<Rightarrow> (-1, Some 0)
      | Some rateMbps \<Rightarrow>
          (let units = rateMbps * 2;
               units = (if 0xFFFF < units then 0xFFFF else units)
           in (0, Some (ucast units))))"

definition darwin_get_wifi_rssi_dbm ::
    "darwin_env \<Rightarrow> (iface \<Rightarrow> darwin_interface) \<Rightarrow> iface \<Rightarrow> int \<times> u8 option" where
  "darwin_get_wifi_rssi_dbm os nif ctx =
     (case WgetIfRSSI os nif ctx of None \<Rightarrow> (-1, Some 0) | Some rssi \<Rightarrow> (0, Some rssi))"

definition darwin_get_wifi_phy_medium ::
    "darwin_env \<Rightarrow> (iface \<Rightarrow> darwin_interface) \<Rightarrow> iface \<Rightarrow> int \<times> u32 option" where
  "darwin_get_wifi_phy_medium os nif ctx =
     (case WgetIfPhyMedium os nif ctx of None \<Rightarrow> (-1, Some 0) | Some medium \<Rightarrow> (0, Some medium))"

definition darwin_port :: "darwin_env \<Rightarrow> (iface \<Rightarrow> darwin_interface) \<Rightarrow> port" where
  "darwin_port os nif =
     \<lparr>p_little_endian = de_little_endian os,
      p_seconds = darwin_monotonic_seconds os,
      p_millis = darwin_monotonic_milliseconds os,
      p_malloc = de_malloc os,
      p_send = darwin_send_frame os nif,
      p_mtu = darwin_get_mtu nif,
      p_icon_image = darwin_get_icon_image os,
      p_friendly_name = darwin_get_friendly_name os,
      p_hostname = darwin_get_hostname os,
      p_support_url = darwin_get_support_url os,
      p_upnp_uuid = darwin_get_upnp_uuid os,
      p_hw_id = darwin_get_hw_id os,
      p_mac_address = darwin_get_mac_address nif,
      p_characteristics_flags = darwin_get_characteristics_flags nif,
      p_if_type = darwin_get_if_type nif,
      p_ipv4_address = darwin_get_ipv4_address os nif,
      p_ipv6_address = darwin_get_ipv6_address os nif,
      p_link_speed_100bps = darwin_get_link_speed_100bps nif,
      p_wifi_mode = darwin_get_wifi_mode os,
      p_bssid = darwin_get_bssid os nif,
      p_ssid = darwin_get_ssid os nif,
      p_wifi_max_rate_0_5mbps = darwin_get_wifi_max_rate_0_5mbps os nif,
      p_wifi_rssi_dbm = darwin_get_wifi_rssi_dbm os nif,
      p_wifi_phy_medium = darwin_get_wifi_phy_medium os nif\<rparr>"

section \<open>The contract\<close>

text \<open>
  What the calls into the frameworks promise: the machine name is no longer than its
  buffer, and the icon and the friendly name are handed over as live blocks that are not
  empty, or not at all.
\<close>

definition block_given :: "(world \<Rightarrow> (u8 list option \<times> nat) \<times> world) \<Rightarrow> bool" where
  "block_given g \<longleftrightarrow> (\<forall>w d n w'. g w = ((d, n), w') \<longrightarrow> w_events w' = w_events w \<and>
     w_live w' = w_live w + (if d = None then 0 else 1) \<and>
     (case d of None \<Rightarrow> n = 0 | Some x \<Rightarrow> 0 < n \<and> n \<le> length x))"

definition darwin_frameworks :: "darwin_env \<Rightarrow> bool" where
  "darwin_frameworks os \<longleftrightarrow> block_given (de_icon_image os) \<and> block_given (de_friendly_name os) \<and>
     (\<forall>s. fst (de_machine_name os) = Some s \<longrightarrow> snd (de_machine_name os) \<le> length s)"

lemma find_ipv6_length: "find_ipv6 name addrs = Some a \<Longrightarrow> length a = 16"
  by (induction name addrs rule: find_ipv6.induct) (auto split: option.splits sockaddr.splits if_splits)

lemma find_scan:
  "find_ipv4 name addrs = scan_ipv4 name addrs" "find_ipv6 name addrs = scan_ipv6 name addrs"
  by (induction addrs) (auto split: option.splits sockaddr.splits)

lemma fold_last_le:
  assumes f: "\<And>k len. f k len = (if c k then 2 * k + 2 else len)"
  shows "fold f [0..<n] 0 \<le> 2 * (n :: nat)"
proof (induction n)
  case (Suc n)
  have "fold f [0..<Suc n] 0 = f n (fold f [0..<n] 0)" by simp
  then show ?case using Suc f [of n] by (cases "c n") simp_all
qed simp

lemma hwid_length_le: "hwid_length hwid \<le> length hwid"
proof -
  have "hwid_length hwid \<le> 2 * (length hwid div 2)"
    unfolding hwid_length_def by (rule fold_last_le) (rule refl)
  then show ?thesis by linarith
qed

lemma copySSID_size: "copySSIDFromProperty os v = Some (d, n) \<Longrightarrow> n \<le> length d"
  using c_strnlen_le [of d]
  by (auto simp: copySSIDFromProperty_def split: option.splits cf_value.splits if_splits)

lemma darwin_block_hands_over:
  assumes "block_given g"
  shows "hands_over (\<lambda>w. let ((data, sz), w) = g w
    in ((if data \<noteq> None \<and> sz \<noteq> 0 then 0 else -1, data, sz), w))"
  unfolding hands_over_def
proof (intro allI impI)
  fix w rc d n w'
  assume run: "(let ((data, sz), w) = g w
    in ((if data \<noteq> None \<and> sz \<noteq> 0 then 0 else -1, data, sz), w)) = ((rc, d, n), w')"
  obtain d' n' w1 where g: "g w = ((d', n'), w1)" by (metis prod.exhaust)
  have eq: "d = d'" "n = n'" "w' = w1" "rc = (if d' \<noteq> None \<and> n' \<noteq> 0 then 0 else -1)"
    using run by (auto simp: g split: if_splits)
  have "w_events w1 = w_events w \<and> w_live w1 = w_live w + (if d' = None then 0 else 1) \<and>
      (case d' of None \<Rightarrow> n' = 0 | Some x \<Rightarrow> 0 < n' \<and> n' \<le> length x)"
    using assms g by (auto simp: block_given_def)
  then show "w_events w' = w_events w \<and> w_live w' = w_live w + (if d = None then 0 else 1) \<and>
      (rc \<noteq> 0 \<longrightarrow> d = None) \<and> (case d of None \<Rightarrow> n = 0 | Some x \<Rightarrow> n \<le> length x)"
    unfolding eq by (cases d') auto
qed

lemma darwin_port_contract:
  assumes "darwin_frameworks os"
  shows "lltd_port_heap (darwin_port os nif)"
proof
  let ?P = "darwin_port os nif"
  show "length (fst (p_hostname ?P n)) \<le> n" "snd (p_hostname ?P n) \<le> length (fst (p_hostname ?P n))" for n
    using assms by (auto simp: darwin_port_def darwin_get_hostname_def darwin_frameworks_def Let_def
        split: prod.splits option.splits)
  show "length (fst (p_support_url ?P n)) \<le> n"
    "snd (p_support_url ?P n) \<le> length (fst (p_support_url ?P n))" for n
    by (auto simp: darwin_port_def darwin_get_support_url_def getSupportInfo_def Let_def
        split: option.splits)
  show "length (fst (p_hw_id ?P n)) \<le> n" "snd (p_hw_id ?P n) \<le> length (fst (p_hw_id ?P n))" for n
    using hwid_length_le [of "map (de_hw_id os) [0..<64]"]
    by (auto simp: darwin_port_def darwin_get_hw_id_def Let_def)
  show "length (fst (p_ssid ?P ctx n)) \<le> n" "snd (p_ssid ?P ctx n) \<le> length (fst (p_ssid ?P ctx n))"
    for ctx n
    by (auto simp: darwin_port_def darwin_get_ssid_def getSSID_def Let_def dest: copySSID_size
        split: option.splits if_splits)
  show "fst (p_upnp_uuid ?P) = 0 \<Longrightarrow> length (snd (p_upnp_uuid ?P)) = 16"
    by (auto simp: darwin_port_def darwin_get_upnp_uuid_def split: option.splits)
  show "snd (p_ipv6_address ?P ctx) = Some bs \<Longrightarrow> length bs = 16" for ctx bs
    by (auto simp: darwin_port_def darwin_get_ipv6_address_def getIfIPv6info_def
        dest: find_ipv6_length split: option.splits if_splits)
  show "hands_over (p_icon_image ?P)" "hands_over (p_friendly_name ?P)"
    using assms darwin_block_hands_over
    by (simp_all add: darwin_port_def darwin_get_icon_image_def [abs_def]
        darwin_get_friendly_name_def [abs_def] darwin_frameworks_def)
qed

end
