(* ===== verification/LltdDarwinHello.thy ===== *)
theory LltdDarwinHello
  imports LltdHello LltdDarwinPort
begin

text \<open>
  os/darwin/daemon/darwin-main.c, \<open>sendHelloMessageEx\<close> and \<open>sendHelloMessage\<close>: the Hello
  the macOS daemon sends by itself when the timer of the enumeration machine runs out.  It
  is assembled from the same writers as the answer to a Discover, takes the WiFi properties
  from the type of the interface, and goes straight to \<open>sendto\<close>.
\<close>

section \<open>Operations\<close>

datatype hello_tx_reason_t = hello_reason_reply_to_discover | hello_reason_periodic_timeout

definition darwin_sendto ::
    "darwin_env \<Rightarrow> (iface \<Rightarrow> darwin_interface) \<Rightarrow> iface \<Rightarrow> u8 list \<Rightarrow> world \<Rightarrow> int \<times> world" where
  "darwin_sendto os nif ctx frame w =
     (let rc = de_sendto os (length (w_events w)) (dn_socket (nif ctx)) frame
      in (rc, w\<lparr>w_events := w_events w @ [SendFrame ctx frame rc]\<rparr>))"

definition darwin_tlv_block ::
    "port \<Rightarrow> (iface \<Rightarrow> darwin_interface) \<Rightarrow> iface \<Rightarrow> u8 list \<times> nat \<Rightarrow> (u8 list \<times> nat) option" where
  "darwin_tlv_block P nif ctx = (\<lambda>s. do {
     s \<leftarrow> tlv_adv (setHostIdTLV P ctx) s;
     s \<leftarrow> tlv_adv (setCharacteristicsTLV P ctx) s;
     s \<leftarrow> tlv_adv (setPhysicalMediumTLV P ctx) s;
     s \<leftarrow> tlv_adv (setIPv4TLV P ctx) s;
     s \<leftarrow> tlv_adv (setIPv6TLV P ctx) s;
     s \<leftarrow> tlv_adv setPerfCounterTLV s;
     s \<leftarrow> tlv_adv (setLinkSpeedTLV P ctx) s;
     s \<leftarrow> tlv_adv (setHostnameTLV P) s;
     s \<leftarrow> (if dn_interfaceType (nif ctx) = NetworkInterfaceTypeIEEE80211 then (\<lambda>s. do {
            s \<leftarrow> tlv_adv (setWirelessTLV P ctx) s;
            s \<leftarrow> tlv_adv (setBSSIDTLV P ctx) s;
            s \<leftarrow> tlv_adv (setSSIDTLV P ctx) s;
            s \<leftarrow> tlv_adv (setWifiMaxRateTLV P ctx) s;
            s \<leftarrow> tlv_adv (setWifiRssiTLV P ctx) s;
            s \<leftarrow> tlv_adv setAPAssociationTableTLV s;
            s \<leftarrow> tlv_adv setRepeaterAPLineageTLV s;
            tlv_adv setRepeaterAPTableTLV s
          }) else Some) s;
     s \<leftarrow> tlv_adv (setQosCharacteristicsTLV (p_little_endian P)) s;
     s \<leftarrow> tlv_adv setIconImageTLV s;
     s \<leftarrow> tlv_adv setFriendlyNameTLV s;
     tlv_adv setEndOfPropertyTLV s
   })"

text \<open>The reason only appears in the log; the log line reads the clock.\<close>

definition sendHelloMessageEx ::
    "darwin_env \<Rightarrow> (iface \<Rightarrow> darwin_interface) \<Rightarrow> iface \<Rightarrow> u16 \<Rightarrow> u8 \<Rightarrow> ethernet_address_t \<Rightarrow>
     ethernet_address_t \<Rightarrow> u16 \<Rightarrow> hello_tx_reason_t \<Rightarrow> world \<Rightarrow> world option" where
  "sendHelloMessageEx os nif ctx seqNo tosv mapperReal mapperApparent gen reason w =
     (let P = darwin_port os nif;
          mtu = unat (dn_MTU (nif ctx));
          (ok, w) = lltd_port_malloc P mtu w
      in if \<not> ok then Some w
         else do {
           (buffer, offset) \<leftarrow> setLltdHeader (p_little_endian P) (replicate mtu 0)
             (dn_macAddress (nif ctx)) EthernetBroadcast seqNo opcode_hello tosv;
           (buffer, n) \<leftarrow> setHelloHeader (p_little_endian P) buffer offset mapperApparent mapperReal gen;
           let (_, w) = lltd_port_monotonic_milliseconds P w;
           (buffer, offset) \<leftarrow> darwin_tlv_block P nif ctx (buffer, offset + n);
           frame \<leftarrow> load_bytes buffer 0 offset;
           let (_, w) = darwin_sendto os nif ctx frame w;
           Some (lltd_port_free w)
         })"

text \<open>The two fields of the interface structure that vary are arguments.\<close>

definition sendHelloMessage ::
    "darwin_env \<Rightarrow> (iface \<Rightarrow> darwin_interface) \<Rightarrow> ethernet_address_t \<Rightarrow> u16 \<Rightarrow> iface \<Rightarrow> world \<Rightarrow>
     world option" where
  "sendHelloMessage os nif mapperHwAddress mapperGenerationTopology ctx w =
     sendHelloMessageEx os nif ctx 0 tos_discovery mapperHwAddress mapperHwAddress
       mapperGenerationTopology hello_reason_periodic_timeout w"

section \<open>The frame that is sent\<close>

definition darwin_wifi_tlvs :: "port \<Rightarrow> (iface \<Rightarrow> darwin_interface) \<Rightarrow> iface \<Rightarrow> u8 list" where
  "darwin_wifi_tlvs P nif ctx =
     (if dn_interfaceType (nif ctx) = NetworkInterfaceTypeIEEE80211
      then wireless_enc P ctx @ bssid_enc P ctx @ ssid_enc P ctx @ wifi_max_rate_enc P ctx @
        wifi_rssi_enc P ctx else [])"

definition darwin_tlvs :: "port \<Rightarrow> (iface \<Rightarrow> darwin_interface) \<Rightarrow> iface \<Rightarrow> u8 list" where
  "darwin_tlvs P nif ctx =
     host_id_enc P ctx @ characteristics_enc P ctx @ if_type_enc P ctx @ ipv4_enc P ctx @
     ipv6_enc P ctx @ perf_counter_enc @ link_speed_enc P ctx @ hostname_enc P @
     darwin_wifi_tlvs P nif ctx @ qos_enc @ tlv_bytes tlv_iconImage [] @
     tlv_bytes tlv_friendlyName [] @ [eofpropmarker]"

definition darwin_hello_bytes ::
    "port \<Rightarrow> (iface \<Rightarrow> darwin_interface) \<Rightarrow> iface \<Rightarrow> u16 \<Rightarrow> u8 \<Rightarrow> ethernet_address_t \<Rightarrow>
     ethernet_address_t \<Rightarrow> u16 \<Rightarrow> u8 list" where
  "darwin_hello_bytes P nif ctx seqNo tosv mapperReal mapperApparent gen =
     demux_bytes EthernetBroadcast (dn_macAddress (nif ctx)) lltdEtherType 1 tosv 0 opcode_hello
       EthernetBroadcast (dn_macAddress (nif ctx)) seqNo @
     be16 gen @ mac_bytes mapperReal @ mac_bytes mapperApparent @ darwin_tlvs P nif ctx"

context lltd_port_contract begin

lemma darwin_tlv_step: "tlv_step (darwin_tlv_block P nif ctx) (darwin_tlvs P nif ctx) 160"
proof -
  let ?wifi = "\<lambda>s. do {
            s \<leftarrow> tlv_adv (setWirelessTLV P ctx) s;
            s \<leftarrow> tlv_adv (setBSSIDTLV P ctx) s;
            s \<leftarrow> tlv_adv (setSSIDTLV P ctx) s;
            s \<leftarrow> tlv_adv (setWifiMaxRateTLV P ctx) s;
            s \<leftarrow> tlv_adv (setWifiRssiTLV P ctx) s;
            s \<leftarrow> tlv_adv setAPAssociationTableTLV s;
            s \<leftarrow> tlv_adv setRepeaterAPLineageTLV s;
            tlv_adv setRepeaterAPTableTLV s
          }"
  have "tlv_step ?wifi
      (wireless_enc P ctx @ bssid_enc P ctx @ ssid_enc P ctx @ wifi_max_rate_enc P ctx @
       wifi_rssi_enc P ctx @ [] @ [] @ []) (3 + (8 + (34 + (4 + (6 + (0 + (0 + 0)))))))"
    by (intro tlv_step_bind wireless.is_step bssid.is_step ssid.is_step wifi_max_rate.is_step
        wifi_rssi.is_step ap_table.is_step ap_lineage.is_step repeater_table.is_step)
  then have wifi: "tlv_step
      (if dn_interfaceType (nif ctx) = NetworkInterfaceTypeIEEE80211 then ?wifi else Some)
      (darwin_wifi_tlvs P nif ctx) 55"
    using tlv_step_mono [OF tlv_step_Some, of 55] by (auto simp: darwin_wifi_tlvs_def)
  have "tlv_step (darwin_tlv_block P nif ctx)
     (host_id_enc P ctx @ characteristics_enc P ctx @ if_type_enc P ctx @ ipv4_enc P ctx @
      ipv6_enc P ctx @ perf_counter_enc @ link_speed_enc P ctx @ hostname_enc P @
      darwin_wifi_tlvs P nif ctx @ qos_enc @ tlv_bytes tlv_iconImage [] @
      tlv_bytes tlv_friendlyName [] @ [eofpropmarker])
     (8 + (6 + (6 + (6 + (18 + (10 + (6 + (34 + (55 + (6 + (2 + (2 + 1))))))))))))"
    unfolding darwin_tlv_block_def
    by (intro tlv_step_bind wifi host_id.is_step characteristics.is_step if_type.is_step
        ipv4.is_step ipv6.is_step perf_counter.is_step link_speed.is_step hostname.is_step
        qos.is_step icon_image.is_step friendly_name.is_step end_of_property.is_step)
  then show ?thesis by (simp add: darwin_tlvs_def)
qed

end

lemma sendHelloMessageEx_runs:
  fixes os :: darwin_env and nif :: "iface \<Rightarrow> darwin_interface"
  assumes os: "darwin_frameworks os" and mtu: "hello_room \<le> unat (dn_MTU (nif ctx))"
  defines "P \<equiv> darwin_port os nif"
  obtains (nomem) w' where "\<not> p_malloc P (w_mallocs w) (unat (dn_MTU (nif ctx)))"
      "sendHelloMessageEx os nif ctx sq t rl app gen why w = Some w'"
      "w_events w' = w_events w" "w_live w' = w_live w"
    | (sent) w' where "p_malloc P (w_mallocs w) (unat (dn_MTU (nif ctx)))"
      "sendHelloMessageEx os nif ctx sq t rl app gen why w = Some w'" "w_live w' = w_live w"
      "w_events w' = w_events w @ [SendFrame ctx (darwin_hello_bytes P nif ctx sq t rl app gen)
        (de_sendto os (length (w_events w)) (dn_socket (nif ctx))
          (darwin_hello_bytes P nif ctx sq t rl app gen))]"
proof -
  let ?mtu = "unat (dn_MTU (nif ctx))" and ?fr = "darwin_hello_bytes P nif ctx sq t rl app gen"
  define w1 where "w1 = snd (lltd_port_malloc P ?mtu w)"
  define ok where "ok = p_malloc P (w_mallocs w) ?mtu"
  have w1: "lltd_port_malloc P ?mtu w = (ok, w1)" "w_events w1 = w_events w"
    "w_live w1 = w_live w + (if ok then 1 else 0)"
    by (simp_all add: w1_def ok_def world_simps lltd_port_malloc_def Let_def)
  note contract = darwin_port_contract [OF os, of nif, THEN lltd_port_heap.axioms(1), folded P_def]
  obtain b1 b2 b3 off where b: "setLltdHeader (p_little_endian P) (replicate ?mtu 0)
      (dn_macAddress (nif ctx)) EthernetBroadcast sq opcode_hello t = Some (b1, 32)"
    "setHelloHeader (p_little_endian P) b1 32 app rl gen = Some (b2, 14)"
    "darwin_tlv_block P nif ctx (b2, 46) = Some (b3, off)"
    "load_bytes b3 0 off = Some ?fr"
    unfolding darwin_hello_bytes_def
    by (rule hello_assembled [OF _ lltd_port_contract.darwin_tlv_step [OF contract]])
      (use mtu in auto)
  show ?thesis
  proof (cases ok)
    case False
    then show ?thesis using w1
      by (intro nomem [of w1]) (simp_all add: sendHelloMessageEx_def P_def [symmetric] ok_def)
  next
    case True
    define w2 where "w2 = snd (darwin_sendto os nif ctx ?fr
      (snd (lltd_port_monotonic_milliseconds P w1)))"
    have "sendHelloMessageEx os nif ctx sq t rl app gen why w = Some (lltd_port_free w2)"
      using w1(1) True b
      by (simp add: sendHelloMessageEx_def P_def [symmetric] w2_def Let_def split: prod.split)
    then show ?thesis using True w1(2,3)
      by (intro sent [of "lltd_port_free w2"])
        (simp_all add: w2_def ok_def darwin_sendto_def world_simps lltd_port_monotonic_milliseconds_def
          Let_def)
  qed
qed

end
