(* ===== verification/LltdDarwinLoop.thy ===== *)
theory LltdDarwinLoop
  imports LltdDarwinHello LltdTickLemmas LltdFrame
begin

text \<open>
  os/darwin/daemon/darwin-main.c, the body of \<open>lltdLoop\<close>: what the macOS daemon does with
  every return of \<open>recvfrom\<close>.  A timeout runs the tick; a frame is classified into a session
  event, updates the session table and the three machines, goes to the protocol core, and
  is followed by a tick.  The state is what the loop shares between these parts.
\<close>

section \<open>State\<close>

record darwin_loop =
  dl_MapperHwAddress :: ethernet_address_t
  dl_MapperGenerationTopology :: u16
  dl_MapperGenerationQuick :: u16
  dl_LastHelloTxMs :: u64
  dl_mapping :: "mapping_state automata"
  dl_session :: "unit automata"
  dl_enumeration :: "band_state automata"
  dl_sessionTable :: "session_table option"
  dl_states :: "lltd_iface_state list"  \<comment> \<open>the states of the protocol core\<close>

section \<open>Operations\<close>

text \<open>\<open>automata_tick\<close> with the tick port the loop builds on its stack.\<close>

definition darwin_tick ::
    "darwin_env \<Rightarrow> (iface \<Rightarrow> darwin_interface) \<Rightarrow> iface \<Rightarrow> darwin_loop \<Rightarrow> world \<Rightarrow>
     (darwin_loop \<times> world) option" where
  "darwin_tick os nif ctx s w = do {
     let tick_port = \<lparr>tp_network_interface = ctx, tp_last_hello_tx_ms = Some (dl_LastHelloTxMs s),
       tp_send_hello = Some (sendHelloMessage os nif (dl_MapperHwAddress s)
         (dl_MapperGenerationTopology s))\<rparr>;
     (t, w) \<leftarrow> automata_tick (darwin_port os nif)
       \<lparr>tk_mapping = Some (dl_mapping s), tk_enumeration = Some (dl_enumeration s),
        tk_sessions = dl_sessionTable s, tk_port = Some tick_port\<rparr> w;
     mapping \<leftarrow> tk_mapping t;
     enumeration \<leftarrow> tk_enumeration t;
     p \<leftarrow> tk_port t;
     sent \<leftarrow> tp_last_hello_tx_ms p;
     Some (s\<lparr>dl_mapping := mapping, dl_enumeration := enumeration,
       dl_sessionTable := tk_sessions t, dl_LastHelloTxMs := sent\<rparr>, w)
   }"

text \<open>What a Discover writes into its session's entry.\<close>

definition darwin_note_event :: "int \<Rightarrow> u64 \<Rightarrow> session_entry \<Rightarrow> session_entry" where
  "darwin_note_event sess_event now entry =
     (let entry = entry\<lparr>se_state := word_of_int sess_event, last_activity_ts := now\<rparr>
      in if sess_event = uint (sess_discover_acking :: u8) \<or>
            sess_event = uint (sess_discover_acking_chgd_xid :: u8)
         then entry\<lparr>complete := True\<rparr> else entry)"

text \<open>The session table on a Discover or a Reset.\<close>

definition darwin_update_table ::
    "port \<Rightarrow> u8 list \<Rightarrow> lltd_demultiplex_header_t \<Rightarrow> int \<Rightarrow> darwin_loop \<Rightarrow> world \<Rightarrow>
     (darwin_loop \<times> world) option" where
  "darwin_update_table P f header sess_event s w =
     (if opcode header = opcode_discover then do {
        raw \<leftarrow> load_u16 (p_little_endian P) f sizeof_demux_header;
        let gen = lltd_ntohs (p_little_endian P) raw;
        let (entry, table, w) = session_table_add P (dl_sessionTable s) (Some (realSource header)) gen
          (lltd_ntohs (p_little_endian P) (seqNumber header)) w;
        let (s, w) = (case (entry, table) of
            (Some i, Some t) \<Rightarrow>
              (let (now, w) = lltd_monotonic_seconds P w;
                   entry = darwin_note_event sess_event now (entries t ! i);
                   s = s\<lparr>dl_sessionTable := Some (t\<lparr>entries := (entries t)[i := entry]\<rparr>),
                         dl_MapperHwAddress := realSource header\<rparr>
               in (if tos header = tos_quick_discovery
                   then s\<lparr>dl_MapperGenerationQuick := gen\<rparr>
                   else s\<lparr>dl_MapperGenerationTopology := gen\<rparr>, w))
          | _ \<Rightarrow> (s\<lparr>dl_sessionTable := table\<rparr>, w));
        Some (s\<lparr>dl_sessionTable := session_table_update_complete_status (dl_sessionTable s)\<rparr>, w)
      }
      else if opcode header = opcode_reset then
        Some (s\<lparr>dl_sessionTable := session_table_clear (dl_sessionTable s)\<rparr>, w)
      else Some (s, w))"

text \<open>The mapping machine, its timers, and the table when it falls back to Quiescent.\<close>

definition darwin_update_mapping ::
    "port \<Rightarrow> lltd_demultiplex_header_t \<Rightarrow> darwin_loop \<Rightarrow> world \<Rightarrow> (darwin_loop \<times> world) option" where
  "darwin_update_mapping P header s w = do {
     let prev_mapping_state = current_state (dl_mapping s);
     (mapping, w) \<leftarrow> switch_state_mapping P (dl_mapping s) (uint (opcode header)) w;
     let s = (if prev_mapping_state \<noteq> 0 \<and> current_state mapping = 0
              then s\<lparr>dl_sessionTable := session_table_clear (dl_sessionTable s)\<rparr> else s);
     let (m, w) = (if extra mapping \<noteq> None then mapping_reset_inactive_timeout P (extra mapping) w
                   else (extra mapping, w));
     let (m, w) = (if opcode header = opcode_charge \<and> m \<noteq> None then mapping_on_charge P m w
                   else (m, w));
     Some (s\<lparr>dl_mapping := mapping\<lparr>extra := m\<rparr>\<rparr>, w)
   }"

definition darwin_update_enumeration ::
    "port \<Rightarrow> lltd_demultiplex_header_t \<Rightarrow> darwin_loop \<Rightarrow> world \<Rightarrow> (darwin_loop \<times> world) option" where
  "darwin_update_enumeration P header s w =
     (let enumeration = dl_enumeration s in
      if opcode header = opcode_hello then do {
        let enumeration = (if extra enumeration \<noteq> None
          then enumeration\<lparr>extra := band_on_hello_received (extra enumeration)\<rparr> else enumeration);
        (enumeration, w) \<leftarrow> switch_state_enumeration P enumeration (uint (enum_hello :: u8)) w;
        Some (s\<lparr>dl_enumeration := enumeration\<rparr>, w)
      }
      else if opcode header = opcode_discover then do {
        let (enumeration, w) =
          (if current_state enumeration = 0 then
             if extra enumeration \<noteq> None then
               (let (b, w) = band_init_stats P (extra enumeration) w;
                    (_, b, w) = band_choose_hello_time P b w
                in (enumeration\<lparr>extra := b\<rparr>, w))
             else (enumeration, w)
           else if extra enumeration \<noteq> None then
             (enumeration\<lparr>extra := map_option (\<lambda>b. b\<lparr>begun := True\<rparr>) (extra enumeration)\<rparr>, w)
           else (enumeration, w));
        (enumeration, w) \<leftarrow> switch_state_enumeration P enumeration (uint (enum_new_session :: u8)) w;
        Some (s\<lparr>dl_enumeration := enumeration\<rparr>, w)
      }
      else Some (s, w))"

text \<open>A frame, up to and including the protocol core.\<close>

definition darwin_rx ::
    "darwin_env \<Rightarrow> (iface \<Rightarrow> darwin_interface) \<Rightarrow> iface \<Rightarrow> u8 list \<Rightarrow> darwin_loop \<Rightarrow> world \<Rightarrow>
     (darwin_loop \<times> world) option" where
  "darwin_rx os nif ctx f s w = do {
     let P = darwin_port os nif;
     header \<leftarrow> load_demux_header (p_little_endian P) f;
     sess_event \<leftarrow> derive_session_event (p_little_endian P) (Some f) (dl_sessionTable s)
       (Some (dn_macAddress (nif ctx)));
     (s, w) \<leftarrow> darwin_update_table P f header sess_event s w;
     (s, w) \<leftarrow> darwin_update_mapping P header s w;
     (session, w) \<leftarrow> (if 0 \<le> sess_event then switch_state_session P (dl_session s) sess_event w
                     else Some (dl_session s, w));
     let s = s\<lparr>dl_session := session\<rparr>;
     (s, w) \<leftarrow> darwin_update_enumeration P header s w;
     (states, w) \<leftarrow> parseFrame P (Some f) ctx (dl_states s, w);
     Some (s\<lparr>dl_states := states\<rparr>, w)
   }"

text \<open>One turn of the loop: what \<open>recvfrom\<close> returned, and the receive buffer after it.\<close>

definition darwin_turn ::
    "darwin_env \<Rightarrow> (iface \<Rightarrow> darwin_interface) \<Rightarrow> iface \<Rightarrow> int \<times> u8 list \<Rightarrow> darwin_loop \<Rightarrow> world \<Rightarrow>
     (darwin_loop \<times> world) option" where
  "darwin_turn os nif ctx = (\<lambda>(recvLen, recvBuffer) s w.
     if recvLen < 0 then darwin_tick os nif ctx s w
     else do {
       (s, w) \<leftarrow> darwin_rx os nif ctx recvBuffer s w;
       darwin_tick os nif ctx s w
     })"

fun darwin_lltdLoop ::
    "darwin_env \<Rightarrow> (iface \<Rightarrow> darwin_interface) \<Rightarrow> iface \<Rightarrow> (int \<times> u8 list) list \<Rightarrow> darwin_loop \<Rightarrow>
     world \<Rightarrow> (darwin_loop \<times> world) option" where
  "darwin_lltdLoop os nif ctx [] s w = Some (s, w)"
| "darwin_lltdLoop os nif ctx (r # rs) s w = do {
     (s, w) \<leftarrow> darwin_turn os nif ctx r s w;
     darwin_lltdLoop os nif ctx rs s w
   }"

section \<open>What a turn keeps\<close>

text \<open>
  The invariant of the loop: machines in named states, the estimate within its cap, a
  session table without duplicates, and the states of the protocol core.
\<close>

definition darwin_ok :: "darwin_loop \<Rightarrow> bool" where
  "darwin_ok s \<longleftrightarrow> mapping_ok (Some (dl_mapping s)) \<and> (\<exists>m. session_in m (dl_session s)) \<and>
     enumeration_ok (Some (dl_enumeration s)) \<and> sessions_ok (dl_sessionTable s) \<and>
     states_ok (dl_states s)"

text \<open>An interface the daemon can serve, on frameworks that keep their promises.\<close>

definition darwin_fits :: "darwin_env \<Rightarrow> (iface \<Rightarrow> darwin_interface) \<Rightarrow> iface \<Rightarrow> bool" where
  "darwin_fits os nif ctx \<longleftrightarrow> darwin_frameworks os \<and> ctx \<noteq> 0 \<and>
     hello_room \<le> unat (dn_MTU (nif ctx)) \<and> calm_clock (darwin_port os nif)"

text \<open>A receive buffer that holds the bytes the frame in it makes the code read.\<close>

definition frame_ready :: "bool \<Rightarrow> u8 list \<Rightarrow> bool" where
  "frame_ready le f \<longleftrightarrow> 32 \<le> length f \<and> frame_needs le f \<le> length f \<and>
     (\<forall>h. load_demux_header le f = Some h \<and> opcode h = opcode_discover \<longrightarrow> stations_complete le f)"

lemma darwin_usable:
  assumes "darwin_fits os nif ctx"
  shows "usable_port (darwin_port os nif) ctx"
proof -
  have "port_mtu (darwin_port os nif) ctx = unat (dn_MTU (nif ctx))"
    using assms by (simp add: port_mtu_def darwin_port_def darwin_get_mtu_def darwin_fits_def)
  then show ?thesis using assms darwin_port_contract
    by (simp add: usable_port_def darwin_fits_def)
qed

lemma darwin_hello_sends:
  assumes "darwin_fits os nif ctx"
  obtains w' where "sendHelloMessage os nif rl gen ctx w = Some w'"
    "w_events w' = w_events w \<or> (\<exists>rc. w_events w' = w_events w @ [SendFrame ctx
       (darwin_hello_bytes (darwin_port os nif) nif ctx 0 tos_discovery rl rl gen) rc])"
proof -
  have "darwin_frameworks os" "hello_room \<le> unat (dn_MTU (nif ctx))"
    using assms by (simp_all add: darwin_fits_def)
  then show ?thesis
    by (rule sendHelloMessageEx_runs [where nif = nif and w = w and sq = 0 and t = tos_discovery
          and rl = rl and app = rl and gen = gen and why = hello_reason_periodic_timeout])
      (use that in \<open>auto simp: sendHelloMessage_def\<close>)
qed

lemma darwin_tick_runs:
  assumes fits: "darwin_fits os nif ctx" and ok: "darwin_ok s"
  obtains s' w' where "darwin_tick os nif ctx s w = Some (s', w')" "darwin_ok s'"
    "dl_states s' = dl_states s" "dl_session s' = dl_session s"
    "w_events w' = w_events w \<or> (\<exists>rc. w_events w' = w_events w @ [SendFrame ctx
       (darwin_hello_bytes (darwin_port os nif) nif ctx 0 tos_discovery (dl_MapperHwAddress s)
         (dl_MapperHwAddress s) (dl_MapperGenerationTopology s)) rc])"
proof -
  let ?P = "darwin_port os nif"
  let ?send = "sendHelloMessage os nif (dl_MapperHwAddress s) (dl_MapperGenerationTopology s)"
  let ?port = "\<lparr>tp_network_interface = ctx, tp_last_hello_tx_ms = Some (dl_LastHelloTxMs s),
    tp_send_hello = Some ?send\<rparr>"
  let ?t = "\<lparr>tk_mapping = Some (dl_mapping s), tk_enumeration = Some (dl_enumeration s),
    tk_sessions = dl_sessionTable s, tk_port = Some ?port\<rparr>"
  have "?send ctx w \<noteq> None" for w
    by (rule darwin_hello_sends [OF fits, of "dl_MapperHwAddress s"
          "dl_MapperGenerationTopology s" w]) simp
  then have "tick_ok ?t" using ok by (auto simp: tick_ok_def darwin_ok_def port_sends_def)
  then obtain t' w' where t: "automata_tick ?P ?t w = Some (t', w')" "tick_ok t'"
    "if hello_now (p_millis ?P (w_reads w)) (?t\<lparr>tk_sessions := tk_sessions t'\<rparr>)
     then hello_effect (p_millis ?P (w_reads w)) (tk_port ?t) w (tk_port t') w'
     else tk_port t' = tk_port ?t \<and> w_events w' = w_events w"
    "tk_mapping t' \<noteq> None" "tk_enumeration t' \<noteq> None"
    by (rule automata_tick_runs [where P = ?P and w = w]) auto
  then obtain mau eau where au: "tk_mapping t' = Some mau" "tk_enumeration t' = Some eau" by auto
  have eff: "(\<exists>sent. tk_port t' = Some (?port\<lparr>tp_last_hello_tx_ms := Some sent\<rparr>)) \<and>
      (w_events w' = w_events w \<or> (\<exists>w1 w2. w_events w1 = w_events w \<and> ?send ctx w1 = Some w2 \<and>
         w_events w' = w_events w2))"
    using t(3) fits
    by (auto simp: hello_effect_def tick_send_hello_def bind_eq_Some_conv darwin_fits_def
        split: if_splits dest!: sym [where t = "tk_port t'"])
  then obtain sent where sent: "tk_port t' = Some (?port\<lparr>tp_last_hello_tx_ms := Some sent\<rparr>)" by blast
  let ?s = "s\<lparr>dl_mapping := mau, dl_enumeration := eau, dl_sessionTable := tk_sessions t',
    dl_LastHelloTxMs := sent\<rparr>"
  have run: "darwin_tick os nif ctx s w = Some (?s, w')"
    using t(1) au sent by (simp add: darwin_tick_def)
  have "darwin_ok ?s" using ok t(2) au by (simp add: darwin_ok_def tick_ok_def)
  moreover have "w_events w' = w_events w \<or> (\<exists>rc. w_events w' = w_events w @ [SendFrame ctx
       (darwin_hello_bytes ?P nif ctx 0 tos_discovery (dl_MapperHwAddress s)
         (dl_MapperHwAddress s) (dl_MapperGenerationTopology s)) rc])"
  proof (cases "w_events w' = w_events w")
    case False
    then obtain w1 w2 where w: "w_events w1 = w_events w" "?send ctx w1 = Some w2"
      "w_events w' = w_events w2" using eff by auto
    show ?thesis
      by (rule darwin_hello_sends [OF fits, of "dl_MapperHwAddress s"
            "dl_MapperGenerationTopology s" w1]) (use w in auto)
  qed simp
  ultimately show ?thesis by (intro that [OF run]) simp_all
qed

section \<open>The parts of a turn\<close>

text \<open>The entry of a session after a Discover: touched twice, with the event it caused.\<close>

definition discover_entry ::
    "session_key \<Rightarrow> u16 \<Rightarrow> int \<Rightarrow> u64 \<Rightarrow> u64 \<Rightarrow> session_entry option \<Rightarrow> session_entry" where
  "discover_entry k seq event t1 t2 old =
     (let e = touch k seq t1 old
      in e\<lparr>se_state := word_of_int event, last_activity_ts := t2,
           complete := (event = 3 \<or> event = 5 \<or> complete e)\<rparr>)"

lemma session_add_value:
  assumes ok: "table_ok t"
    and add: "session_table_add P (Some t) (Some m) g seq w = (Some i, Some t', w')"
  shows "table_ok t'" "i < length (entries t')" "valid (entries t' ! i)"
    "skey (entries t' ! i) = (m, g)" "w' = tick_read w"
    "entries t' ! i = touch (m, g) seq (p_seconds P (w_reads w)) (session_map t (m, g))"
    "session_map t' = (session_map t)((m, g) \<mapsto> entries t' ! i)"
proof -
  have at: "i < length (entries t') \<and> valid (entries t' ! i) \<and> skey (entries t' ! i) = (m, g)"
    by (rule add_at [OF add]) auto
  have "table_ok t' \<and> w' = tick_read w \<and> session_map t' = (session_map t)((m, g) \<mapsto>
      touch (m, g) seq (p_seconds P (w_reads w)) (session_map t (m, g)))"
    by (rule add_cases [OF ok, of m g P seq w]) (use add in \<open>auto simp: touch_def\<close>)
  moreover from this at have "entries t' ! i =
      touch (m, g) seq (p_seconds P (w_reads w)) (session_map t (m, g))"
    using map_at [of t' i] by auto
  ultimately show "table_ok t'" "i < length (entries t')" "valid (entries t' ! i)"
    "skey (entries t' ! i) = (m, g)" "w' = tick_read w"
    "entries t' ! i = touch (m, g) seq (p_seconds P (w_reads w)) (session_map t (m, g))"
    "session_map t' = (session_map t)((m, g) \<mapsto> entries t' ! i)"
    using at by auto
qed

lemma darwin_add_runs:
  assumes h: "opcode h = opcode_discover" "load_u16 (p_little_endian P) f 32 = Some raw"
    and ok: "table_ok t" and t: "dl_sessionTable s = Some t"
    and room: "session_map t (realSource h, lltd_ntohs (p_little_endian P) raw) \<noteq> None \<or> count t \<noteq> 16"
  obtains s' w' t' where "darwin_update_table P f h event s w = Some (s', w')"
    "dl_sessionTable s' = Some t'" "table_ok t'"
    "session_map t' = (session_map t)((realSource h, lltd_ntohs (p_little_endian P) raw) \<mapsto>
       discover_entry (realSource h, lltd_ntohs (p_little_endian P) raw)
         (lltd_ntohs (p_little_endian P) (seqNumber h)) event (p_seconds P (w_reads w))
         (p_seconds P (Suc (w_reads w)))
         (session_map t (realSource h, lltd_ntohs (p_little_endian P) raw)))"
    "dl_mapping s' = dl_mapping s" "dl_session s' = dl_session s"
    "dl_enumeration s' = dl_enumeration s" "dl_states s' = dl_states s"
    "dl_MapperHwAddress s' = realSource h" "w' = tick_read (tick_read w)"
proof -
  let ?g = "lltd_ntohs (p_little_endian P) raw" and ?m = "realSource h"
  let ?seq = "lltd_ntohs (p_little_endian P) (seqNumber h)"
  have "\<exists>i t1. session_table_add P (Some t) (Some ?m) ?g ?seq w = (Some i, Some t1, tick_read w)"
    by (rule add_cases [OF ok, of ?m ?g P ?seq w]) (use room in auto)
  then obtain i t1 where add: "session_table_add P (Some t) (Some ?m) ?g ?seq w =
    (Some i, Some t1, tick_read w)" by blast
  note v = session_add_value [OF ok add]
  define e where "e = darwin_note_event event (p_seconds P (Suc (w_reads w))) (entries t1 ! i)"
  have e: "valid e" "skey e = skey (entries t1 ! i)"
    using v(3) by (simp_all add: e_def darwin_note_event_def skey_def Let_def)
  have val: "e = discover_entry (?m, ?g) ?seq event (p_seconds P (w_reads w))
      (p_seconds P (Suc (w_reads w))) (session_map t (?m, ?g))"
    using v(6) by (auto simp: e_def darwin_note_event_def discover_entry_def Let_def)
  obtain t' where t': "session_table_update_complete_status
      (Some (t1\<lparr>entries := (entries t1)[i := e]\<rparr>)) = Some t'" "table_ok t'"
    "session_map t' = (session_map t1)(skey e \<mapsto> e)"
    by (rule overwrite_runs [OF v(1,2,3) e])
  have map: "session_map t' = (session_map t)((?m, ?g) \<mapsto> e)" using t'(3) v(7) e(2) v(4) by simp
  define s1 where "s1 = s\<lparr>dl_MapperHwAddress := ?m\<rparr>"
  define s2 where "s2 = (if tos h = tos_quick_discovery then s1\<lparr>dl_MapperGenerationQuick := ?g\<rparr>
    else s1\<lparr>dl_MapperGenerationTopology := ?g\<rparr>)"
  have "darwin_update_table P f h event s w =
      Some (s2\<lparr>dl_sessionTable := Some t'\<rparr>, tick_read (tick_read w))"
    using h t add t'(1) by (simp add: darwin_update_table_def s1_def s2_def flip: e_def)
  then show ?thesis
    by (rule that) (use t'(2) map val in \<open>simp_all add: s1_def s2_def\<close>)
qed

lemma darwin_update_table_runs:
  assumes h: "opcode h = opcode_discover \<Longrightarrow> 34 \<le> length f" and ok: "darwin_ok s"
  obtains s' w' where "darwin_update_table P f h event s w = Some (s', w')" "darwin_ok s'"
    "dl_mapping s' = dl_mapping s" "dl_session s' = dl_session s"
    "dl_enumeration s' = dl_enumeration s" "dl_states s' = dl_states s"
proof (cases "opcode h = opcode_discover")
  case False
  then show ?thesis using ok
    by (intro that [of "if opcode h = opcode_reset
          then s\<lparr>dl_sessionTable := session_table_clear (dl_sessionTable s)\<rparr> else s" w])
      (simp_all add: darwin_update_table_def darwin_ok_def)
next
  case True
  obtain raw where raw: "load_u16 (p_little_endian P) f 32 = Some raw"
    by (rule load_u16_in [of 32 f]) (use h [OF True] in simp_all)
  let ?g = "lltd_ntohs (p_little_endian P) raw" and ?m = "realSource h"
  let ?seq = "lltd_ntohs (p_little_endian P) (seqNumber h)"
  show ?thesis
  proof (cases "dl_sessionTable s")
    case None
    then show ?thesis using ok True raw
      by (intro that [of "s\<lparr>dl_sessionTable := None\<rparr>" w])
        (simp_all add: darwin_update_table_def darwin_ok_def session_table_add_def
          session_table_update_complete_status_def)
  next
    case (Some t)
    then have t: "table_ok t" using ok by (simp add: darwin_ok_def sessions_ok_def)
    show ?thesis
    proof (cases "session_map t (?m, ?g) \<noteq> None \<or> count t \<noteq> 16")
      case True
      show ?thesis
        by (rule darwin_add_runs [OF \<open>opcode h = opcode_discover\<close> raw t Some True,
              where event = event and w = w])
          (use that ok in \<open>auto simp: darwin_ok_def sessions_ok_def\<close>)
    next
      case False
      have "session_table_add P (Some t) (Some ?m) ?g ?seq w = (None, Some t, w)"
        by (rule add_cases [OF t, of ?m ?g P ?seq w]) (use False in simp_all)
      then have "darwin_update_table P f h event s w = Some (s\<lparr>dl_sessionTable := Some t\<rparr>
          \<lparr>dl_sessionTable := session_table_update_complete_status (Some t)\<rparr>, w)"
        using \<open>opcode h = opcode_discover\<close> raw Some by (simp add: darwin_update_table_def)
      then show ?thesis
        by (rule that) (use ok Some update_status_ok [OF t] in \<open>simp_all add: darwin_ok_def\<close>)
    qed
  qed
qed

text \<open>The mapping machine: a state that has timed out swallows the frame.\<close>

definition mapping_after :: "mapping_mode \<Rightarrow> u64 \<Rightarrow> int \<Rightarrow> mapping_mode" where
  "mapping_after m elapsed i = (if mapping_late m elapsed then Quiescent else mapping_next m i)"

lemma mapping_timers_run:
  obtains x' w' where
    "(let (x, w) = (if x \<noteq> None then mapping_reset_inactive_timeout P x w else (x, w));
          (x, w) = (if c \<and> x \<noteq> None then mapping_on_charge P x w else (x, w))
      in Some (g x, w)) = Some (g x', w')"
    "w_events w' = w_events w"
  by (cases x; cases c) (simp_all add: mapping_reset_inactive_timeout_def mapping_on_charge_def)

lemma darwin_update_mapping_runs:
  fixes P :: port and h :: lltd_demultiplex_header_t and w :: world
  assumes m: "mapping_in m (dl_mapping s)" and ok: "darwin_ok s"
  defines "m' \<equiv> mapping_after m (p_seconds P (w_reads w) - last_ts (dl_mapping s))
    (uint (opcode h))"
  obtains s' w' where "darwin_update_mapping P h s w = Some (s', w')" "darwin_ok s'"
    "mapping_in m' (dl_mapping s')"
    "dl_sessionTable s' = (if m \<noteq> Quiescent \<and> m' = Quiescent
       then session_table_clear (dl_sessionTable s) else dl_sessionTable s)"
    "dl_session s' = dl_session s" "dl_enumeration s' = dl_enumeration s"
    "dl_states s' = dl_states s" "w_events w' = w_events w"
proof -
  obtain au w1 where au: "switch_state_mapping P (dl_mapping s) (uint (opcode h)) w = Some (au, w1)"
    "mapping_in m' au" "w_events w1 = w_events w"
    by (rule switch_mapping_mode [OF m, where P = P and i = "uint (opcode h)" and w = w])
      (rule that, assumption, simp_all add: m'_def mapping_after_def)
  have code: "current_state (dl_mapping s) \<noteq> 0 \<longleftrightarrow> m \<noteq> Quiescent" "current_state au = 0 \<longleftrightarrow> m' = Quiescent"
    using m au(2) by (cases m; cases m'; simp add: mapping_in_def)+
  define s1 where "s1 = (if m \<noteq> Quiescent \<and> m' = Quiescent
    then s\<lparr>dl_sessionTable := session_table_clear (dl_sessionTable s)\<rparr> else s)"
  have s1: "darwin_ok s1" "dl_session s1 = dl_session s" "dl_enumeration s1 = dl_enumeration s"
    "dl_states s1 = dl_states s" "dl_sessionTable s1 = (if m \<noteq> Quiescent \<and> m' = Quiescent
       then session_table_clear (dl_sessionTable s) else dl_sessionTable s)"
    using ok by (simp_all add: s1_def darwin_ok_def)
  obtain x w2 where x0: "(let (x, w) = (if extra au \<noteq> None
        then mapping_reset_inactive_timeout P (extra au) w1 else (extra au, w1));
      (x, w) = (if opcode h = opcode_charge \<and> x \<noteq> None then mapping_on_charge P x w else (x, w))
    in Some (s1\<lparr>dl_mapping := au\<lparr>extra := x\<rparr>\<rparr>, w)) = Some (s1\<lparr>dl_mapping := au\<lparr>extra := x\<rparr>\<rparr>, w2)"
    "w_events w2 = w_events w1"
    by (rule mapping_timers_run [where x = "extra au" and P = P and w = w1
          and c = "opcode h = opcode_charge" and g = "\<lambda>x. s1\<lparr>dl_mapping := au\<lparr>extra := x\<rparr>\<rparr>"])
      (rule that)
  have x: "darwin_update_mapping P h s w = Some (s1\<lparr>dl_mapping := au\<lparr>extra := x\<rparr>\<rparr>, w2)"
    using x0(1) unfolding darwin_update_mapping_def au(1) s1_def
    by (simp only: Let_def code bind.bind_lunit prod.case)
  have "mapping_in m' (au\<lparr>extra := x\<rparr>)" using au(2) by simp
  then have "darwin_ok (s1\<lparr>dl_mapping := au\<lparr>extra := x\<rparr>\<rparr>)"
    using s1(1) by (auto simp: darwin_ok_def mapping_ok_def)
  with x show ?thesis
    by (rule that) (use s1(2,3,4,5) x0(2) au(2,3) in simp_all)
qed

text \<open>The enumeration machine: a Hello of another station, or the start of a session.\<close>

definition enum_after :: "enum_mode \<Rightarrow> u8 \<Rightarrow> enum_mode" where
  "enum_after q op = (if op = opcode_hello then enum_next q (uint (enum_hello :: u8))
     else if op = opcode_discover then enum_next q (uint (enum_new_session :: u8)) else q)"

text \<open>What a Hello or a Discover does to the RepeatBand state before the machine switches.\<close>

definition touch_band :: "port \<Rightarrow> u8 \<Rightarrow> bool \<Rightarrow> band_state option \<Rightarrow> world \<Rightarrow> band_state option \<times> world" where
  "touch_band P oc quiet band w =
     (if band = None then (None, w)
      else if oc = opcode_hello then (band_on_hello_received band, w)
      else if quiet then
        (let (b, w) = band_init_stats P band w; (_, b, w) = band_choose_hello_time P b w in (b, w))
      else (map_option (\<lambda>b. b\<lparr>begun := True\<rparr>) band, w))"

lemma touch_band_ok:
  assumes "touch_band P oc quiet band w = (x, w1)" "\<And>b. band = Some b \<Longrightarrow> Ni b \<le> 10000"
  shows "w_events w1 = w_events w" "x = Some b \<Longrightarrow> Ni b \<le> 10000"
  using assms
  by (cases band; auto simp: touch_band_def band_init_stats_def band_choose_hello_time_def
      band_on_hello_received_def Let_def split: if_splits)+

lemma darwin_update_enumeration_eq:
  assumes "opcode h = opcode_hello \<or> opcode h = opcode_discover"
    and "touch_band P (opcode h) (current_state (dl_enumeration s) = 0) (extra (dl_enumeration s)) w = (x, w1)"
  shows "darwin_update_enumeration P h s w =
    do { (e, w) \<leftarrow> switch_state_enumeration P ((dl_enumeration s)\<lparr>extra := x\<rparr>)
           (if opcode h = opcode_hello then uint (enum_hello :: u8) else uint (enum_new_session :: u8)) w1;
         Some (s\<lparr>dl_enumeration := e\<rparr>, w) }"
proof (cases "extra (dl_enumeration s)")
  case None
  have same: "(dl_enumeration s)\<lparr>extra := None\<rparr> = dl_enumeration s"
    using None by (cases "dl_enumeration s") simp
  then show ?thesis
    using assms None by (auto simp: darwin_update_enumeration_def touch_band_def Let_def same)
next
  case (Some b)
  then show ?thesis
    using assms by (auto simp: darwin_update_enumeration_def touch_band_def Let_def case_prod_beta)
qed

lemma darwin_update_enumeration_runs:
  assumes q: "enum_in q (dl_enumeration s)" and ok: "darwin_ok s"
  obtains s' w' where "darwin_update_enumeration P h s w = Some (s', w')" "darwin_ok s'"
    "enum_in (enum_after q (opcode h)) (dl_enumeration s')"
    "dl_mapping s' = dl_mapping s" "dl_sessionTable s' = dl_sessionTable s"
    "dl_session s' = dl_session s" "dl_states s' = dl_states s" "w_events w' = w_events w"
proof (cases "opcode h = opcode_hello \<or> opcode h = opcode_discover")
  case False
  then show ?thesis using q ok
    by (intro that [of s w]) (simp_all add: darwin_update_enumeration_def enum_after_def)
next
  case True
  obtain x w1 where x: "touch_band P (opcode h) (current_state (dl_enumeration s) = 0)
      (extra (dl_enumeration s)) w = (x, w1)" by fastforce
  have cap: "\<And>b. extra (dl_enumeration s) = Some b \<Longrightarrow> Ni b \<le> 10000"
    using ok by (simp add: darwin_ok_def enumeration_ok_def)
  note x' = touch_band_ok [OF x cap]
  let ?i = "if opcode h = opcode_hello then uint (enum_hello :: u8) else uint (enum_new_session :: u8)"
  let ?au = "(dl_enumeration s)\<lparr>extra := x\<rparr>"
  let ?au' = "?au\<lparr>current_state := enum_code (enum_next q ?i), last_ts := p_seconds P (w_reads w1)\<rparr>"
  have "enum_in q ?au" using q by simp
  from switch_state_enumeration_eq [OF this, where P = P and w = w1 and input = ?i]
  have run: "darwin_update_enumeration P h s w = Some (s\<lparr>dl_enumeration := ?au'\<rparr>, tick_read w1)"
    unfolding darwin_update_enumeration_eq [OF True x] by simp
  have mode: "enum_after q (opcode h) = enum_next q ?i" using True by (auto simp: enum_after_def)
  have au': "enum_in (enum_after q (opcode h)) ?au'"
    using enum_in_tables [OF q] unfolding mode by (simp del: enum_code.simps)
  moreover have "darwin_ok (s\<lparr>dl_enumeration := ?au'\<rparr>)"
    using ok au' x' by (auto simp: darwin_ok_def enumeration_ok_def simp del: enum_code.simps)
  ultimately show ?thesis using run x'(1) by (intro that [OF run]) (simp_all del: enum_code.simps)
qed

section \<open>A frame and a turn\<close>

lemma darwin_rx_runs:
  assumes fits: "darwin_fits os nif ctx" and ok: "darwin_ok s"
    and f: "frame_ready (p_little_endian (darwin_port os nif)) f"
    and h: "load_demux_header (p_little_endian (darwin_port os nif)) f = Some h"
    and m: "mapping_in m (dl_mapping s)" and q: "enum_in q (dl_enumeration s)"
  obtains s' w' event s1 w1 where "darwin_rx os nif ctx f s w = Some (s', w')" "darwin_ok s'"
    "derive_session_event (p_little_endian (darwin_port os nif)) (Some f) (dl_sessionTable s)
       (Some (dn_macAddress (nif ctx))) = Some event"
    "darwin_update_table (darwin_port os nif) f h event s w = Some (s1, w1)"
    "mapping_in (mapping_after m (p_seconds (darwin_port os nif) (w_reads w1) - last_ts (dl_mapping s))
       (uint (opcode h))) (dl_mapping s')"
    "dl_sessionTable s' = (if m \<noteq> Quiescent \<and> mapping_after m
         (p_seconds (darwin_port os nif) (w_reads w1) - last_ts (dl_mapping s))
         (uint (opcode h)) = Quiescent
       then session_table_clear (dl_sessionTable s1) else dl_sessionTable s1)"
    "enum_in (enum_after q (opcode h)) (dl_enumeration s')"
proof -
  let ?P = "darwin_port os nif"
  have calm: "calm_clock ?P" using fits by (simp add: darwin_fits_def)
  have complete: "frame_complete ?P ctx f"
    using f darwin_usable [OF fits] by (simp add: frame_complete_def frame_ready_def)
  obtain event where event: "derive_session_event (p_little_endian ?P) (Some f) (dl_sessionTable s)
      (Some (dn_macAddress (nif ctx))) = Some event"
    by (rule derive_runs [OF h, where table = "dl_sessionTable s" and mac = "dn_macAddress (nif ctx)"])
      (use f h in \<open>auto simp: frame_ready_def\<close>)
  have long: "opcode h = opcode_discover \<Longrightarrow> 34 \<le> length f"
    using f h by (simp add: frame_ready_def frame_needs_def)
  obtain s1 w1 where s1: "darwin_update_table ?P f h event s w = Some (s1, w1)" "darwin_ok s1"
    "dl_mapping s1 = dl_mapping s" "dl_session s1 = dl_session s"
    "dl_enumeration s1 = dl_enumeration s" "dl_states s1 = dl_states s"
    by (rule darwin_update_table_runs [where h = h, OF long ok, where P = ?P and event = event and w = w])
      (assumption, rule that)
  let ?m = "mapping_after m (p_seconds ?P (w_reads w1) - last_ts (dl_mapping s)) (uint (opcode h))"
  have m1: "mapping_in m (dl_mapping s1)" using m s1(3) by simp
  obtain s2 w2 where s2: "darwin_update_mapping ?P h s1 w1 = Some (s2, w2)" "darwin_ok s2"
    "mapping_in ?m (dl_mapping s2)"
    "dl_sessionTable s2 = (if m \<noteq> Quiescent \<and> ?m = Quiescent
       then session_table_clear (dl_sessionTable s1) else dl_sessionTable s1)"
    "dl_session s2 = dl_session s1" "dl_enumeration s2 = dl_enumeration s1"
    "dl_states s2 = dl_states s1"
    by (rule darwin_update_mapping_runs [OF m1 s1(2), where P = ?P and h = h and w = w1,
          unfolded s1(3)]) (rule that)
  obtain n where n: "session_in n (dl_session s2)" using s2(2) by (auto simp: darwin_ok_def)
  obtain sa w3 where sa: "(if 0 \<le> event then switch_state_session ?P (dl_session s2) event w2
      else Some (dl_session s2, w2)) = Some (sa, w3)" "\<exists>n. session_in n sa"
  proof (cases "0 \<le> event")
    case True
    obtain sa w3 where "switch_state_session ?P (dl_session s2) event w2 = Some (sa, w3)"
      "session_in (if 1 < p_seconds ?P (w_reads w2) - last_ts (dl_session s2) then Nascent
         else session_next n event) sa"
      by (rule session_switch_calm [OF n calm, where i = event and w = w2]) (rule that)
    with True show ?thesis by (intro that [of sa w3]) auto
  next
    case False
    with n show ?thesis by (intro that [of "dl_session s2" w2]) auto
  qed
  let ?s3 = "s2\<lparr>dl_session := sa\<rparr>"
  have s3: "darwin_ok ?s3" "enum_in q (dl_enumeration ?s3)"
    using s2(2,6) sa(2) q s1(5) by (simp_all add: darwin_ok_def)
  obtain s4 w4 where s4: "darwin_update_enumeration ?P h ?s3 w3 = Some (s4, w4)" "darwin_ok s4"
    "enum_in (enum_after q (opcode h)) (dl_enumeration s4)" "dl_mapping s4 = dl_mapping ?s3"
    "dl_sessionTable s4 = dl_sessionTable ?s3" "dl_states s4 = dl_states ?s3"
    by (rule darwin_update_enumeration_runs [OF s3(2,1), where P = ?P and h = h and w = w3]) (rule that)
  have "states_ok (dl_states s4)" using s4(2) by (simp add: darwin_ok_def)
  then obtain states w5 where states: "parseFrame ?P (Some f) ctx (dl_states s4, w4) = Some (states, w5)"
    "states_ok states"
    by (rule parseFrame_runs [OF _ complete, where w = w4]) (rule that)
  have run: "darwin_rx os nif ctx f s w = Some (s4\<lparr>dl_states := states\<rparr>, w5)"
    unfolding darwin_rx_def Let_def h event s1(1) s2(1) bind.bind_lunit prod.case sa(1) s4(1) states(1)
    by simp
  have "darwin_ok (s4\<lparr>dl_states := states\<rparr>)" using s4(2) states(2) by (simp add: darwin_ok_def)
  from that [OF run this event s1(1)] s2(3,4) s4(3,4,5) show ?thesis by simp
qed

lemma darwin_turn_runs:
  assumes fits: "darwin_fits os nif ctx" and ok: "darwin_ok s"
    and f: "0 \<le> fst r \<Longrightarrow> frame_ready (p_little_endian (darwin_port os nif)) (snd r)"
  obtains s' w' where "darwin_turn os nif ctx r s w = Some (s', w')" "darwin_ok s'"
proof (cases "fst r < 0")
  case True
  obtain s' w' where "darwin_tick os nif ctx s w = Some (s', w')" "darwin_ok s'"
    by (rule darwin_tick_runs [OF fits ok, where w = w]) (rule that)
  with True show ?thesis by (intro that [of s' w']) (simp_all add: darwin_turn_def case_prod_beta)
next
  case False
  then have ready: "frame_ready (p_little_endian (darwin_port os nif)) (snd r)" using f by simp
  then have "32 \<le> length (snd r)" by (simp add: frame_ready_def)
  then obtain h where h: "load_demux_header (p_little_endian (darwin_port os nif)) (snd r) = Some h"
    by (rule header_of)
  obtain m q where mq: "mapping_in m (dl_mapping s)" "enum_in q (dl_enumeration s)"
    using ok by (auto simp: darwin_ok_def mapping_ok_def enumeration_ok_def)
  obtain s1 w1 where s1: "darwin_rx os nif ctx (snd r) s w = Some (s1, w1)" "darwin_ok s1"
    by (rule darwin_rx_runs [OF fits ok ready h mq, where w = w]) (rule that)
  obtain s' w' where "darwin_tick os nif ctx s1 w1 = Some (s', w')" "darwin_ok s'"
    by (rule darwin_tick_runs [OF fits s1(2), where w = w1]) (rule that)
  with s1 False show ?thesis by (intro that [of s' w']) (simp_all add: darwin_turn_def case_prod_beta)
qed

lemma darwin_lltdLoop_runs:
  assumes fits: "darwin_fits os nif ctx"
  shows "darwin_ok s \<Longrightarrow>
    \<forall>r \<in> set rs. 0 \<le> fst r \<longrightarrow> frame_ready (p_little_endian (darwin_port os nif)) (snd r) \<Longrightarrow>
    \<exists>s' w'. darwin_lltdLoop os nif ctx rs s w = Some (s', w') \<and> darwin_ok s'"
proof (induction rs arbitrary: s w)
  case (Cons r rs)
  obtain s1 w1 where "darwin_turn os nif ctx r s w = Some (s1, w1)" "darwin_ok s1"
    by (rule darwin_turn_runs [OF fits Cons.prems(1), where r = r and w = w])
      (use Cons.prems(2) in auto)
  with Cons.IH [of s1 w1] Cons.prems(2) show ?case by simp
qed simp

text \<open>A Discover, up to what the mapping machine does to the table.\<close>

lemma darwin_discover_rx:
  fixes os :: darwin_env and nif :: "iface \<Rightarrow> darwin_interface" and w :: world
  assumes fits: "darwin_fits os nif ctx" and ok: "darwin_ok s"
  defines "P \<equiv> darwin_port os nif"
  assumes f: "frame_ready (p_little_endian P) f"
    and h: "load_demux_header (p_little_endian P) f = Some h" "opcode h = opcode_discover"
    and raw: "load_u16 (p_little_endian P) f 32 = Some raw"
    and k: "k = (realSource h, lltd_ntohs (p_little_endian P) raw)"
    and m: "mapping_in m (dl_mapping s)" and q: "enum_in q (dl_enumeration s)"
    and t: "dl_sessionTable s = Some t" "session_map t k \<noteq> None \<or> count t \<noteq> 16"
  defines "m' \<equiv> mapping_after m (p_seconds P (w_reads w + 2) - last_ts (dl_mapping s)) 0"
  obtains event s' w' t1 where "derive_session_event (p_little_endian P) (Some f) (dl_sessionTable s)
       (Some (dn_macAddress (nif ctx))) = Some event"
    "darwin_rx os nif ctx f s w = Some (s', w')" "darwin_ok s'"
    "dl_sessionTable s' = (if m \<noteq> Quiescent \<and> m' = Quiescent
       then session_table_clear (Some t1) else Some t1)"
    "session_map t1 = (session_map t)(k \<mapsto> discover_entry k
       (lltd_ntohs (p_little_endian P) (seqNumber h)) event (p_seconds P (w_reads w))
       (p_seconds P (w_reads w + 1)) (session_map t k))"
    "mapping_in m' (dl_mapping s')" "enum_in EnumPausing (dl_enumeration s')"
proof -
  obtain s' w' event s1 w1 where rx: "darwin_rx os nif ctx f s w = Some (s', w')" "darwin_ok s'"
    "derive_session_event (p_little_endian P) (Some f) (dl_sessionTable s)
       (Some (dn_macAddress (nif ctx))) = Some event"
    "darwin_update_table P f h event s w = Some (s1, w1)"
    "mapping_in (mapping_after m (p_seconds P (w_reads w1) - last_ts (dl_mapping s))
       (uint (opcode h))) (dl_mapping s')"
    "dl_sessionTable s' = (if m \<noteq> Quiescent \<and> mapping_after m
         (p_seconds P (w_reads w1) - last_ts (dl_mapping s)) (uint (opcode h)) = Quiescent
       then session_table_clear (dl_sessionTable s1) else dl_sessionTable s1)"
    "enum_in (enum_after q (opcode h)) (dl_enumeration s')"
    using darwin_rx_runs [OF fits ok, folded P_def, OF f h(1) m q] by blast
  have tok: "table_ok t" using ok t(1) by (simp add: darwin_ok_def sessions_ok_def)
  obtain s2 t1 where add: "darwin_update_table P f h event s w = Some (s2, tick_read (tick_read w))"
    "dl_sessionTable s2 = Some t1"
    "session_map t1 = (session_map t)(k \<mapsto> discover_entry k
       (lltd_ntohs (p_little_endian P) (seqNumber h)) event (p_seconds P (w_reads w))
       (p_seconds P (Suc (w_reads w))) (session_map t k))"
    unfolding k
    by (rule darwin_add_runs [OF h(2) raw tok t(1) t(2) [unfolded k], where event = event and w = w])
      (auto intro: that)
  have same: "s1 = s2" "w_reads w1 = w_reads w + 2" using rx(4) add(1) by auto
  have q': "enum_after q (opcode h) = EnumPausing" using h(2) by (cases q) (simp_all add: enum_after_def)
  show ?thesis
    by (rule that [OF rx(3) rx(1,2)])
      (use rx(5,6,7) add(2,3) same h(2) q' in \<open>simp_all add: m'_def\<close>)
qed

text \<open>A Discover of a new mapper or generation when the table is full: the table stays.\<close>

lemma darwin_full_rx:
  fixes os :: darwin_env and nif :: "iface \<Rightarrow> darwin_interface" and w :: world
  assumes fits: "darwin_fits os nif ctx" and ok: "darwin_ok s"
  defines "P \<equiv> darwin_port os nif"
  assumes f: "frame_ready (p_little_endian P) f"
    and h: "load_demux_header (p_little_endian P) f = Some h" "opcode h = opcode_discover"
    and raw: "load_u16 (p_little_endian P) f 32 = Some raw"
    and k: "k = (realSource h, lltd_ntohs (p_little_endian P) raw)"
    and m: "mapping_in m (dl_mapping s)" and q: "enum_in q (dl_enumeration s)"
    and t: "dl_sessionTable s = Some t" "session_map t k = None" "count t = 16"
  defines "m' \<equiv> mapping_after m (p_seconds P (w_reads w) - last_ts (dl_mapping s)) 0"
  obtains event s' w' where "derive_session_event (p_little_endian P) (Some f) (dl_sessionTable s)
       (Some (dn_macAddress (nif ctx))) = Some event"
    "darwin_rx os nif ctx f s w = Some (s', w')" "darwin_ok s'"
    "dl_sessionTable s' = (if m \<noteq> Quiescent \<and> m' = Quiescent
       then session_table_clear (Some t) else Some t)"
    "mapping_in m' (dl_mapping s')" "enum_in EnumPausing (dl_enumeration s')"
proof -
  obtain s' w' event s1 w1 where rx: "darwin_rx os nif ctx f s w = Some (s', w')" "darwin_ok s'"
    "derive_session_event (p_little_endian P) (Some f) (dl_sessionTable s)
       (Some (dn_macAddress (nif ctx))) = Some event"
    "darwin_update_table P f h event s w = Some (s1, w1)"
    "mapping_in (mapping_after m (p_seconds P (w_reads w1) - last_ts (dl_mapping s))
       (uint (opcode h))) (dl_mapping s')"
    "dl_sessionTable s' = (if m \<noteq> Quiescent \<and> mapping_after m
         (p_seconds P (w_reads w1) - last_ts (dl_mapping s)) (uint (opcode h)) = Quiescent
       then session_table_clear (dl_sessionTable s1) else dl_sessionTable s1)"
    "enum_in (enum_after q (opcode h)) (dl_enumeration s')"
    using darwin_rx_runs [OF fits ok, folded P_def, OF f h(1) m q] by blast
  have tok: "table_ok t" using ok t(1) by (simp add: darwin_ok_def sessions_ok_def)
  have "session_table_add P (Some t) (Some (realSource h)) (lltd_ntohs (p_little_endian P) raw)
      (lltd_ntohs (p_little_endian P) (seqNumber h)) w = (None, Some t, w)"
    by (rule add_cases [OF tok, of "realSource h" "lltd_ntohs (p_little_endian P) raw" P
          "lltd_ntohs (p_little_endian P) (seqNumber h)" w]) (use t(2,3) k in simp_all)
  then have "darwin_update_table P f h event s w = Some (s\<lparr>dl_sessionTable := Some t\<rparr>, w)"
    using h(2) raw t(1) by (simp add: darwin_update_table_def update_status_ok [OF tok])
  with rx(4) have same: "dl_sessionTable s1 = Some t" "w1 = w" by auto
  have q': "enum_after q (opcode h) = EnumPausing" using h(2) by (cases q) (simp_all add: enum_after_def)
  show ?thesis
    by (rule that [OF rx(3) rx(1,2)])
      (use rx(5,6,7) same h(2) q' in \<open>simp_all add: m'_def\<close>)
qed

end
