(* ===== verification/LltdTickProgress.thy ===== *)
theory LltdTickProgress
  imports LltdTickLemmas
begin

text \<open>
  Time passes: every tick reads the clock, a tick that does not fire the inactivity timer
  leaves it armed, and a tick of machines at rest leaves them at rest.  These are the steps
  of the argument that an interface on which nothing arrives falls silent.
\<close>

section \<open>Clock readings only go forward\<close>

text \<open>Each step as a rule for \<open>w_reads v \<le> w_reads w'\<close>.\<close>

lemma switch_once_reads:
  "switch_once P au i w = Some (r, w') \<Longrightarrow> w_reads w \<le> w_reads w'"
  by (auto simp: switch_once_def bind_eq_Some_conv Let_def case_prod_beta)

lemma switch_mapping_reads:
  assumes "switch_state_mapping P au i w = Some (au', w')"
  shows "w_reads v \<le> w_reads w \<Longrightarrow> w_reads v \<le> w_reads w'"
proof -
  let ?I = "\<lambda>(((P, au), i), w) y. w_reads w \<le> w_reads (snd y)"
  have "?I (((P, au), i), w) (au', w')"
    by (rule switch_state_mapping.raw_induct [where Pa = ?I, OF _ assms])
      (fastforce simp: bind_eq_Some_conv dest!: switch_once_reads intro: order_trans
        split: if_splits prod.splits)
  then show "w_reads v \<le> w_reads w \<Longrightarrow> w_reads v \<le> w_reads w'" by simp
qed

lemma switch_enumeration_reads:
  "switch_state_enumeration P au i w = Some (au', w') \<Longrightarrow> w_reads v \<le> w_reads w \<Longrightarrow>
     w_reads v \<le> w_reads w'"
  by (auto simp: switch_state_enumeration_def bind_eq_Some_conv Let_def case_prod_beta)

lemma timers_read:
  "w_reads v \<le> w_reads w \<Longrightarrow> w_reads v \<le> w_reads (snd (mapping_check_inactive_timeout P m w))"
  "w_reads v \<le> w_reads w \<Longrightarrow> w_reads v \<le> w_reads (snd (snd (mapping_check_charge_timeout P m w)))"
  "w_reads v \<le> w_reads w \<Longrightarrow> w_reads v \<le> w_reads (snd (band_do_hello P x w))"
  "w_reads v \<le> w_reads w \<Longrightarrow> w_reads v \<le> w_reads (snd (tick_block P now au w))"
  by (auto simp: mapping_check_inactive_timeout_def mapping_check_charge_timeout_def band_do_hello_def
      band_choose_hello_time_def tick_block_def band_update_stats_def Let_def case_prod_beta
      split: option.splits)

lemma tick_mapping_reads:
  "tick_mapping P s w = Some (s', w') \<Longrightarrow> w_reads w \<le> w_reads w'"
  by (auto simp: tick_mapping_def bind_eq_Some_conv case_prod_beta intro!: timers_read
      intro: switch_mapping_reads split: option.splits if_splits)

text \<open>A Hello function that does not turn the clock back.\<close>

definition hello_forward :: "lltd_automata_tick_port option \<Rightarrow> bool" where
  "hello_forward port \<longleftrightarrow> (\<forall>p send w w'. port = Some p \<and> tp_send_hello p = Some send \<and>
     send (tp_network_interface p) w = Some w' \<longrightarrow> w_reads w \<le> w_reads w')"

lemma tick_send_hello_reads:
  "tick_send_hello now p w = Some (p', w') \<Longrightarrow> hello_forward p \<Longrightarrow> w_reads v \<le> w_reads w \<Longrightarrow>
     w_reads v \<le> w_reads w'"
  by (auto simp: tick_send_hello_def hello_forward_def bind_eq_Some_conv intro: order_trans
      split: option.splits if_splits)

lemma tick_hello_reads:
  "tick_hello P now au b p w = Some (au', p', w') \<Longrightarrow> hello_forward p \<Longrightarrow> w_reads v \<le> w_reads w \<Longrightarrow>
     w_reads v \<le> w_reads w'"
  by (auto simp: tick_hello_def bind_eq_Some_conv Let_def case_prod_beta
      elim!: switch_enumeration_reads intro!: timers_read elim: tick_send_hello_reads split: if_splits)

lemma tick_enum_state_reads:
  "tick_enum_state P au t w = Some (au', w') \<Longrightarrow> w_reads v \<le> w_reads w \<Longrightarrow> w_reads v \<le> w_reads w'"
  by (auto simp: tick_enum_state_def intro: switch_enumeration_reads split: if_splits)

lemma tick_enumeration_reads:
  "hello_forward (tk_port s) \<Longrightarrow> tick_enumeration P now s w = Some (s', w') \<Longrightarrow>
     w_reads w \<le> w_reads w'"
  by (auto simp: tick_enumeration_def bind_eq_Some_conv case_prod_beta
      intro: timers_read tick_hello_reads tick_enum_state_reads split: option.splits if_splits)

lemma tick_mapping_port:
  "tick_mapping P s w = Some (s', w') \<Longrightarrow> tk_port s' = tk_port s \<and> tk_enumeration s' = tk_enumeration s"
  by (auto simp: tick_mapping_def bind_eq_Some_conv case_prod_beta split: option.splits if_splits)

lemma automata_tick_reads:
  assumes "hello_forward (tk_port s)" "automata_tick P s w = Some (s', w')"
  shows "w_reads w + 2 \<le> w_reads w'"
proof -
  obtain s1 w1 where 1: "tick_mapping P s (tick_read (tick_read w)) = Some (s1, w1)"
    "tick_enumeration P (p_millis P (w_reads w))
       (s1\<lparr>tk_sessions := tick_sessions (p_seconds P (Suc (w_reads w))) (tk_sessions s1)\<rparr>) w1 =
     Some (s', w')"
    using assms(2) by (auto simp: automata_tick_def bind_eq_Some_conv)
  have "w_reads w + 2 \<le> w_reads w1" using tick_mapping_reads [OF 1(1)] by simp
  also have "\<dots> \<le> w_reads w'"
    by (rule tick_enumeration_reads [OF _ 1(2)]) (use assms(1) tick_mapping_port [OF 1(1)] in simp)
  finally show ?thesis .
qed

section \<open>The inactivity timer stays armed\<close>

lemma tick_mapping_armed:
  assumes "tick_mapping P s w = Some (s', w')" "\<not> inactive_fires P s w"
    and "tk_mapping s = Some au" "extra au = Some m"
  shows "\<exists>m'. tk_mapping s' = Some (au\<lparr>extra := Some m'\<rparr>) \<and>
    inactive_timeout_ts m' = inactive_timeout_ts m"
  using assms
  by (auto simp: tick_mapping_def inactive_fires_def mapping_check_inactive_timeout_def
      mapping_check_charge_timeout_def Let_def split: if_splits)

lemma tick_enumeration_mapping:
  "tick_enumeration P now s w = Some (s', w') \<Longrightarrow> tk_mapping s' = tk_mapping s"
  by (auto simp: tick_enumeration_def bind_eq_Some_conv case_prod_beta split: option.splits if_splits)

lemma automata_tick_armed:
  assumes "automata_tick P s w = Some (s', w')" "\<not> inactive_fires P s (tick_read (tick_read w))"
    and "tk_mapping s = Some au" "extra au = Some m"
  shows "\<exists>m'. tk_mapping s' = Some (au\<lparr>extra := Some m'\<rparr>) \<and>
    inactive_timeout_ts m' = inactive_timeout_ts m"
proof -
  obtain s1 w1 where 1: "tick_mapping P s (tick_read (tick_read w)) = Some (s1, w1)"
    "tick_enumeration P (p_millis P (w_reads w))
       (s1\<lparr>tk_sessions := tick_sessions (p_seconds P (Suc (w_reads w))) (tk_sessions s1)\<rparr>) w1 =
     Some (s', w')"
    using assms(1) by (auto simp: automata_tick_def bind_eq_Some_conv)
  show ?thesis
    using tick_mapping_armed [OF 1(1) assms(2-4)] tick_enumeration_mapping [OF 1(2)] by simp
qed

end
