(* ===== verification/LltdDarwinProps.thy ===== *)
theory LltdDarwinProps
  imports LltdDarwinLoop LltdTickProgress LltdTickProps
begin

text \<open>
  The properties of the macOS daemon: its loop never leaves its buffers and keeps the
  invariant, a Discover opens a session and starts the machines unless the mapping machine
  had timed out, its two kinds of Hello agree exactly on WiFi interfaces, and an interface
  on which nothing arrives falls silent.
\<close>

section \<open>A concrete daemon\<close>

definition demo_darwin_env :: darwin_env where
  "demo_darwin_env = \<lparr>de_little_endian = True, de_timebase = (1, 1),
     de_mach_absolute_time = (\<lambda>i. of_nat (min i 100) * 1000000000), de_malloc = (\<lambda>i n. True),
     de_scratch_malloc = (\<lambda>n. True), de_sendto = (\<lambda>i fd f. int (length f)),
     de_getifaddrs = None, de_machine_name = (None, 0), de_serial_number = None,
     de_platform_uuid = None, de_hw_id = (\<lambda>i. 0), de_icon_image = (\<lambda>w. ((None, 0), w)),
     de_friendly_name = (\<lambda>w. ((None, 0), w)), de_wifi_media = (\<lambda>i. False),
     de_copyWiFiProperty = (\<lambda>i k. None)\<rparr>"

definition demo_nif :: "iface \<Rightarrow> darwin_interface" where
  "demo_nif i = \<lparr>dn_deviceName = ''en0'', dn_ifType = 6, dn_interfaceType = NetworkInterfaceTypeEthernet,
     dn_flags = 0, dn_MediumType = 0, dn_MTU = 1500, dn_LinkSpeed = 1000000000, dn_socket = 3,
     dn_macAddress = EthernetBroadcast\<rparr>"

definition demo_darwin :: darwin_loop where
  "demo_darwin = \<lparr>dl_MapperHwAddress = zero_mac, dl_MapperGenerationTopology = 0,
     dl_MapperGenerationQuick = 0, dl_LastHelloTxMs = 0, dl_mapping = demo_mapping,
     dl_session = demo_session, dl_enumeration = demo_enumeration,
     dl_sessionTable = Some demo_table, dl_states = []\<rparr>"

lemma demo_darwin_seconds: "p_seconds (darwin_port demo_darwin_env demo_nif) i =
    of_nat (min i 100) * 1000000000 div 1000000000"
  by (simp add: darwin_port_def darwin_monotonic_seconds_def lltd_mach_now_ns_def demo_darwin_env_def)

lemma demo_darwin_fits: "darwin_fits demo_darwin_env demo_nif 1"
proof -
  have "calm_clock (darwin_port demo_darwin_env demo_nif)"
    unfolding calm_clock_def
  proof
    fix n
    show "\<exists>k \<ge> n. p_seconds (darwin_port demo_darwin_env demo_nif) (Suc k) -
        p_seconds (darwin_port demo_darwin_env demo_nif) k \<le> 1"
      by (intro exI [of _ "max n 100"]) (simp add: demo_darwin_seconds)
  qed
  then show ?thesis
    by (simp add: darwin_fits_def darwin_frameworks_def block_given_def demo_darwin_env_def demo_nif_def)
qed

lemma demo_darwin_ok: "darwin_ok demo_darwin"
  using demo_mapping_in demo_session_in demo_enumeration_in demo_table_ok
  by (auto simp: darwin_ok_def demo_darwin_def mapping_ok_def enumeration_ok_def sessions_ok_def
      states_ok_def demo_enumeration_def demo_band_def)

lemma demo_discover_ready: "frame_ready True demo_discover"
proof -
  have "length demo_discover = 36" "lltd_ntohs True 0 = 0" by code_simp+
  with demo_discover_loads show ?thesis
    by (simp add: frame_ready_def frame_needs_def stations_complete_def)
qed

section \<open>The loop\<close>

text \<open>
  C21.  On an interface whose MTU has room for a Hello, with a clock that calms down and system
  frameworks that keep their contracts, the macOS loop handles every sequence of timeouts and
  of frames that hold the bytes they announce: it returns from each turn, reads and writes
  only within its buffers, and keeps the invariant of machines, session table and protocol
  core.
\<close>

theorem darwin_loop_safe:
  assumes "darwin_fits os nif ctx" "darwin_ok s"
    and "\<forall>r \<in> set rs. 0 \<le> fst r \<longrightarrow> frame_ready (p_little_endian (darwin_port os nif)) (snd r)"
  shows "\<exists>s' w'. darwin_lltdLoop os nif ctx rs s w = Some (s', w') \<and> darwin_ok s'"
  by (rule darwin_lltdLoop_runs [OF assms])

theorem darwin_loop_safe_witness:
  "\<exists>s' w'. darwin_lltdLoop demo_darwin_env demo_nif 1 [(-1, []), (36, demo_discover)] demo_darwin
     world0 = Some (s', w') \<and> darwin_ok s'"
  by (rule darwin_loop_safe [OF demo_darwin_fits demo_darwin_ok])
    (use demo_discover_ready in \<open>simp add: darwin_port_def demo_darwin_env_def\<close>)

text \<open>
  C22.  A Discover that arrives in time (a Command state lasts at most one second so far, an
  Emit state at most 30) is entered into the session table under its mapper and generation,
  with the event it was classified as and the time it came: a known session is renewed, a
  new one is opened, and the others stay.  Only when the table already holds 16 sessions and
  not this one, it stays as it is.  Either way the mapping machine is then in Command, or
  still in Emit, and a session that is not complete has the enumeration machine in Pausing.
\<close>

theorem darwin_discover_registers:
  assumes "darwin_fits os nif ctx" "darwin_ok s" "P = darwin_port os nif"
    and "frame_ready (p_little_endian P) f"
    and "load_demux_header (p_little_endian P) f = Some h" "opcode h = opcode_discover"
    and "load_u16 (p_little_endian P) f 32 = Some raw"
    and "k = (realSource h, lltd_ntohs (p_little_endian P) raw)"
    and "mapping_in m (dl_mapping s)" "enum_in q (dl_enumeration s)"
    and "dl_sessionTable s = Some t"
    and "full \<longleftrightarrow> session_map t k = None \<and> count t = 16"
    and "elapsed = p_seconds P (w_reads w + (if full then 0 else 2)) - last_ts (dl_mapping s)"
    and "m = Command \<Longrightarrow> elapsed \<le> 1" "m = Emitting \<Longrightarrow> elapsed \<le> 30"
  shows "\<exists>event s' w' t'. derive_session_event (p_little_endian P) (Some f) (dl_sessionTable s)
       (Some (dn_macAddress (nif ctx))) = Some event \<and>
    darwin_rx os nif ctx f s w = Some (s', w') \<and> dl_sessionTable s' = Some t' \<and>
    session_map t' = (if full then session_map t
      else (session_map t)(k \<mapsto> discover_entry k
        (lltd_ntohs (p_little_endian P) (seqNumber h)) event (p_seconds P (w_reads w))
        (p_seconds P (w_reads w + 1)) (session_map t k))) \<and>
    mapping_in (if m = Emitting then Emitting else Command) (dl_mapping s') \<and>
    (\<forall>e. session_map t' k = Some e \<and> \<not> complete e \<longrightarrow> enum_in EnumPausing (dl_enumeration s'))"
proof -
  have "\<not> mapping_late m elapsed"
  proof (cases m)
    case Command
    have "(1 :: u64) < 5" by simp
    with Command assms(14) show ?thesis by (auto simp: not_less intro: order.trans less_imp_le)
  qed (use assms(15) in \<open>simp_all add: not_less\<close>)
  then have m': "mapping_after m elapsed 0 = (if m = Emitting then Emitting else Command)"
    by (cases m) (simp_all add: mapping_after_def)
  show ?thesis
  proof (cases full)
    case True
    note rx = darwin_full_rx [where w = w and raw = raw, OF assms(1,2), folded assms(3), OF assms(4-11)]
    have "mapping_after m (p_seconds P (w_reads w) - last_ts (dl_mapping s)) 0 =
        (if m = Emitting then Emitting else Command)"
      using m' True assms(13) by simp
    note rx = rx [unfolded this]
    show ?thesis by (rule rx) (use True assms(12) in \<open>auto split: if_splits\<close>)
  next
    case False
    have room: "session_map t k \<noteq> None \<or> count t \<noteq> 16" using False assms(12) by simp
    have "mapping_after m (p_seconds P (w_reads w + 2) - last_ts (dl_mapping s)) 0 =
        (if m = Emitting then Emitting else Command)"
      using m' False assms(13) by simp
    note rx = darwin_discover_rx [where w = w and raw = raw, OF assms(1,2), folded assms(3),
        OF assms(4-11) room, unfolded this]
    show ?thesis by (rule rx) (use False in \<open>auto split: if_splits\<close>)
  qed
qed

lemma demo_darwin_run:
  "p_little_endian (darwin_port demo_darwin_env demo_nif) = True"
  "load_demux_header True demo_discover = Some demo_discover_header"
  "dl_sessionTable demo_darwin = Some demo_table" "count demo_table \<noteq> 16"
  "mapping_in Command (dl_mapping demo_darwin)" "enum_in EnumPausing (dl_enumeration demo_darwin)"
  using demo_discover_loads demo_mapping_in demo_enumeration_in
  by (simp_all add: darwin_port_def demo_darwin_env_def demo_darwin_def demo_table_def)

text \<open>The same daemon, with the mapping machine just entered.\<close>

definition recent_darwin :: darwin_loop where
  "recent_darwin = demo_darwin\<lparr>dl_mapping := demo_mapping\<lparr>last_ts := 2\<rparr>\<rparr>"

lemma recent_darwin_ok: "darwin_ok recent_darwin" "mapping_in Command (dl_mapping recent_darwin)"
  "enum_in EnumPausing (dl_enumeration recent_darwin)" "dl_sessionTable recent_darwin = Some demo_table"
  using demo_darwin_ok demo_mapping_in demo_enumeration_in
  by (auto simp: recent_darwin_def darwin_ok_def mapping_ok_def demo_darwin_def mapping_in_def)

theorem darwin_discover_registers_witness:
  "\<exists>event s' w' t'. derive_session_event True (Some demo_discover) (Some demo_table)
       (Some (dn_macAddress (demo_nif 1))) = Some event \<and>
    darwin_rx demo_darwin_env demo_nif 1 demo_discover recent_darwin world0 = Some (s', w') \<and>
    dl_sessionTable s' = Some t' \<and>
    session_map t' = (if False then session_map demo_table
      else (session_map demo_table)((zero_mac, lltd_ntohs True 0x0300) \<mapsto>
        discover_entry (zero_mac, lltd_ntohs True 0x0300)
        (lltd_ntohs True (seqNumber demo_discover_header)) event
        (p_seconds (darwin_port demo_darwin_env demo_nif) (w_reads world0))
        (p_seconds (darwin_port demo_darwin_env demo_nif) (w_reads world0 + 1))
        (session_map demo_table (zero_mac, lltd_ntohs True 0x0300)))) \<and>
    mapping_in (if Command = Emitting then Emitting else Command) (dl_mapping s') \<and>
    (\<forall>e. session_map t' (zero_mac, lltd_ntohs True 0x0300) = Some e \<and> \<not> complete e \<longrightarrow>
       enum_in EnumPausing (dl_enumeration s'))"
proof -
  have room: "False \<longleftrightarrow> session_map demo_table (zero_mac, lltd_ntohs True 0x0300) = None \<and>
      count demo_table = 16"
    using demo_darwin_run(4) by simp
  have elapsed: "p_seconds (darwin_port demo_darwin_env demo_nif)
      (w_reads world0 + (if False then 0 else 2)) - last_ts (dl_mapping recent_darwin) \<le> 1"
    by (simp add: demo_darwin_seconds world0_def recent_darwin_def)
  note run = darwin_discover_registers [OF demo_darwin_fits recent_darwin_ok(1) refl,
      unfolded demo_darwin_run(1), unfolded recent_darwin_ok(4), OF demo_discover_ready
      demo_darwin_run(2) demo_discover_loads(2,4) refl recent_darwin_ok(2,3) refl,
      unfolded demo_discover_loads(3), OF room refl elapsed]
  then show ?thesis by simp
qed

text \<open>
  C23.  A Discover that arrives after the Command state has lasted more than 5 seconds (or
  the Emit state more than 30) is lost for the table: the session it opened is dropped in
  the same turn together with all others and the mapping machine is left in Quiescent,
  while the enumeration machine starts pausing for a session that no longer exists.
\<close>

theorem darwin_late_discover_lost:
  assumes "darwin_fits os nif ctx" "darwin_ok s" "P = darwin_port os nif"
    and "frame_ready (p_little_endian P) f"
    and "load_demux_header (p_little_endian P) f = Some h" "opcode h = opcode_discover"
    and "load_u16 (p_little_endian P) f 32 = Some raw"
    and "k = (realSource h, lltd_ntohs (p_little_endian P) raw)"
    and "mapping_in m (dl_mapping s)" "enum_in q (dl_enumeration s)"
    and "dl_sessionTable s = Some t" "session_map t k \<noteq> None \<or> count t \<noteq> 16"
    and "mapping_late m (p_seconds P (w_reads w + 2) - last_ts (dl_mapping s))"
  shows "\<exists>s' w' t'. darwin_rx os nif ctx f s w = Some (s', w') \<and> dl_sessionTable s' = Some t' \<and>
    session_map t' = Map.empty \<and> mapping_in Quiescent (dl_mapping s') \<and>
    enum_in EnumPausing (dl_enumeration s')"
proof -
  have m': "mapping_after m (p_seconds P (w_reads w + 2) - last_ts (dl_mapping s)) 0 = Quiescent"
    "m \<noteq> Quiescent"
    using assms(13) by (auto simp: mapping_after_def)
  note rx = darwin_discover_rx [where w = w and raw = raw, OF assms(1,2), folded assms(3),
      OF assms(4-12), unfolded m'(1)]
  show ?thesis by (rule rx) (use m'(2) zero_table_ok in \<open>auto simp: session_table_clear_def\<close>)
qed

definition stale_world :: world where
  "stale_world = world0\<lparr>w_reads := 30\<rparr>"

theorem darwin_late_discover_lost_witness:
  "\<exists>s' w' t'. darwin_rx demo_darwin_env demo_nif 1 demo_discover demo_darwin stale_world =
      Some (s', w') \<and> dl_sessionTable s' = Some t' \<and>
    session_map t' = Map.empty \<and> mapping_in Quiescent (dl_mapping s') \<and>
    enum_in EnumPausing (dl_enumeration s')"
proof -
  have now: "mapping_late Command (p_seconds (darwin_port demo_darwin_env demo_nif)
      (w_reads stale_world + 2) - last_ts (dl_mapping demo_darwin))"
    by (simp add: demo_darwin_seconds stale_world_def world0_def demo_darwin_def demo_mapping_def)
  show ?thesis
    by (rule darwin_late_discover_lost [OF demo_darwin_fits demo_darwin_ok refl,
      unfolded demo_darwin_run(1,3), OF demo_discover_ready demo_darwin_run(2)
      demo_discover_loads(2,4) refl demo_darwin_run(5,6) refl disjI2 [OF demo_darwin_run(4)] now])
qed

section \<open>The two Hellos\<close>

lemma darwin_wifi_mode_getter: "fst (p_wifi_mode (darwin_port os nif) ctx) = 0"
  by (simp add: darwin_port_def darwin_get_wifi_mode_def WgetWirelessMode_def)

text \<open>The types of the properties that describe a radio.\<close>

abbreviation (input) wifi_types :: "u8 set" where
  "wifi_types \<equiv> {tlv_wifimode, tlv_bssid, tlv_ssid, tlv_wifiMaxRate, tlv_wifiRssi}"

context lltd_port_contract begin

lemma parse_darwin_tlvs:
  assumes "fst (p_wifi_mode P ctx) = 0"
  shows "parse_tlvs (darwin_tlvs P nif ctx) =
    Some (if dn_interfaceType (nif ctx) = NetworkInterfaceTypeIEEE80211 then hello_properties P ctx
      else filter (\<lambda>(t, v). t \<notin> wifi_types) (hello_properties P ctx))"
proof (cases "dn_interfaceType (nif ctx) = NetworkInterfaceTypeIEEE80211")
  case True
  then have "darwin_tlvs P nif ctx = hello_tlvs P ctx"
    using assms by (simp add: hello_tlvs_def darwin_tlvs_def hello_wifi_tlvs_def darwin_wifi_tlvs_def)
  with True parse_hello_tlvs [of ctx] show ?thesis by simp
next
  case False
  have "length (take (snd (p_hostname P 32)) (fst (p_hostname P 32))) < 256"
    using hostname_cap [of 32] by simp
  with False assms show ?thesis
    unfolding darwin_tlvs_def darwin_wifi_tlvs_def hello_properties_def host_id_enc_def
      characteristics_enc_def if_type_enc_def ipv4_enc_def ipv6_enc_def perf_counter_enc_def
      link_speed_enc_def hostname_enc_def qos_enc_def
    by (simp add: parse_tlvs_cons parse_tlvs_end)
qed

end

text \<open>
  C24.  The two places that write the properties of a Hello, run on the same buffer with
  room for 160 bytes, write the same bytes exactly when the interface is a WiFi one.  The
  chain of the answer to a Discover reads back, and the chain of the periodic Hello reads
  back as the same properties in the same order, on any other interface without those that
  describe a radio: the port's WiFi mode getter never fails on macOS, so the answer
  describes a radio on every interface, while the periodic Hello asks for the type of the
  interface.
\<close>

theorem darwin_hellos_agree_on_wifi:
  assumes "darwin_frameworks os" "off + 160 \<le> length b"
  shows "\<exists>b1 n1 b2 n2 ps. hello_tlv_block (darwin_port os nif) ctx (b, off) = Some (b1, n1) \<and>
    darwin_tlv_block (darwin_port os nif) nif ctx (b, off) = Some (b2, n2) \<and>
    (take n1 b1 = take n2 b2 \<longleftrightarrow> dn_interfaceType (nif ctx) = NetworkInterfaceTypeIEEE80211) \<and>
    parse_tlvs (drop off (take n1 b1)) = Some ps \<and>
    parse_tlvs (drop off (take n2 b2)) =
      Some (if dn_interfaceType (nif ctx) = NetworkInterfaceTypeIEEE80211 then ps
        else filter (\<lambda>(t, v). t \<notin> wifi_types) ps)"
proof -
  let ?P = "darwin_port os nif"
  note port = darwin_port_contract [OF assms(1), of nif, THEN lltd_port_heap.axioms(1)]
  have w: "written (b, off) (take off b) (length b)" "length (take off b) + 160 \<le> length b"
    using assms(2) by (simp_all add: written_def)
  obtain b1 n1 where 1: "hello_tlv_block ?P ctx (b, off) = Some (b1, n1)"
    "written (b1, n1) (take off b @ hello_tlvs ?P ctx) (length b)"
    using lltd_port_contract.hello_tlv_step [OF port, of ctx] w unfolding tlv_step_def by (metis surj_pair)
  obtain b2 n2 where 2: "darwin_tlv_block ?P nif ctx (b, off) = Some (b2, n2)"
    "written (b2, n2) (take off b @ darwin_tlvs ?P nif ctx) (length b)"
    using lltd_port_contract.darwin_tlv_step [OF port, of nif ctx] w unfolding tlv_step_def
    by (metis surj_pair)
  have t: "take n1 b1 = take off b @ hello_tlvs ?P ctx"
    "take n2 b2 = take off b @ darwin_tlvs ?P nif ctx"
    using 1(2) 2(2) by (simp_all add: written_def)
  have "hello_tlvs ?P ctx = darwin_tlvs ?P nif ctx \<longleftrightarrow>
      dn_interfaceType (nif ctx) = NetworkInterfaceTypeIEEE80211"
    by (simp add: hello_tlvs_def darwin_tlvs_def hello_wifi_tlvs_def darwin_wifi_tlvs_def
        wireless_enc_def tlv_bytes_def darwin_wifi_mode_getter)
  then have same: "take n1 b1 = take n2 b2 \<longleftrightarrow>
      dn_interfaceType (nif ctx) = NetworkInterfaceTypeIEEE80211"
    unfolding t by simp
  have "drop off (take n1 b1) = hello_tlvs ?P ctx" "drop off (take n2 b2) = darwin_tlvs ?P nif ctx"
    unfolding t using assms(2) by simp_all
  then have "parse_tlvs (drop off (take n1 b1)) = Some (hello_properties ?P ctx)"
    "parse_tlvs (drop off (take n2 b2)) = Some
      (if dn_interfaceType (nif ctx) = NetworkInterfaceTypeIEEE80211 then hello_properties ?P ctx
       else filter (\<lambda>(t, v). t \<notin> wifi_types) (hello_properties ?P ctx))"
    using lltd_port_contract.parse_hello_tlvs [OF port, of ctx]
      lltd_port_contract.parse_darwin_tlvs [OF port darwin_wifi_mode_getter]
    by simp_all
  with 1(1) 2(1) same show ?thesis by blast
qed

theorem darwin_hellos_agree_on_wifi_witness:
  "\<exists>b1 n1 b2 n2 ps. hello_tlv_block (darwin_port demo_darwin_env demo_nif) 1 (replicate 206 0, 46) =
      Some (b1, n1) \<and>
    darwin_tlv_block (darwin_port demo_darwin_env demo_nif) demo_nif 1 (replicate 206 0, 46) =
      Some (b2, n2) \<and>
    (take n1 b1 = take n2 b2 \<longleftrightarrow> dn_interfaceType (demo_nif 1) = NetworkInterfaceTypeIEEE80211) \<and>
    parse_tlvs (drop 46 (take n1 b1)) = Some ps \<and>
    parse_tlvs (drop 46 (take n2 b2)) =
      Some (if dn_interfaceType (demo_nif 1) = NetworkInterfaceTypeIEEE80211 then ps
        else filter (\<lambda>(t, v). t \<notin> wifi_types) ps)"
  by (rule darwin_hellos_agree_on_wifi)
    (use demo_darwin_fits in \<open>simp_all add: darwin_fits_def\<close>)

text \<open>The support URL of macOS is never sent: its size is not assigned.\<close>

lemma darwin_support_url_empty:
  "p_support_url (darwin_port os nif) n = ([], 0)"
  by (auto simp: darwin_port_def darwin_get_support_url_def getSupportInfo_def Let_def
      split: option.split)

section \<open>Silence\<close>

text \<open>
  A daemon at rest: mapping and enumeration machine in Quiescent, no session.
\<close>

definition darwin_resting :: "darwin_loop \<Rightarrow> bool" where
  "darwin_resting s \<longleftrightarrow> mapping_in Quiescent (dl_mapping s) \<and> enum_in EnumQuiescent (dl_enumeration s) \<and>
     extra (dl_enumeration s) \<noteq> None \<and> (\<exists>t. dl_sessionTable s = Some t \<and> session_map t = Map.empty)"

text \<open>A daemon whose inactivity timer is armed for the second \<open>ts\<close>.\<close>

definition darwin_armed :: "u64 \<Rightarrow> darwin_loop \<Rightarrow> bool" where
  "darwin_armed ts s \<longleftrightarrow> (\<exists>m. extra (dl_mapping s) = Some m \<and> inactive_timeout_ts m = ts) \<and>
     extra (dl_enumeration s) \<noteq> None \<and> dl_sessionTable s \<noteq> None"

definition darwin_tick_input ::
    "darwin_env \<Rightarrow> (iface \<Rightarrow> darwin_interface) \<Rightarrow> iface \<Rightarrow> darwin_loop \<Rightarrow> tick_state" where
  "darwin_tick_input os nif ctx s =
     \<lparr>tk_mapping = Some (dl_mapping s), tk_enumeration = Some (dl_enumeration s),
      tk_sessions = dl_sessionTable s, tk_port = Some \<lparr>tp_network_interface = ctx,
        tp_last_hello_tx_ms = Some (dl_LastHelloTxMs s), tp_send_hello = Some (sendHelloMessage os nif
          (dl_MapperHwAddress s) (dl_MapperGenerationTopology s))\<rparr>\<rparr>"

lemma darwin_tick_splits:
  assumes "darwin_tick os nif ctx s w = Some (s', w')"
  obtains t' where "automata_tick (darwin_port os nif) (darwin_tick_input os nif ctx s) w = Some (t', w')"
    "tk_mapping t' = Some (dl_mapping s')" "tk_enumeration t' = Some (dl_enumeration s')"
    "tk_sessions t' = dl_sessionTable s'"
proof -
  have "darwin_tick os nif ctx s w = do {
     (t, w) \<leftarrow> automata_tick (darwin_port os nif) (darwin_tick_input os nif ctx s) w;
     mapping \<leftarrow> tk_mapping t;
     enumeration \<leftarrow> tk_enumeration t;
     p \<leftarrow> tk_port t;
     sent \<leftarrow> tp_last_hello_tx_ms p;
     Some (s\<lparr>dl_mapping := mapping, dl_enumeration := enumeration,
       dl_sessionTable := tk_sessions t, dl_LastHelloTxMs := sent\<rparr>, w)
   }"
    by (simp only: darwin_tick_def darwin_tick_input_def Let_def)
  with assms obtain t' w1 mapping enumeration p sent where t':
    "automata_tick (darwin_port os nif) (darwin_tick_input os nif ctx s) w = Some (t', w1)"
    "tk_mapping t' = Some mapping" "tk_enumeration t' = Some enumeration"
    "(s\<lparr>dl_mapping := mapping, dl_enumeration := enumeration,
       dl_sessionTable := tk_sessions t', dl_LastHelloTxMs := sent\<rparr>, w1) = (s', w')"
    by (clarsimp simp only: bind_eq_Some_conv prod.case split_paired_Ex option.inject)
  then show ?thesis by (intro that [of t']) auto
qed

lemma send_reads [simp]:
  "w_reads (snd (lltd_port_malloc P n w)) = w_reads w" "w_reads (lltd_port_free w) = w_reads w"
  "w_reads (snd (lltd_port_monotonic_milliseconds P w)) = Suc (w_reads w)"
  "w_reads (snd (darwin_sendto os nif ctx f w)) = w_reads w"
  by (simp_all add: lltd_port_malloc_def lltd_port_free_def lltd_port_monotonic_milliseconds_def
      darwin_sendto_def Let_def)

lemma sendHelloMessageEx_reads:
  assumes "sendHelloMessageEx os nif ctx sq t rl app gen why w = Some w'"
  shows "w_reads w \<le> w_reads w'"
proof (cases "fst (lltd_port_malloc (darwin_port os nif) (unat (dn_MTU (nif ctx))) w)")
  case False
  with assms show ?thesis by (clarsimp simp: sendHelloMessageEx_def Let_def case_prod_beta)
next
  case True
  with assms show ?thesis
    by (clarsimp simp: sendHelloMessageEx_def Let_def case_prod_beta bind_eq_Some_conv)
qed

lemma darwin_hello_forward: "hello_forward (tk_port (darwin_tick_input os nif ctx s))"
  using sendHelloMessageEx_reads
  by (auto simp: hello_forward_def darwin_tick_input_def sendHelloMessage_def)

lemma darwin_tick_input_ok:
  assumes "darwin_fits os nif ctx" "darwin_ok s"
  shows "tick_ok (darwin_tick_input os nif ctx s)"
proof -
  have "sendHelloMessage os nif (dl_MapperHwAddress s) (dl_MapperGenerationTopology s) ctx w \<noteq> None"
    for w
    by (rule darwin_hello_sends [OF assms(1), of "dl_MapperHwAddress s"
          "dl_MapperGenerationTopology s" w]) simp
  then show ?thesis using assms(2)
    by (auto simp: tick_ok_def darwin_ok_def port_sends_def darwin_tick_input_def)
qed

lemma darwin_resting_tick:
  assumes fits: "darwin_fits os nif ctx" and ok: "darwin_ok s" and rest: "darwin_resting s"
  obtains s' w' where "darwin_tick os nif ctx s w = Some (s', w')" "darwin_ok s'" "darwin_resting s'"
    "w_events w' = w_events w"
proof -
  let ?P = "darwin_port os nif" and ?t = "darwin_tick_input os nif ctx s"
  obtain s' w' where run: "darwin_tick os nif ctx s w = Some (s', w')" "darwin_ok s'"
    by (rule darwin_tick_runs [OF fits ok, where w = w]) (rule that)
  obtain t' where t': "automata_tick ?P ?t w = Some (t', w')" "tk_mapping t' = Some (dl_mapping s')"
    "tk_enumeration t' = Some (dl_enumeration s')" "tk_sessions t' = dl_sessionTable s'"
    by (rule darwin_tick_splits [OF run(1)])
  obtain t where t: "dl_sessionTable s = Some t" "session_map t = Map.empty"
    using rest by (auto simp: darwin_resting_def)
  have parts: "tk_enumeration ?t = Some (dl_enumeration s)" "tk_mapping ?t = Some (dl_mapping s)"
    "tk_sessions ?t = Some t" "enum_in EnumQuiescent (dl_enumeration s)"
    "extra (dl_enumeration s) \<noteq> None" "mapping_in Quiescent (dl_mapping s)"
    using rest t by (simp_all add: darwin_tick_input_def darwin_resting_def)
  obtain facts: "\<exists>t'. dl_sessionTable s' = Some t' \<and> session_map t' = Map.empty"
    "enum_in EnumQuiescent (dl_enumeration s')" "extra (dl_enumeration s') \<noteq> None"
    "inactive_fires ?P ?t (tick_read (tick_read w)) \<Longrightarrow> mapping_in Quiescent (dl_mapping s')"
    "w_events w' = w_events w"
  proof (rule automata_tick_runs [OF darwin_tick_input_ok [OF fits ok], where P = ?P and w = w], goal_cases)
    case (1 t1 w1)
    have same: "t1 = t'" "w1 = w'" using 1(2) t'(1) by auto
    have quiet: "\<not> hello_now n (?t\<lparr>tk_sessions := x\<rparr>)" for n x
      using parts(1,4) by (auto simp: hello_now_def enum_tick_mode_def dest: enum_in_unique)
    from 1(4) [OF parts(3)] 1(6) [OF parts(1,5,4)] 1(7,8) t(2) quiet show ?case
      by (intro 1(1)) (auto simp: same t'(2-4) sessions_after_def enum_tick_mode_def)
  qed
  have "mapping_in Quiescent (dl_mapping s')"
  proof (cases "inactive_fires ?P ?t (tick_read (tick_read w))")
    case False
    show ?thesis
    proof (cases "extra (dl_mapping s)")
      case None
      obtain s1 w1 where "tick_mapping ?P ?t (tick_read (tick_read w)) = Some (s1, w1)"
        "tk_mapping t' = tk_mapping s1"
        using t'(1) tick_enumeration_mapping by (fastforce simp: automata_tick_def bind_eq_Some_conv)
      with None parts(2) have "tk_mapping t' = Some (dl_mapping s)" by (auto simp: tick_mapping_def)
      with t'(2) parts(6) show ?thesis by simp
    next
      case (Some m)
      from automata_tick_armed [OF t'(1) False parts(2) Some] t'(2) parts(6) show ?thesis by auto
    qed
  qed (rule facts(4))
  with run facts show ?thesis by (intro that [of s' w']) (auto simp: darwin_resting_def)
qed

lemma darwin_armed_tick:
  assumes fits: "darwin_fits os nif ctx" and ok: "darwin_ok s" and armed: "darwin_armed ts s" "ts \<noteq> 0"
  obtains s' w' where "darwin_tick os nif ctx s w = Some (s', w')" "darwin_ok s'"
    "w_reads w + 2 \<le> w_reads w'"
    "if ts \<le> p_seconds (darwin_port os nif) (w_reads w + 2) then darwin_resting s' else darwin_armed ts s'"
proof -
  let ?P = "darwin_port os nif" and ?t = "darwin_tick_input os nif ctx s"
  let ?fires = "inactive_fires ?P ?t (tick_read (tick_read w))"
  obtain s' w' where run: "darwin_tick os nif ctx s w = Some (s', w')" "darwin_ok s'"
    by (rule darwin_tick_runs [OF fits ok, where w = w]) (rule that)
  obtain t' where t': "automata_tick ?P ?t w = Some (t', w')" "tk_mapping t' = Some (dl_mapping s')"
    "tk_enumeration t' = Some (dl_enumeration s')" "tk_sessions t' = dl_sessionTable s'"
    by (rule darwin_tick_splits [OF run(1)])
  obtain t m q where parts: "tk_sessions ?t = Some t" "tk_enumeration ?t = Some (dl_enumeration s)"
    "extra (dl_enumeration s) \<noteq> None" "enum_in q (dl_enumeration s)"
    "tk_mapping ?t = Some (dl_mapping s)" "extra (dl_mapping s) = Some m" "inactive_timeout_ts m = ts"
    using armed ok by (auto simp: darwin_tick_input_def darwin_armed_def darwin_ok_def enumeration_ok_def)
  have fires: "?fires \<longleftrightarrow> ts \<le> p_seconds ?P (w_reads w + 2)"
    using parts(5-7) armed(2) by (simp add: inactive_fires_def)
  obtain facts: "\<exists>t'. dl_sessionTable s' = Some t' \<and> table_ok t' \<and> (?fires \<longrightarrow> session_map t' = Map.empty)"
    "enum_in (enum_tick_mode q (dl_sessionTable s')) (dl_enumeration s')"
    "extra (dl_enumeration s') \<noteq> None" "?fires \<Longrightarrow> mapping_in Quiescent (dl_mapping s')"
  proof (rule automata_tick_runs [OF darwin_tick_input_ok [OF fits ok], where P = ?P and w = w], goal_cases)
    case (1 t1 w1)
    have same: "t1 = t'" "w1 = w'" using 1(2) t'(1) by auto
    from 1(4) [OF parts(1)] 1(6) [OF parts(2,3,4)] 1(7) show ?case
      by (intro 1(1)) (auto simp: same t'(2-4) sessions_after_def)
  qed
  have reads: "w_reads w + 2 \<le> w_reads w'"
    by (rule automata_tick_reads [OF darwin_hello_forward t'(1)])
  show ?thesis
  proof (cases ?fires)
    case True
    obtain t1 where t1: "dl_sessionTable s' = Some t1" "table_ok t1" "session_map t1 = Map.empty"
      using facts(1) True by blast
    have "enum_tick_mode q (dl_sessionTable s') = EnumQuiescent"
      using is_empty_iff [OF t1(2)] t1 by (simp add: enum_tick_mode_def)
    with True fires t1 facts(2,3,4) run reads show ?thesis
      by (intro that [of s' w']) (auto simp: darwin_resting_def)
  next
    case False
    from automata_tick_armed [OF t'(1) False parts(5,6)] t'(2) parts(7)
    have "\<exists>m'. extra (dl_mapping s') = Some m' \<and> inactive_timeout_ts m' = ts" by auto
    with False fires facts(1,3) run reads show ?thesis
      by (intro that [of s' w']) (auto simp: darwin_armed_def)
  qed
qed

text \<open>A turn in which nothing arrives is a tick.\<close>

abbreviation (input) silence :: "nat \<Rightarrow> (int \<times> u8 list) list" where
  "silence k \<equiv> replicate k (-1, [])"

lemma silent_turn: "darwin_turn os nif ctx (-1, []) s w = darwin_tick os nif ctx s w"
  by (simp add: darwin_turn_def)

lemma darwin_resting_loop:
  assumes fits: "darwin_fits os nif ctx"
  shows "darwin_ok s \<Longrightarrow> darwin_resting s \<Longrightarrow>
    \<exists>s' w'. darwin_lltdLoop os nif ctx (silence j) s w = Some (s', w') \<and> darwin_resting s' \<and>
      w_events w' = w_events w"
proof (induction j arbitrary: s w)
  case (Suc j)
  obtain s1 w1 where "darwin_tick os nif ctx s w = Some (s1, w1)" "darwin_ok s1" "darwin_resting s1"
    "w_events w1 = w_events w"
    by (rule darwin_resting_tick [OF fits Suc.prems, where w = w]) (rule that)
  with Suc.IH [of s1 w1] show ?case by (auto simp: silent_turn)
qed simp

lemma darwin_loop_append:
  "darwin_lltdLoop os nif ctx rs s w = Some (s1, w1) \<Longrightarrow>
   darwin_lltdLoop os nif ctx (rs @ rs') s w = darwin_lltdLoop os nif ctx rs' s1 w1"
  by (induction rs arbitrary: s w) (auto simp: bind_eq_Some_conv)

lemma darwin_armed_loop:
  assumes fits: "darwin_fits os nif ctx" and ts: "ts \<noteq> 0"
    and clock: "\<forall>n \<ge> n0. ts \<le> p_seconds (darwin_port os nif) n"
  shows "darwin_ok s \<Longrightarrow> darwin_armed ts s \<Longrightarrow>
    \<exists>k s' w'. darwin_lltdLoop os nif ctx (silence k) s w = Some (s', w') \<and> darwin_ok s' \<and>
      darwin_resting s'"
proof (induction "n0 - w_reads w" arbitrary: s w rule: less_induct)
  case less
  obtain s1 w1 where t: "darwin_tick os nif ctx s w = Some (s1, w1)" "darwin_ok s1"
    "w_reads w + 2 \<le> w_reads w1"
    "if ts \<le> p_seconds (darwin_port os nif) (w_reads w + 2) then darwin_resting s1 else darwin_armed ts s1"
    by (rule darwin_armed_tick [OF fits less.prems ts, where w = w]) (rule that)
  show ?case
  proof (cases "ts \<le> p_seconds (darwin_port os nif) (w_reads w + 2)")
    case True
    with t show ?thesis by (intro exI [of _ 1]) (auto simp: silent_turn)
  next
    case False
    then have "w_reads w + 2 < n0" using clock by (meson not_le)
    then have "n0 - w_reads w1 < n0 - w_reads w" using t(3) by simp
    from less.hyps [OF this t(2)] t(4) False obtain k s' w' where
      "darwin_lltdLoop os nif ctx (silence k) s1 w1 = Some (s', w')" "darwin_ok s'" "darwin_resting s'"
      by auto
    with t(1) show ?thesis by (intro exI [of _ "Suc k"]) (auto simp: silent_turn)
  qed
qed

text \<open>
  C25.  An interface on which nothing arrives falls silent: once the inactivity timer is
  armed and the clock passes it for good, some number of timeouts takes both machines to
  Quiescent and forgets all sessions, and no later timeout sends anything or changes that.
\<close>

theorem darwin_silence_quiets:
  assumes "darwin_fits os nif ctx" "darwin_ok s" "darwin_armed ts s" "ts \<noteq> 0"
    and "\<forall>n \<ge> n0. ts \<le> p_seconds (darwin_port os nif) n"
  shows "\<exists>k s' w'. darwin_lltdLoop os nif ctx (silence k) s w = Some (s', w') \<and> darwin_resting s' \<and>
    (\<forall>j. \<exists>s'' w''. darwin_lltdLoop os nif ctx (silence (k + j)) s w = Some (s'', w'') \<and>
       darwin_resting s'' \<and> w_events w'' = w_events w')"
proof -
  obtain k s' w' where k: "darwin_lltdLoop os nif ctx (silence k) s w = Some (s', w')" "darwin_ok s'"
    "darwin_resting s'"
    using darwin_armed_loop [OF assms(1,4,5,2,3), of w] by blast
  have "\<exists>s'' w''. darwin_lltdLoop os nif ctx (silence (k + j)) s w = Some (s'', w'') \<and>
      darwin_resting s'' \<and> w_events w'' = w_events w'" for j
    using darwin_resting_loop [OF assms(1) k(2,3), of j w'] darwin_loop_append [OF k(1)]
    by (simp add: replicate_add)
  with k show ?thesis by blast
qed

theorem darwin_silence_quiets_witness:
  "\<exists>k s' w'. darwin_lltdLoop demo_darwin_env demo_nif 1 (silence k) demo_darwin world0 =
      Some (s', w') \<and> darwin_resting s' \<and>
    (\<forall>j. \<exists>s'' w''. darwin_lltdLoop demo_darwin_env demo_nif 1 (silence (k + j)) demo_darwin world0 =
      Some (s'', w'') \<and> darwin_resting s'' \<and> w_events w'' = w_events w')"
proof -
  have "\<forall>n \<ge> 100. 7 \<le> p_seconds (darwin_port demo_darwin_env demo_nif) n"
    by (simp add: demo_darwin_seconds)
  moreover have "darwin_armed 7 demo_darwin"
    by (simp add: darwin_armed_def demo_darwin_def demo_mapping_def demo_enumeration_def)
  ultimately show ?thesis
    by (intro darwin_silence_quiets [OF demo_darwin_fits demo_darwin_ok]) auto
qed

end
