(* ===== verification/LltdLoops.thy ===== *)
theory LltdLoops
  imports LltdFrame LltdTickLemmas
begin

text \<open>
  The receive loops of the daemons without a session table: Linux (systemd and embedded),
  ESXi, BeOS/Haiku, and the loops of SunOS and the ESP32, which drive the machines but never
  call the protocol core (the loop of Windows, of the same kind, is in LltdWindowsDaemon).  All of them feed the opcode byte of the frame to the
  mapping and the session machine as it is.  The states of the protocol core are those of
  one thread; the data race on the list they share between threads is outside the model.
\<close>

section \<open>What the loops own\<close>

record loop_ctx =
  lc_mapping :: "mapping_state automata"
  lc_session :: "unit automata"
  lc_states :: "lltd_iface_state list"

record full_ctx = loop_ctx +
  lc_enumeration :: "band_state automata"

section \<open>Operations\<close>

text \<open>The two switches every loop starts with, on the raw opcode.\<close>

definition raw_switches ::
    "port \<Rightarrow> u8 \<Rightarrow> 'a loop_ctx_scheme \<Rightarrow> world \<Rightarrow> ('a loop_ctx_scheme \<times> world) option" where
  "raw_switches P op s w = do {
     (mapping, w) \<leftarrow> switch_state_mapping P (lc_mapping s) (uint op) w;
     (session, w) \<leftarrow> switch_state_session P (lc_session s) (uint op) w;
     Some (s\<lparr>lc_mapping := mapping, lc_session := session\<rparr>, w)
   }"

definition raw_enumeration ::
    "port \<Rightarrow> u8 \<Rightarrow> full_ctx \<Rightarrow> world \<Rightarrow> (full_ctx \<times> world) option" where
  "raw_enumeration P op s w = do {
     (enumeration, w) \<leftarrow>
       (if op = opcode_hello
        then switch_state_enumeration P (lc_enumeration s) (uint (enum_hello :: u8)) w
        else if op = opcode_discover
        then switch_state_enumeration P (lc_enumeration s) (uint (enum_new_session :: u8)) w
        else switch_state_enumeration P (lc_enumeration s) (uint (enum_sess_complete :: u8)) w);
     Some (s\<lparr>lc_enumeration := enumeration\<rparr>, w)
   }"

definition core_frame ::
    "port \<Rightarrow> iface \<Rightarrow> u8 list \<Rightarrow> 'a loop_ctx_scheme \<Rightarrow> world \<Rightarrow> ('a loop_ctx_scheme \<times> world) option"
  where
  "core_frame P ctx f s w = do {
     (states, w) \<leftarrow> parseFrame P (Some f) ctx (lc_states s, w);
     Some (s\<lparr>lc_states := states\<rparr>, w)
   }"

text \<open>
  A loop over what the receive call returned: nothing happens for an error or an empty
  frame, otherwise the body runs on the receive buffer.
\<close>

fun receive_loop ::
    "(u8 list \<Rightarrow> 's \<Rightarrow> world \<Rightarrow> ('s \<times> world) option) \<Rightarrow> (int \<times> u8 list) list \<Rightarrow> 's \<Rightarrow> world \<Rightarrow>
     ('s \<times> world) option" where
  "receive_loop body [] s w = Some (s, w)"
| "receive_loop body ((bytes, buffer) # rs) s w =
     (if bytes \<le> 0 then receive_loop body rs s w
      else do {
        (s, w) \<leftarrow> body buffer s w;
        receive_loop body rs s w
      })"

text \<open>os/linux/daemon/linux-main.c and linux-embedded-main.c.\<close>

definition linux_rx :: "port \<Rightarrow> iface \<Rightarrow> u8 list \<Rightarrow> full_ctx \<Rightarrow> world \<Rightarrow> (full_ctx \<times> world) option" where
  "linux_rx P iface f s w = do {
     op \<leftarrow> load_u8 f 17;
     (s, w) \<leftarrow> raw_switches P op s w;
     core_frame P iface f s w
   }"

definition linux_lltdLoop where
  "linux_lltdLoop P iface = receive_loop (linux_rx P iface)"

definition embedded_rx :: "port \<Rightarrow> iface \<Rightarrow> u8 list \<Rightarrow> loop_ctx \<Rightarrow> world \<Rightarrow> (loop_ctx \<times> world) option"
  where
  "embedded_rx P iface f s w = do {
     op \<leftarrow> load_u8 f 17;
     (s, w) \<leftarrow> raw_switches P op s w;
     core_frame P iface f s w
   }"

definition embedded_lltdLoop where
  "embedded_lltdLoop P iface = receive_loop (embedded_rx P iface)"

text \<open>os/esxi/daemon/esxi-main.c and os/beos/daemon/beos-shared.c.\<close>

definition esxi_rx :: "port \<Rightarrow> iface \<Rightarrow> u8 list \<Rightarrow> full_ctx \<Rightarrow> world \<Rightarrow> (full_ctx \<times> world) option" where
  "esxi_rx P iface f s w = do {
     op \<leftarrow> load_u8 f 17;
     (s, w) \<leftarrow> raw_switches P op s w;
     (s, w) \<leftarrow> raw_enumeration P op s w;
     core_frame P iface f s w
   }"

definition esxi_lltdLoop where
  "esxi_lltdLoop P iface = receive_loop (esxi_rx P iface)"

definition beos_rx :: "port \<Rightarrow> iface \<Rightarrow> u8 list \<Rightarrow> full_ctx \<Rightarrow> world \<Rightarrow> (full_ctx \<times> world) option" where
  "beos_rx P iface f s w = do {
     op \<leftarrow> load_u8 f 17;
     (s, w) \<leftarrow> raw_switches P op s w;
     (s, w) \<leftarrow> raw_enumeration P op s w;
     core_frame P iface f s w
   }"

definition beos_lltdLoop where
  "beos_lltdLoop P iface = receive_loop (beos_rx P iface)"

text \<open>
  os/sunos/daemon/sunos-dlpi.c: the buffer has 2048 bytes; a failed receive is a result
  without a length.  os/esp32/daemon/lltd_esp32.c: one call per frame.
\<close>

definition dlpi_rx ::
    "port \<Rightarrow> nat option \<times> u8 list \<Rightarrow> full_ctx \<Rightarrow> world \<Rightarrow> (full_ctx \<times> world) option" where
  "dlpi_rx P = (\<lambda>(received, buffer) s w.
     case received of
       None \<Rightarrow> Some (s, w)
     | Some len \<Rightarrow>
         if len < sizeof_demux_header then Some (s, w)
         else do {
           op \<leftarrow> load_u8 buffer 17;
           (s, w) \<leftarrow> raw_switches P op s w;
           raw_enumeration P op s w
         })"

fun dlpiLoop ::
    "port \<Rightarrow> (nat option \<times> u8 list) list \<Rightarrow> full_ctx \<Rightarrow> world \<Rightarrow> (full_ctx \<times> world) option" where
  "dlpiLoop P [] s w = Some (s, w)"
| "dlpiLoop P (r # rs) s w = do { (s, w) \<leftarrow> dlpi_rx P r s w; dlpiLoop P rs s w }"

definition lltd_esp32_handle_frame ::
    "port \<Rightarrow> full_ctx option \<Rightarrow> u8 list option \<Rightarrow> nat \<Rightarrow> world \<Rightarrow> (full_ctx option \<times> world) option"
  where
  "lltd_esp32_handle_frame P ctx frame len w =
     (case (ctx, frame) of
        (Some s, Some f) \<Rightarrow>
          if len < sizeof_demux_header then Some (ctx, w)
          else do {
            op \<leftarrow> load_u8 f 17;
            (s, w) \<leftarrow> raw_switches P op s w;
            (s, w) \<leftarrow> raw_enumeration P op s w;
            Some (Some s, w)
          }
      | _ \<Rightarrow> Some (ctx, w))"

section \<open>What the machines do with raw opcodes\<close>

definition loop_ok :: "'a loop_ctx_scheme \<Rightarrow> bool" where
  "loop_ok s \<longleftrightarrow> (\<exists>m. mapping_in m (lc_mapping s)) \<and> (\<exists>n. session_in n (lc_session s)) \<and>
     states_ok (lc_states s)"

definition full_ok :: "full_ctx \<Rightarrow> bool" where
  "full_ok s \<longleftrightarrow> loop_ok s \<and> (\<exists>q. enum_in q (lc_enumeration s))"

text \<open>The enumeration machine takes every frame but Hello and Discover for a completed session.\<close>

definition raw_enum_after :: "enum_mode \<Rightarrow> u8 \<Rightarrow> enum_mode" where
  "raw_enum_after q op = enum_next q (uint (if op = opcode_hello then enum_hello
     else if op = opcode_discover then enum_new_session else (enum_sess_complete :: u8)))"

lemma switch_mapping_events:
  assumes "mapping_in m au" "switch_state_mapping P au i w = Some (au', w')"
  shows "w_events w' = w_events w"
  by (rule switch_state_mapping_runs [OF assms(1), where P = P and i = i and w = w])
    (use assms(2) in auto)

lemma switch_once_events: "switch_once P au i w = Some (r, w') \<Longrightarrow> w_events w' = w_events w"
  by (auto simp: switch_once_def bind_eq_Some_conv Let_def case_prod_beta)

lemma switch_session_events:
  assumes "switch_state_session P au i w = Some (au', w')"
  shows "w_events w' = w_events w"
proof -
  let ?I = "\<lambda>(((P, au), i), w) y. w_events (snd y) = w_events w"
  have "?I (((P, au), i), w) (au', w')"
    by (rule switch_state_session.raw_induct [where Pa = ?I, OF _ assms])
      (fastforce simp: bind_eq_Some_conv dest!: switch_once_events split: if_splits prod.splits)
  then show ?thesis by simp
qed

lemma raw_switches_runs:
  assumes "mapping_in m (lc_mapping s)" "session_in n (lc_session s)" "calm_clock P"
  obtains s' w' where "raw_switches P op s w = Some (s', w')"
    "mapping_in (if mapping_late m (p_seconds P (w_reads w) - last_ts (lc_mapping s)) then Quiescent
       else mapping_next m (uint op)) (lc_mapping s')"
    "\<exists>n'. session_in n' (lc_session s')" "lc_states s' = lc_states s"
    "loop_ctx.more s' = loop_ctx.more s" "w_events w' = w_events w"
proof -
  obtain au w1 where au: "switch_state_mapping P (lc_mapping s) (uint op) w = Some (au, w1)"
    "mapping_in (if mapping_late m (p_seconds P (w_reads w) - last_ts (lc_mapping s)) then Quiescent
       else mapping_next m (uint op)) au"
    by (rule switch_mapping_mode [OF assms(1), where P = P and i = "uint op" and w = w]) (rule that)
  obtain se w2 where se: "switch_state_session P (lc_session s) (uint op) w1 = Some (se, w2)"
    "session_in (if 1 < p_seconds P (w_reads w1) - last_ts (lc_session s) then Nascent
       else session_next n (uint op)) se"
    by (rule session_switch_calm [OF assms(2,3), where i = "uint op" and w = w1]) (rule that)
  have "w_events w2 = w_events w"
    using switch_mapping_events [OF assms(1) au(1)] switch_session_events [OF se(1)] by simp
  with au se show ?thesis
    by (intro that [of "s\<lparr>lc_mapping := au, lc_session := se\<rparr>" w2])
      (auto simp: raw_switches_def split: if_splits)
qed

lemma raw_enumeration_runs:
  assumes "enum_in q (lc_enumeration s)"
  obtains s' w' where "raw_enumeration P op s w = Some (s', w')"
    "enum_in (raw_enum_after q op) (lc_enumeration s')" "lc_mapping s' = lc_mapping s"
    "lc_session s' = lc_session s" "lc_states s' = lc_states s" "w_events w' = w_events w"
proof -
  let ?i = "uint (if op = opcode_hello then enum_hello
     else if op = opcode_discover then enum_new_session else (enum_sess_complete :: u8))"
  define au where "au = (lc_enumeration s)\<lparr>current_state := enum_code (enum_next q ?i),
    last_ts := p_seconds P (w_reads w)\<rparr>"
  have run: "raw_enumeration P op s w = Some (s\<lparr>lc_enumeration := au\<rparr>, tick_read w)"
    using switch_state_enumeration_eq [OF assms, of P ?i w]
    by (cases "op = 1"; cases "op = 0") (simp_all add: raw_enumeration_def au_def)
  have en: "enum_in (raw_enum_after q op) au"
    using enum_in_tables [OF assms] unfolding raw_enum_after_def au_def by (simp only: enum_in_update)
  show ?thesis by (rule that [OF run]) (use en in simp_all)
qed

lemma core_frame_runs:
  assumes "states_ok (lc_states s)" "frame_complete P ctx f"
  obtains s' w' where "core_frame P ctx f s w = Some (s', w')" "lc_mapping s' = lc_mapping s"
    "lc_session s' = lc_session s" "loop_ctx.more s' = loop_ctx.more s" "states_ok (lc_states s')"
proof -
  obtain states w1 where "parseFrame P (Some f) ctx (lc_states s, w) = Some (states, w1)" "states_ok states"
    by (rule parseFrame_runs [OF assms, where w = w]) (rule that)
  then show ?thesis by (intro that [of "s\<lparr>lc_states := states\<rparr>" w1]) (simp_all add: core_frame_def)
qed

section \<open>A loop whose body keeps an invariant\<close>

locale loop_body =
  fixes body :: "u8 list \<Rightarrow> 's \<Rightarrow> world \<Rightarrow> ('s \<times> world) option"
    and inv :: "'s \<Rightarrow> bool" and ready :: "u8 list \<Rightarrow> bool"
  assumes body_runs: "inv s \<Longrightarrow> ready f \<Longrightarrow> \<exists>s' w'. body f s w = Some (s', w') \<and> inv s'"
begin

lemma loop_runs:
  "inv s \<Longrightarrow> \<forall>r \<in> set rs. 0 < fst r \<longrightarrow> ready (snd r) \<Longrightarrow>
     \<exists>s' w'. receive_loop body rs s w = Some (s', w') \<and> inv s'"
proof (induction rs arbitrary: s w)
  case (Cons r rs)
  obtain n f where r: "r = (n, f)" by fastforce
  show ?case
  proof (cases "n \<le> 0")
    case True
    then show ?thesis using Cons by (simp add: r)
  next
    case False
    then obtain s1 w1 where "body f s w = Some (s1, w1)" "inv s1"
      using body_runs [OF Cons.prems(1), of f w] Cons.prems(2) by (auto simp: r)
    with False Cons.IH [of s1 w1] Cons.prems(2) show ?thesis by (simp add: r)
  qed
qed simp

lemma loop_append:
  "receive_loop body (rs @ rs') s w = do { (s, w) \<leftarrow> receive_loop body rs s w; receive_loop body rs' s w }"
proof (induction body rs s w rule: receive_loop.induct)
  case (2 body n f rs s w)
  then show ?case by (cases "body f s w") auto
qed simp

end

text \<open>What a frame needs: the bytes it announces, and a clock that calms down.\<close>

definition rx_ready :: "port \<Rightarrow> iface \<Rightarrow> u8 list \<Rightarrow> bool" where
  "rx_ready P ctx f \<longleftrightarrow> calm_clock P \<and> frame_complete P ctx f"

lemma rx_opcode: "rx_ready P ctx f \<Longrightarrow> \<exists>op. load_u8 f 17 = Some op"
  by (simp add: rx_ready_def frame_complete_def load_u8_def)

lemma simple_rx_runs:
  fixes s :: "'a loop_ctx_scheme"
  assumes "loop_ok s" "rx_ready P ctx f"
  obtains s' w' op s1 w1 where "load_u8 f 17 = Some op" "raw_switches P op s w = Some (s1, w1)"
    "core_frame P ctx f s1 w1 = Some (s', w')" "loop_ok s'"
proof -
  obtain op where op: "load_u8 f 17 = Some op" using rx_opcode [OF assms(2)] by blast
  obtain m n where mn: "mapping_in m (lc_mapping s)" "session_in n (lc_session s)" "states_ok (lc_states s)"
    using assms(1) by (auto simp: loop_ok_def)
  have calm: "calm_clock P" "frame_complete P ctx f" using assms(2) by (simp_all add: rx_ready_def)
  obtain s1 w1 m' where 1: "raw_switches P op s w = Some (s1, w1)" "mapping_in m' (lc_mapping s1)"
    "\<exists>n. session_in n (lc_session s1)" "lc_states s1 = lc_states s"
    by (rule raw_switches_runs [OF mn(1,2) calm(1), where op = op and w = w]) (rule that)
  obtain s2 w2 where 2: "core_frame P ctx f s1 w1 = Some (s2, w2)" "lc_mapping s2 = lc_mapping s1"
    "lc_session s2 = lc_session s1" "states_ok (lc_states s2)"
    by (rule core_frame_runs [OF _ calm(2), where s = s1 and w = w1]) (use mn(3) 1(4) that in auto)
  from 1 2 show ?thesis by (intro that [OF op 1(1) 2(1)]) (auto simp: loop_ok_def)
qed

lemma full_rx_runs:
  assumes "full_ok s" "rx_ready P ctx f"
  obtains s' w' op s1 w1 s2 w2 where "load_u8 f 17 = Some op" "raw_switches P op s w = Some (s1, w1)"
    "raw_enumeration P op s1 w1 = Some (s2, w2)" "core_frame P ctx f s2 w2 = Some (s', w')" "full_ok s'"
    "\<And>q. enum_in q (lc_enumeration s) \<Longrightarrow> enum_in (raw_enum_after q op) (lc_enumeration s')"
proof -
  obtain op where op: "load_u8 f 17 = Some op" using rx_opcode [OF assms(2)] by blast
  obtain m n q where mn: "mapping_in m (lc_mapping s)" "session_in n (lc_session s)"
    "states_ok (lc_states s)" "enum_in q (lc_enumeration s)"
    using assms(1) by (auto simp: full_ok_def loop_ok_def)
  have calm: "calm_clock P" "frame_complete P ctx f" using assms(2) by (simp_all add: rx_ready_def)
  obtain s1 w1 m' where 1: "raw_switches P op s w = Some (s1, w1)" "mapping_in m' (lc_mapping s1)"
    "\<exists>n. session_in n (lc_session s1)" "lc_states s1 = lc_states s"
    "loop_ctx.more s1 = loop_ctx.more s"
    by (rule raw_switches_runs [OF mn(1,2) calm(1), where op = op and w = w]) (rule that)
  have "lc_enumeration s1 = lc_enumeration s" using 1(5) by (cases s; cases s1) simp
  then have q1: "enum_in q (lc_enumeration s1)" using mn(4) by simp
  obtain s2 w2 where 2: "raw_enumeration P op s1 w1 = Some (s2, w2)"
    "enum_in (raw_enum_after q op) (lc_enumeration s2)" "lc_mapping s2 = lc_mapping s1"
    "lc_session s2 = lc_session s1" "lc_states s2 = lc_states s1"
    by (rule raw_enumeration_runs [OF q1, where op = op and P = P and w = w1]) (rule that)
  obtain s3 w3 where 3: "core_frame P ctx f s2 w2 = Some (s3, w3)" "lc_mapping s3 = lc_mapping s2"
    "lc_session s3 = lc_session s2" "states_ok (lc_states s3)" "loop_ctx.more s3 = loop_ctx.more s2"
    by (rule core_frame_runs [OF _ calm(2), where s = s2 and w = w2]) (use mn(3) 1(4) 2(5) that in auto)
  have "lc_enumeration s3 = lc_enumeration s2" using 3(5) by (cases s3; cases s2) simp
  with 1 2 3 mn(4) show ?thesis
    by (intro that [OF op 1(1) 2(1) 3(1)]) (auto simp: full_ok_def loop_ok_def dest: enum_in_unique)
qed

interpretation linux_loop: loop_body "linux_rx P ctx" loop_ok "rx_ready P ctx" for P ctx
proof
  fix s f w assume "loop_ok (s :: full_ctx)" "rx_ready P ctx f"
  then show "\<exists>s' w'. linux_rx P ctx f s w = Some (s', w') \<and> loop_ok s'"
    by (rule simple_rx_runs [where w = w]) (simp add: linux_rx_def)
qed

interpretation embedded_loop: loop_body "embedded_rx P ctx" loop_ok "rx_ready P ctx" for P ctx
proof
  fix s f w assume "loop_ok (s :: loop_ctx)" "rx_ready P ctx f"
  then show "\<exists>s' w'. embedded_rx P ctx f s w = Some (s', w') \<and> loop_ok s'"
    by (rule simple_rx_runs [where w = w]) (simp add: embedded_rx_def)
qed

interpretation esxi_loop: loop_body "esxi_rx P ctx" full_ok "rx_ready P ctx" for P ctx
proof
  fix s f w assume "full_ok s" "rx_ready P ctx f"
  then show "\<exists>s' w'. esxi_rx P ctx f s w = Some (s', w') \<and> full_ok s'"
    by (rule full_rx_runs [where w = w]) (simp add: esxi_rx_def)
qed

interpretation beos_loop: loop_body "beos_rx P ctx" full_ok "rx_ready P ctx" for P ctx
proof
  fix s f w assume "full_ok s" "rx_ready P ctx f"
  then show "\<exists>s' w'. beos_rx P ctx f s w = Some (s', w') \<and> full_ok s'"
    by (rule full_rx_runs [where w = w]) (simp add: beos_rx_def)
qed

end
