(* ===== verification/LltdBpf.thy ===== *)
theory LltdBpf
  imports LltdLoops
begin

text \<open>
  os/freebsd/daemon/freebsd-main.c, \<open>lltdLoop\<close>: one \<open>read\<close> of a BPF device returns a buffer
  of records, each a \<open>bpf_hdr\<close>, the captured bytes and padding.  The header and the
  rounding macro belong to the system: they are parameters, the two lengths of the header at
  a position of the buffer, and \<open>BPF_WORDALIGN\<close>.  A loop that never ends has no result, the
  same as one that leaves its buffer.
\<close>

section \<open>Operations\<close>

record bpf_env =
  be_hdr :: "u8 list \<Rightarrow> (u16 \<times> u32) option"  \<comment> \<open>\<open>bh_hdrlen\<close>, \<open>bh_caplen\<close>\<close>
  be_wordalign :: "nat \<Rightarrow> nat"

definition freebsd_rx :: "port \<Rightarrow> iface \<Rightarrow> u8 list \<Rightarrow> full_ctx \<Rightarrow> world \<Rightarrow> (full_ctx \<times> world) option" where
  "freebsd_rx P iface frame s w = do {
     op \<leftarrow> load_u8 frame 17;
     (s, w) \<leftarrow> raw_switches P op s w;
     (s, w) \<leftarrow> raw_enumeration P op s w;
     core_frame P iface frame s w
   }"

partial_function (option) bpf_walk ::
    "bpf_env \<Rightarrow> port \<Rightarrow> iface \<Rightarrow> u8 list \<Rightarrow> nat \<Rightarrow> nat \<Rightarrow> full_ctx \<Rightarrow> world \<Rightarrow> (full_ctx \<times> world) option"
  where
  "bpf_walk B P iface buf bytes cursor s w =
     (if cursor < bytes then do {
        (hdrlen, caplen) \<leftarrow> be_hdr B (drop cursor buf);
        let frame = drop (cursor + unat hdrlen) buf;
        (s, w) \<leftarrow> (if sizeof_demux_header \<le> unat caplen then freebsd_rx P iface frame s w
                 else Some (s, w));
        bpf_walk B P iface buf bytes (cursor + be_wordalign B (unat (ucast hdrlen + caplen))) s w
      } else Some (s, w))"

fun freebsd_lltdLoop ::
    "bpf_env \<Rightarrow> port \<Rightarrow> iface \<Rightarrow> (int \<times> u8 list) list \<Rightarrow> full_ctx \<Rightarrow> world \<Rightarrow> (full_ctx \<times> world) option"
  where
  "freebsd_lltdLoop B P iface [] s w = Some (s, w)"
| "freebsd_lltdLoop B P iface ((bytes, buf) # rs) s w =
     (if bytes \<le> 0 then freebsd_lltdLoop B P iface rs s w
      else do {
        (s, w) \<leftarrow> bpf_walk B P iface buf (nat bytes) 0 s w;
        freebsd_lltdLoop B P iface rs s w
      })"

section \<open>Buffers as lists of records\<close>

text \<open>A record: the bytes of its header, of the frame, and of the padding.\<close>

type_synonym bpf_record = "u8 list \<times> u8 list \<times> u8 list"

fun record_bytes :: "bpf_record list \<Rightarrow> u8 list" where
  "record_bytes [] = []"
| "record_bytes ((hdr, frame, pad) # rs) = hdr @ frame @ pad @ record_bytes rs"

text \<open>
  What the protocol core is handed: the rest of the buffer from each frame on that is long
  enough for a header.
\<close>

fun record_frames :: "bpf_record list \<Rightarrow> u8 list list" where
  "record_frames [] = []"
| "record_frames ((hdr, frame, pad) # rs) =
     (if 32 \<le> length frame then [frame @ pad @ record_bytes rs] else []) @ record_frames rs"

text \<open>
  Records as BPF documents them: the header holds the two lengths, and the padding aligns the
  start of the next record.  Behind the last record the padding may be cut short or missing.
\<close>

fun well_recorded :: "bpf_env \<Rightarrow> bpf_record list \<Rightarrow> bool" where
  "well_recorded B [] \<longleftrightarrow> True"
| "well_recorded B ((hdr, frame, pad) # rs) \<longleftrightarrow>
     hdr \<noteq> [] \<and> length hdr < 2 ^ 16 \<and> length hdr + length frame < 2 ^ 32 \<and>
     be_hdr B (record_bytes ((hdr, frame, pad) # rs)) =
       Some (of_nat (length hdr), of_nat (length frame)) \<and>
     length hdr + length frame + length pad \<le> be_wordalign B (length hdr + length frame) \<and>
     (rs \<noteq> [] \<longrightarrow>
       be_wordalign B (length hdr + length frame) = length hdr + length frame + length pad) \<and>
     well_recorded B rs"

text \<open>The loop of the other daemons on the frames of a buffer.\<close>

definition frames_received :: "u8 list list \<Rightarrow> (int \<times> u8 list) list" where
  "frames_received = map (\<lambda>f. (int (length f), f))"

lemma bpf_walk_records:
  assumes "well_recorded B rs" "bytes = length pre + length (record_bytes rs)"
  shows "bpf_walk B P ctx (pre @ record_bytes rs) bytes (length pre) s w =
    receive_loop (esxi_rx P ctx) (frames_received (record_frames rs)) s w"
  using assms
proof (induction rs arbitrary: pre s w)
  case Nil
  then show ?case by (simp add: bpf_walk.simps frames_received_def)
next
  case (Cons r rs)
  obtain hdr frame pad where r: "r = (hdr, frame, pad)" by (cases r) auto
  let ?pre = "pre @ hdr @ frame @ pad"
  have wf: "hdr \<noteq> []" "length hdr < 2 ^ 16" "length hdr + length frame < 2 ^ 32"
    "be_hdr B (hdr @ frame @ pad @ record_bytes rs) = Some (of_nat (length hdr), of_nat (length frame))"
    "length hdr + length frame + length pad \<le> be_wordalign B (length hdr + length frame)"
    "rs \<noteq> [] \<Longrightarrow> be_wordalign B (length hdr + length frame) = length hdr + length frame + length pad"
    "well_recorded B rs"
    using Cons.prems(1) by (simp_all add: r)
  have lens: "unat (of_nat (length hdr) :: u16) = length hdr"
    "unat (of_nat (length frame) :: u32) = length frame"
    by (rule unat_of_nat_small; use wf(2,3) in simp)+
  have sum: "unat (ucast (of_nat (length hdr) :: u16) + of_nat (length frame) :: u32) =
      length hdr + length frame"
    using wf(2,3) lens by (simp add: unat_word_ariths unat_ucast_mod)
  have more: "length pre < bytes" using Cons.prems(2) wf(1) by (simp add: r)
  have step: "bpf_walk B P ctx (pre @ hdr @ frame @ pad @ record_bytes rs) bytes
      (length pre + be_wordalign B (length hdr + length frame)) s w =
      receive_loop (esxi_rx P ctx) (frames_received (record_frames rs)) s w" for s w
  proof (cases "rs = []")
    case True
    then show ?thesis using Cons.prems(2) wf(5)
      by (simp add: r bpf_walk.simps frames_received_def)
  next
    case False
    with Cons.IH [of ?pre s w, OF wf(7)] Cons.prems(2) wf(6) show ?thesis by (simp add: r add.assoc)
  qed
  have same: "freebsd_rx P ctx f s w = esxi_rx P ctx f s w" for f
    by (simp add: freebsd_rx_def esxi_rx_def)
  let ?go = "\<lambda>x. receive_loop (esxi_rx P ctx) (frames_received (record_frames rs)) (fst x) (snd x)"
  have tail: "(\<lambda>x. bpf_walk B P ctx (pre @ hdr @ frame @ pad @ record_bytes rs) bytes
      (length pre + be_wordalign B (length hdr + length frame)) (fst x) (snd x)) = ?go"
    by (rule ext) (rule step)
  have "bpf_walk B P ctx (pre @ record_bytes (r # rs)) bytes (length pre) s w =
      (if 32 \<le> length frame then esxi_rx P ctx (frame @ pad @ record_bytes rs) s w
       else Some (s, w)) \<bind> ?go"
    unfolding tail [symmetric]
    by (subst bpf_walk.simps) (simp add: more wf(4) lens sum same r case_prod_beta')
  then show ?case by (simp add: r frames_received_def case_prod_beta')
qed

text \<open>Whole reads: the records of one read after the other.\<close>

definition bpf_read :: "bpf_record list \<Rightarrow> int \<times> u8 list" where
  "bpf_read rs = (int (length (record_bytes rs)), record_bytes rs)"

lemma freebsd_reads_are_frames:
  assumes "\<forall>rs \<in> set reads. well_recorded B rs"
  shows "freebsd_lltdLoop B P ctx (map bpf_read reads) s w =
    receive_loop (esxi_rx P ctx) (frames_received (concat (map record_frames reads))) s w"
  using assms
proof (induction reads arbitrary: s w)
  case (Cons rs reads)
  have append: "receive_loop (esxi_rx P ctx) (xs @ ys) s w = do {
      (s, w) \<leftarrow> receive_loop (esxi_rx P ctx) xs s w; receive_loop (esxi_rx P ctx) ys s w }" for xs ys
    by (rule esxi_loop.loop_append)
  have walk: "bpf_walk B P ctx (record_bytes rs) (length (record_bytes rs)) 0 s w =
      receive_loop (esxi_rx P ctx) (frames_received (record_frames rs)) s w"
    using bpf_walk_records [of B rs "length (record_bytes rs)" "[]" P ctx s w] Cons.prems by simp
  show ?case
  proof (cases "record_bytes rs = []")
    case True
    then have "rs = []" using Cons.prems by (cases rs rule: record_bytes.cases) auto
    then show ?thesis using Cons by (simp add: bpf_read_def frames_received_def)
  next
    case False
    then show ?thesis using Cons.IH Cons.prems walk append
      by (simp add: bpf_read_def frames_received_def case_prod_beta')
  qed
qed (simp add: frames_received_def)

text \<open>A record whose rounded length is zero stops the cursor, and the walk with it.\<close>

lemma bpf_walk_stuck:
  assumes "cursor < bytes" "be_hdr B (drop cursor buf) = Some (hdrlen, caplen)" "unat caplen < 32"
    "be_wordalign B (unat (ucast hdrlen + caplen)) = 0"
  shows "bpf_walk B P ctx buf bytes cursor s w = None"
proof (rule ccontr)
  assume "bpf_walk B P ctx buf bytes cursor s w \<noteq> None"
  then obtain y where y: "bpf_walk B P ctx buf bytes cursor s w = Some y" by blast
  let ?I = "\<lambda>(((((((B', P), ctx), buf'), bytes'), cursor'), s), w) y.
    \<not> (B' = B \<and> buf' = buf \<and> bytes' = bytes \<and> cursor' = cursor)"
  have "?I (((((((B, P), ctx), buf), bytes), cursor), s), w) y"
    by (rule bpf_walk.raw_induct [where Pa = ?I, OF _ y])
      (use assms in \<open>fastforce split: if_splits simp: bind_eq_Some_conv\<close>)
  then show False by simp
qed

end
