(* ===== verification/LltdLoopProps.thy ===== *)
theory LltdLoopProps
  imports LltdBpf LltdTickProps LltdPosixPort
begin

text \<open>
  The properties of the receive loops without a session table: what raw opcodes do to the
  machines, which daemons never answer, and how the FreeBSD loop relates to the others.
\<close>

section \<open>A concrete loop\<close>

lemma steady_calm: "calm_clock (posix_port steady_os)"
proof -
  have "\<exists>k \<ge> n. p_seconds (posix_port steady_os) (Suc k) - p_seconds (posix_port steady_os) k \<le> 1" for n
    by (intro exI [of _ n]) (simp add: steady_seconds)
  then show ?thesis by (simp add: calm_clock_def)
qed

definition demo_loop :: loop_ctx where
  "demo_loop = \<lparr>lc_mapping = demo_mapping, lc_session = demo_session, lc_states = []\<rparr>"

definition demo_full :: full_ctx where
  "demo_full = \<lparr>lc_mapping = demo_mapping, lc_session = demo_session\<lparr>current_state := 1\<rparr>,
     lc_states = [], lc_enumeration = demo_enumeration\<rparr>"

lemma demo_full_in:
  "mapping_in Command (lc_mapping demo_full)" "session_in Nascent (lc_session demo_full)"
  "enum_in EnumPausing (lc_enumeration demo_full)" "lc_states demo_full = []"
  using demo_mapping_in demo_enumeration_in
  by (simp_all add: demo_full_def session_in_def demo_session_def)

lemma demo_full_ok: "full_ok demo_full"
  using demo_full_in by (auto simp: full_ok_def loop_ok_def states_ok_def)

lemma posix_usable: "usable_port (posix_port os) ctx"
  using posix.lltd_port_heap_axioms
  by (simp add: usable_port_def port_mtu_def posix_port_def posix_get_mtu_def)

lemma demo_rx_ready: "rx_ready (posix_port steady_os) 1 demo_discover"
proof -
  have len: "length demo_discover = 36" by code_simp
  have "p_little_endian (posix_port steady_os) = True" by (simp add: posix_port_def steady_os_def)
  with len show ?thesis using steady_calm posix_usable
    by (simp add: rx_ready_def frame_complete_def frame_needs_def demo_discover_loads)
qed

section \<open>Raw opcodes\<close>





text \<open>
  On Linux a Discover that arrives while the session machine is in Nascent and has not
  timed out sends it to Temporary, the state for conflicting mappers: the opcode of Discover
  is 0, and so is the event of a conflicting Discover.  The classification of frames into
  session events, which never reports a conflict, is not consulted.
\<close>

theorem linux_discover_is_conflicting:
  assumes "loop_ok s" "rx_ready P ctx f" "load_u8 f 17 = Some opcode_discover"
    and "session_in Nascent (lc_session s)"
    and "\<forall>i \<in> {1, 2}. p_seconds P (w_reads w + i) - last_ts (lc_session s) \<le> 1"
  shows "\<exists>s' w'. linux_rx P ctx f s w = Some (s', w') \<and> session_in Temporary (lc_session s')"
proof -
  obtain m where m: "mapping_in m (lc_mapping s)" using assms(1) by (auto simp: loop_ok_def)
  obtain au w1 where au: "switch_state_mapping P (lc_mapping s) (uint (opcode_discover :: u8)) w =
      Some (au, w1)" "w_reads w1 \<in> {w_reads w + 1, w_reads w + 2}"
    by (cases "mapping_late m (p_seconds P (w_reads w) - last_ts (lc_mapping s))")
      (auto simp: switch_state_mapping_eq [OF m])
  then have calm: "\<not> 1 < p_seconds P (w_reads w1) - last_ts (lc_session s)"
    using assms(5) by (auto simp: not_less)
  define se where "se = (lc_session s)\<lparr>current_state := session_code Temporary,
    last_ts := p_seconds P (w_reads w1)\<rparr>"
  have se: "switch_state_session P (lc_session s) (uint (opcode_discover :: u8)) w1 =
      Some (se, tick_read w1)"
    using calm by (simp add: switch_state_session_unfold [OF assms(4)] se_def)
  have temp: "session_in Temporary se"
    using session_in_tables [OF assms(4)] unfolding se_def by (simp only: session_in_update)
  obtain s' w' s1 w2 where run: "raw_switches P opcode_discover s w = Some (s1, w2)"
    "core_frame P ctx f s1 w2 = Some (s', w')"
    by (rule simple_rx_runs [OF assms(1,2), where w = w]) (use assms(3) that in auto)
  have "lc_session s1 = se" using run(1) au(1) se by (auto simp: raw_switches_def)
  moreover have "lc_session s' = lc_session s1"
    using run(2) by (auto simp: core_frame_def bind_eq_Some_conv)
  ultimately show ?thesis using run temp assms(3)
    by (intro exI [of _ s'] exI [of _ w']) (simp add: linux_rx_def)
qed

theorem linux_discover_is_conflicting_witness:
  "\<exists>s' w'. linux_rx (posix_port steady_os) 1 demo_discover
       (demo_full\<lparr>lc_session := (lc_session demo_full)\<lparr>last_ts := 1\<rparr>\<rparr>) world0 = Some (s', w') \<and>
     session_in Temporary (lc_session s')"
proof (rule linux_discover_is_conflicting [OF _ demo_rx_ready])
  let ?s = "demo_full\<lparr>lc_session := (lc_session demo_full)\<lparr>last_ts := 1\<rparr>\<rparr>"
  show se: "session_in Nascent (lc_session ?s)"
    using demo_full_in(2) by (simp add: session_in_def)
  then show "loop_ok ?s" using demo_full_in by (auto simp: loop_ok_def states_ok_def)
  show "load_u8 demo_discover 17 = Some opcode_discover" by code_simp
qed (simp add: steady_seconds world0_def)

lemma dlpi_rx_silent:
  assumes "full_ok s" "calm_clock P" "length (snd r) = 2048"
  shows "\<exists>s' w'. dlpi_rx P r s w = Some (s', w') \<and> full_ok s' \<and> lc_states s' = lc_states s \<and>
    w_events w' = w_events w"
proof (cases "case fst r of None \<Rightarrow> True | Some len \<Rightarrow> len < 32")
  case True
  then show ?thesis using assms(1) by (cases r) (auto simp: dlpi_rx_def split: option.splits)
next
  case False
  then obtain len where len: "fst r = Some len" "32 \<le> len" by (auto split: option.splits)
  obtain op where op: "load_u8 (snd r) 17 = Some op" using assms(3) by (simp add: load_u8_def)
  obtain m n q where mn: "mapping_in m (lc_mapping s)" "session_in n (lc_session s)"
    "states_ok (lc_states s)" "enum_in q (lc_enumeration s)"
    using assms(1) by (auto simp: full_ok_def loop_ok_def)
  obtain s1 w1 m' where 1: "raw_switches P op s w = Some (s1, w1)" "mapping_in m' (lc_mapping s1)"
    "\<exists>n. session_in n (lc_session s1)" "lc_states s1 = lc_states s"
    "loop_ctx.more s1 = loop_ctx.more s" "w_events w1 = w_events w"
    by (rule raw_switches_runs [OF mn(1,2) assms(2), where op = op and w = w]) (rule that)
  have "lc_enumeration s1 = lc_enumeration s" using 1(5) by (cases s; cases s1) simp
  then have q1: "enum_in q (lc_enumeration s1)" using mn(4) by simp
  obtain s2 w2 where 2: "raw_enumeration P op s1 w1 = Some (s2, w2)"
    "enum_in (raw_enum_after q op) (lc_enumeration s2)" "lc_mapping s2 = lc_mapping s1"
    "lc_session s2 = lc_session s1" "lc_states s2 = lc_states s1" "w_events w2 = w_events w1"
    by (rule raw_enumeration_runs [OF q1, where op = op and P = P and w = w1]) (rule that)
  have "dlpi_rx P r s w = Some (s2, w2)"
    using len op 1(1) 2(1) by (cases r) (simp add: dlpi_rx_def)
  with 1 2 mn(3) show ?thesis by (auto simp: full_ok_def loop_ok_def)
qed

text \<open>
  The SunOS daemon drives its machines and does nothing else: for any frames, of any
  content, it returns, never sends anything, and keeps no state of the protocol core, so no
  mapper ever gets an answer from it.
\<close>

theorem sunos_answers_nothing:
  assumes "full_ok s" "calm_clock P" "\<forall>r \<in> set rs. length (snd r) = 2048"
  shows "\<exists>s' w'. dlpiLoop P rs s w = Some (s', w') \<and> w_events w' = w_events w \<and>
    lc_states s' = lc_states s"
  using assms(1,3)
proof (induction rs arbitrary: s w)
  case (Cons r rs)
  obtain s1 w1 where 1: "dlpi_rx P r s w = Some (s1, w1)" "full_ok s1" "lc_states s1 = lc_states s"
    "w_events w1 = w_events w"
    using dlpi_rx_silent [OF Cons.prems(1) assms(2), of r w] Cons.prems(2) by auto
  from Cons.IH [OF 1(2), of w1] Cons.prems(2) 1 show ?case by auto
qed simp

theorem sunos_answers_nothing_witness:
  "\<exists>s' w'. dlpiLoop (posix_port steady_os) [(Some 36, demo_discover @ replicate 2012 0), (None, replicate 2048 0)]
       demo_full world0 = Some (s', w') \<and> w_events w' = w_events world0 \<and>
     lc_states s' = lc_states demo_full"
proof -
  have "length demo_discover = 36" by code_simp
  then show ?thesis by (intro sunos_answers_nothing [OF demo_full_ok steady_calm]) simp
qed

section \<open>FreeBSD\<close>

text \<open>
  C27.  On a buffer of well-formed BPF records (the padding between two records aligns the
  second one, behind the last it may be missing) the FreeBSD loop does what the ESXi loop does
  when it receives the frames one by one: records too short for a header are skipped, and
  the protocol core is handed the rest of the buffer from each other frame on.
\<close>

theorem freebsd_buffer_is_frames:
  assumes "well_recorded B records" "records \<noteq> []"
  shows "freebsd_lltdLoop B P ctx [(int (length (record_bytes records)), record_bytes records)] s w =
    esxi_lltdLoop P ctx (frames_received (record_frames records)) s w"
proof -
  have "record_bytes records \<noteq> []" using assms by (cases records) auto
  then show ?thesis
    using bpf_walk_records [OF assms(1), of "length (record_bytes records)" "[]" P ctx s w]
    by (simp add: esxi_lltdLoop_def case_prod_beta')
qed

text \<open>A header of two bytes, the lengths themselves, and padding to multiples of four.\<close>

definition demo_bpf :: bpf_env where
  "demo_bpf = \<lparr>be_hdr = (\<lambda>b. case b of hl # cl # _ \<Rightarrow> Some (ucast hl, ucast cl) | _ \<Rightarrow> None),
     be_wordalign = (\<lambda>n. (n + 3) div 4 * 4)\<rparr>"

theorem freebsd_buffer_is_frames_witness:
  "freebsd_lltdLoop demo_bpf (posix_port steady_os) 1
     [(int (length (record_bytes [([2, 36], demo_discover, [0, 0])])),
       record_bytes [([2, 36], demo_discover, [0, 0])])] demo_full world0 =
   esxi_lltdLoop (posix_port steady_os) 1
     (frames_received (record_frames [([2, 36], demo_discover, [0, 0])])) demo_full world0"
proof (rule freebsd_buffer_is_frames)
  have "length demo_discover = 36" by code_simp
  then show "well_recorded demo_bpf [([2, 36], demo_discover, [0, 0])]"
    by (simp add: demo_bpf_def)
qed simp

text \<open>
  The FreeBSD loop does not return from a buffer with a record whose rounded length is
  zero: the cursor stays where it is, and the thread reads the same record again for ever.
\<close>

theorem freebsd_empty_record_hangs:
  assumes "0 < n" "be_hdr B buf = Some (hdrlen, caplen)" "unat caplen < 32"
    and "be_wordalign B (unat (ucast hdrlen + caplen)) = 0"
  shows "freebsd_lltdLoop B P ctx ((n, buf) # rs) s w = None"
  using assms bpf_walk_stuck [of 0 "nat n" B buf hdrlen caplen P ctx s w] by simp

theorem freebsd_empty_record_hangs_witness:
  "freebsd_lltdLoop demo_bpf (posix_port steady_os) 1 [(8, [0, 0, 1, 1, 1, 1, 1, 1])] demo_full world0 =
     None"
  by (rule freebsd_empty_record_hangs [where hdrlen = 0 and caplen = 0]) (simp_all add: demo_bpf_def)

end
