(* ===== verification/LltdInterfaces.thy ===== *)
theory LltdInterfaces
  imports LltdLoopProps LltdLinuxPort
begin

unbundle bit_operations_syntax

text \<open>
  How the daemons find and open their interfaces: the lists of os/linux/daemon/
  linux-embedded-main.c, os/esxi/daemon/esxi-main.c and os/freebsd/daemon/freebsd-main.c,
  the packet sockets they bind, and the array of contexts of linux-main.c that grows while
  threads already run on its elements.  Results of system calls are parameters.
\<close>

section \<open>Listing interfaces\<close>

record if_entry =
  ife_name :: "string option"
  ife_flags :: u32

abbreviation (input) IFF_UP :: "'a::len word" where "IFF_UP \<equiv> 0x1"

definition if_usable :: "if_entry \<Rightarrow> bool" where
  "if_usable ifa \<longleftrightarrow> ife_flags ifa AND IFF_UP \<noteq> 0 \<and> ife_flags ifa AND IFF_LOOPBACK = 0"

text \<open>
  The loop over \<open>getifaddrs\<close>.  Allocation number \<open>k\<close> succeeds when \<open>ok k\<close>: one for the
  array, one for the copy of the name.
\<close>

fun collect_names ::
    "(string \<Rightarrow> bool) \<Rightarrow> (nat \<Rightarrow> bool) \<Rightarrow> nat \<Rightarrow> if_entry list \<Rightarrow> string list \<Rightarrow> string list" where
  "collect_names keep ok k [] names = names"
| "collect_names keep ok k (ifa # rest) names =
     (case ife_name ifa of
        None \<Rightarrow> collect_names keep ok k rest names
      | Some name \<Rightarrow>
          if \<not> if_usable ifa \<or> \<not> keep name \<or> name \<in> set names then collect_names keep ok k rest names
          else if \<not> ok k then collect_names keep ok (k + 1) rest names
          else if \<not> ok (k + 1) then collect_names keep ok (k + 2) rest names
          else collect_names keep ok (k + 2) rest (names @ [name]))"

definition embedded_listInterfaces ::
    "(nat \<Rightarrow> bool) \<Rightarrow> if_entry list option \<Rightarrow> string option \<Rightarrow> string list option" where
  "embedded_listInterfaces ok ifaddr only_name =
     map_option (\<lambda>l. collect_names (\<lambda>n. case only_name of None \<Rightarrow> True | Some x \<Rightarrow> x = n) ok 0 l []) ifaddr"

definition esxi_listInterfaces :: "(nat \<Rightarrow> bool) \<Rightarrow> if_entry list option \<Rightarrow> string list option" where
  "esxi_listInterfaces ok interfaces = map_option (\<lambda>l. collect_names (\<lambda>n. True) ok 0 l []) interfaces"

definition freebsd_listInterfaces :: "(nat \<Rightarrow> bool) \<Rightarrow> if_entry list option \<Rightarrow> string list option" where
  "freebsd_listInterfaces ok ifaddr = map_option (\<lambda>l. collect_names (\<lambda>n. True) ok 0 l []) ifaddr"

lemma collect_names_set:
  "distinct names \<Longrightarrow> distinct (collect_names keep ok k l names) \<and>
   set (collect_names keep ok k l names) \<subseteq>
     set names \<union> {n. keep n \<and> (\<exists>ifa \<in> set l. ife_name ifa = Some n \<and> if_usable ifa)} \<and>
   ((\<forall>k. ok k) \<longrightarrow> set (collect_names keep ok k l names) =
     set names \<union> {n. keep n \<and> (\<exists>ifa \<in> set l. ife_name ifa = Some n \<and> if_usable ifa)})"
proof (induction l arbitrary: k names)
  case (Cons ifa rest)
  note IH = Cons.IH [OF Cons.prems]
  show ?case
  proof (cases "\<exists>n. ife_name ifa = Some n \<and> if_usable ifa \<and> keep n \<and> n \<notin> set names")
    case False
    then have names: "collect_names keep ok k (ifa # rest) names = collect_names keep ok k rest names"
      by (auto split: option.split)
    have spec: "set names \<union> {n. keep n \<and> (\<exists>ifa \<in> set (ifa # rest). ife_name ifa = Some n \<and> if_usable ifa)} =
        set names \<union> {n. keep n \<and> (\<exists>ifa \<in> set rest. ife_name ifa = Some n \<and> if_usable ifa)}"
      using False by auto
    show ?thesis unfolding names spec by (rule IH)
  next
    case True
    then obtain n where n: "ife_name ifa = Some n" "if_usable ifa" "keep n" "n \<notin> set names" by blast
    then have "distinct (names @ [n])" using Cons.prems by simp
    note IH' = Cons.IH [OF this, of "k + 2"]
    show ?thesis
    proof (cases "ok k \<and> ok (k + 1)")
      case True
      then have "collect_names keep ok k (ifa # rest) names = collect_names keep ok (k + 2) rest (names @ [n])"
        using n by simp
      with IH' n show ?thesis by auto
    next
      case False
      then have "collect_names keep ok k (ifa # rest) names =
          collect_names keep ok (if ok k then k + 2 else k + 1) rest names"
        using n by simp
      with IH [of "if ok k then k + 2 else k + 1"] False show ?thesis by auto
    qed
  qed
qed simp

section \<open>Binding packet sockets\<close>

text \<open>
  What the system calls of \<open>fillInterfaceDetails\<close> return.  \<open>pe_flags\<close> is the 16-bit field
  of the request.  A name that could not be copied leaves the function before the record is
  used.
\<close>

record packet_env =
  pe_strdup :: bool
  pe_ifindex :: u32
  pe_socket :: int
  pe_bind :: bool
  pe_mtu :: "u32 option"
  pe_hwaddr :: "ethernet_address_t option"
  pe_flags :: "u16 option"
  pe_malloc :: "nat \<Rightarrow> bool"

datatype fd_event = FdOpen int | FdClose int

text \<open>The result, the interface, the size of its receive buffer, and the descriptors used.\<close>

type_synonym fill_result = "bool \<times> linux_interface \<times> nat option \<times> fd_event list"

definition linux_fillInterfaceDetails :: "packet_env \<Rightarrow> linux_interface \<Rightarrow> string \<Rightarrow> fill_result" where
  "linux_fillInterfaceDetails sys iface ifname =
     (let iface = iface\<lparr>ln_deviceName := ifname\<rparr> in
      if \<not> pe_strdup sys \<or> pe_ifindex sys = 0 then (False, iface, None, [])
      else
        let iface = iface\<lparr>ln_MediumType := 0, ln_LinkSpeed := 0, ln_flags := 0,
              ln_socket := pe_socket sys\<rparr>; sock = pe_socket sys in
        if sock < 0 then (False, iface, None, [])
        else if \<not> pe_bind sys then (False, iface, None, [FdOpen sock, FdClose sock])
        else
          let iface = iface\<lparr>ln_MTU := (case pe_mtu sys of Some m \<Rightarrow> m | None \<Rightarrow> 1500)\<rparr>;
              iface = (case pe_hwaddr sys of Some a \<Rightarrow> iface\<lparr>ln_macAddress := a\<rparr> | None \<Rightarrow> iface);
              iface = (case pe_flags sys of Some f \<Rightarrow> iface\<lparr>ln_flags := scast f\<rparr> | None \<Rightarrow> iface);
              mtu = unat (ln_MTU iface) in
          if \<not> pe_malloc sys mtu then (False, iface, None, [FdOpen sock, FdClose sock])
          else (True, iface, Some mtu, [FdOpen sock]))"

definition embedded_fillInterfaceDetails :: "packet_env \<Rightarrow> linux_interface \<Rightarrow> string \<Rightarrow> fill_result" where
  "embedded_fillInterfaceDetails sys iface ifname =
     (let iface = iface\<lparr>ln_deviceName := ifname\<rparr> in
      if \<not> pe_strdup sys \<or> pe_ifindex sys = 0 then (False, iface, None, [])
      else
        let iface = iface\<lparr>ln_MediumType := 0, ln_LinkSpeed := 0, ln_flags := 0,
              ln_socket := pe_socket sys\<rparr>; sock = pe_socket sys in
        if sock < 0 then (False, iface, None, [])
        else if \<not> pe_bind sys then (False, iface, None, [FdOpen sock, FdClose sock])
        else
          let iface = iface\<lparr>ln_MTU := (case pe_mtu sys of Some m \<Rightarrow> m | None \<Rightarrow> 1500)\<rparr>;
              iface = (case pe_hwaddr sys of Some a \<Rightarrow> iface\<lparr>ln_macAddress := a\<rparr> | None \<Rightarrow> iface);
              iface = (case pe_flags sys of Some f \<Rightarrow> iface\<lparr>ln_flags := scast f\<rparr> | None \<Rightarrow> iface);
              mtu = unat (ln_MTU iface) in
          if \<not> pe_malloc sys mtu then (False, iface, None, [FdOpen sock, FdClose sock])
          else (True, iface, Some mtu, [FdOpen sock]))"

text \<open>ESXi and BeOS do not ask for the flags.\<close>

definition esxi_fillInterfaceDetails :: "packet_env \<Rightarrow> linux_interface \<Rightarrow> string \<Rightarrow> fill_result" where
  "esxi_fillInterfaceDetails sys iface interfaceName =
     (let iface = iface\<lparr>ln_deviceName := interfaceName\<rparr> in
      if \<not> pe_strdup sys \<or> pe_ifindex sys = 0 then (False, iface, None, [])
      else
        let sock = pe_socket sys; iface = iface\<lparr>ln_socket := sock\<rparr> in
        if sock < 0 then (False, iface, None, [])
        else if \<not> pe_bind sys then (False, iface, None, [FdOpen sock, FdClose sock])
        else
          let iface = iface\<lparr>ln_MTU := (case pe_mtu sys of Some m \<Rightarrow> m | None \<Rightarrow> 1500)\<rparr>;
              iface = (case pe_hwaddr sys of Some a \<Rightarrow> iface\<lparr>ln_macAddress := a\<rparr> | None \<Rightarrow> iface);
              mtu = unat (ln_MTU iface) in
          if \<not> pe_malloc sys mtu then (False, iface, None, [FdOpen sock, FdClose sock])
          else (True, iface, Some mtu, [FdOpen sock]))"

definition beos_fillInterfaceDetails :: "packet_env \<Rightarrow> linux_interface \<Rightarrow> string \<Rightarrow> fill_result" where
  "beos_fillInterfaceDetails sys iface ifname =
     (let iface = iface\<lparr>ln_deviceName := ifname\<rparr> in
      if \<not> pe_strdup sys \<or> pe_ifindex sys = 0 then (False, iface, None, [])
      else
        let sock = pe_socket sys; iface = iface\<lparr>ln_socket := sock\<rparr> in
        if sock < 0 then (False, iface, None, [])
        else if \<not> pe_bind sys then (False, iface, None, [FdOpen sock, FdClose sock])
        else
          let iface = iface\<lparr>ln_MTU := (case pe_mtu sys of Some m \<Rightarrow> m | None \<Rightarrow> 1500)\<rparr>;
              iface = (case pe_hwaddr sys of Some a \<Rightarrow> iface\<lparr>ln_macAddress := a\<rparr> | None \<Rightarrow> iface);
              mtu = unat (ln_MTU iface) in
          if \<not> pe_malloc sys mtu then (False, iface, None, [FdOpen sock, FdClose sock])
          else (True, iface, Some mtu, [FdOpen sock]))"

text \<open>FreeBSD opens the first BPF device that can be opened, and a socket only for the queries.\<close>

definition openBpfDevice :: "(nat \<Rightarrow> int) \<Rightarrow> int" where
  "openBpfDevice open = (case find (\<lambda>i. 0 \<le> open i) [0..<255] of Some i \<Rightarrow> open i | None \<Rightarrow> -1)"

record bpf_fill_env = packet_env +
  pe_bpf :: "nat \<Rightarrow> int"
  pe_setif :: bool
  pe_bpf_hdr_size :: nat

definition freebsd_fillInterfaceDetails ::
    "bpf_fill_env \<Rightarrow> linux_interface \<Rightarrow> string \<Rightarrow> fill_result" where
  "freebsd_fillInterfaceDetails sys iface ifname =
     (let iface = iface\<lparr>ln_deviceName := ifname\<rparr> in
      if \<not> pe_strdup sys then (False, iface, None, [])
      else
        let bpf = openBpfDevice (pe_bpf sys) in
        if bpf < 0 then (False, iface, None, [])
        else if \<not> pe_setif sys then (False, iface, None, [FdOpen bpf, FdClose bpf])
        else
          let sock = pe_socket sys;
              iface = (if 0 \<le> sock
                then let iface = iface\<lparr>ln_MTU := (case pe_mtu sys of Some m \<Rightarrow> m | None \<Rightarrow> 1500)\<rparr>
                  in (case pe_hwaddr sys of Some a \<Rightarrow> iface\<lparr>ln_macAddress := a\<rparr> | None \<Rightarrow> iface)
                else iface\<lparr>ln_MTU := 1500\<rparr>);
              queried = (if 0 \<le> sock then [FdOpen sock, FdClose sock] else []);
              iface = iface\<lparr>ln_socket := bpf\<rparr>;
              recvBufferSize = unat (ln_MTU iface) + pe_bpf_hdr_size sys in
          if \<not> pe_malloc sys recvBufferSize
          then (False, iface, None, FdOpen bpf # queried @ [FdClose bpf])
          else (True, iface, Some recvBufferSize, FdOpen bpf # queried))"

text \<open>The descriptors left open.\<close>

definition fds_left :: "fd_event list \<Rightarrow> int set" where
  "fds_left = foldl (\<lambda>s e. case e of FdOpen d \<Rightarrow> insert d s | FdClose d \<Rightarrow> s - {d}) {}"

lemma fds_left_simps [simp]:
  "fds_left [] = {}" "fds_left [FdOpen d] = {d}" "fds_left [FdOpen d, FdClose d] = {}"
  "d \<noteq> b \<Longrightarrow> fds_left [FdOpen b, FdOpen d, FdClose d] = {b}"
  "d \<noteq> b \<Longrightarrow> fds_left [FdOpen b, FdOpen d, FdClose d, FdClose b] = {}"
  by (auto simp: fds_left_def)

lemma linux_fill_cases:
  assumes "linux_fillInterfaceDetails sys iface name = (ok, iface', buffer, fds)"
  shows "if ok then 0 \<le> pe_socket sys \<and> ln_socket iface' = pe_socket sys \<and> fds_left fds = {pe_socket sys} \<and>
      ln_MTU iface' = (case pe_mtu sys of Some m \<Rightarrow> m | None \<Rightarrow> 1500) \<and>
      buffer = Some (unat (ln_MTU iface'))
    else fds_left fds = {} \<and> buffer = None"
  using assms
  by (auto simp: linux_fillInterfaceDetails_def Let_def split: if_splits option.splits)

section \<open>The array of contexts on Linux\<close>

text \<open>
  One device of NetworkManager: whether it should be bound, and what opening it gave.
  \<open>realloc\<close> number \<open>k\<close> returns the address \<open>grow k\<close>, and \<open>sz\<close> is the size of a context.  A
  thread is started with the address its context has at that moment.
\<close>

record load_state =
  ld_base :: "nat option"
  ld_count :: nat
  ld_threads :: "nat list"
  ld_calls :: nat

fun load_devices :: "nat \<Rightarrow> (nat \<Rightarrow> nat option) \<Rightarrow> (bool \<times> bool) list \<Rightarrow> load_state \<Rightarrow> load_state" where
  "load_devices sz grow [] s = s"
| "load_devices sz grow ((wanted, filled) # ds) s =
     (if \<not> wanted then load_devices sz grow ds s
      else case grow (ld_calls s) of
        None \<Rightarrow> s
      | Some expanded \<Rightarrow>
          (let s = s\<lparr>ld_base := Some expanded, ld_calls := ld_calls s + 1\<rparr> in
           if \<not> filled then load_devices sz grow ds s
           else load_devices sz grow ds (s\<lparr>ld_threads := ld_threads s @ [expanded + sz * ld_count s],
             ld_count := ld_count s + 1\<rparr>)))"

definition loadInterfaces ::
    "nat \<Rightarrow> (nat \<Rightarrow> nat option) \<Rightarrow> (bool \<times> bool) list option \<Rightarrow> load_state option" where
  "loadInterfaces sz grow devices =
     map_option (\<lambda>ds. load_devices sz grow ds
       \<lparr>ld_base = None, ld_count = 0, ld_threads = [], ld_calls = 0\<rparr>) devices"

lemma load_devices_all:
  assumes "\<forall>k < c + length ds. grow k \<noteq> None" "\<forall>d \<in> set ds. d = (True, True)" "length ts = c"
  shows "load_devices sz grow ds \<lparr>ld_base = b, ld_count = c, ld_threads = ts, ld_calls = c\<rparr> =
    \<lparr>ld_base = (if ds = [] then b else grow (c + length ds - 1)), ld_count = c + length ds,
     ld_threads = ts @ map (\<lambda>k. the (grow k) + sz * k) [c..<c + length ds],
     ld_calls = c + length ds\<rparr>"
  using assms
proof (induction ds arbitrary: b c ts)
  case (Cons d ds)
  obtain a where a: "grow c = Some a" using Cons.prems(1) by force
  have IH: "load_devices sz grow ds \<lparr>ld_base = Some a, ld_count = Suc c,
      ld_threads = ts @ [a + sz * c], ld_calls = Suc c\<rparr> =
    \<lparr>ld_base = (if ds = [] then Some a else grow (Suc c + length ds - 1)), ld_count = Suc c + length ds,
     ld_threads = (ts @ [a + sz * c]) @ map (\<lambda>k. the (grow k) + sz * k) [Suc c..<Suc c + length ds],
     ld_calls = Suc c + length ds\<rparr>"
    by (rule Cons.IH) (use Cons.prems in auto)
  have "[c..<c + length (d # ds)] = c # [Suc c..<Suc c + length ds]"
    using upt_conv_Cons [of c "c + length (d # ds)"] by simp
  with IH a Cons.prems(2) show ?case by (auto simp: Let_def)
qed simp

section \<open>Properties\<close>

text \<open>
  The list of interfaces of the embedded Linux daemon has no duplicates and holds only
  interfaces that are up and not loopback, and of the given name when one is given; if no
  allocation fails it holds all of them.
\<close>

theorem listed_interfaces_exact:
  assumes "embedded_listInterfaces ok (Some l) only_name = Some names"
  shows "distinct names \<and>
    set names \<subseteq> {n. (only_name = None \<or> only_name = Some n) \<and>
      (\<exists>ifa \<in> set l. ife_name ifa = Some n \<and> if_usable ifa)} \<and>
    ((\<forall>k. ok k) \<longrightarrow> set names = {n. (only_name = None \<or> only_name = Some n) \<and>
      (\<exists>ifa \<in> set l. ife_name ifa = Some n \<and> if_usable ifa)})"
proof -
  have keep: "(case only_name of None \<Rightarrow> True | Some x \<Rightarrow> x = n) \<longleftrightarrow> only_name = None \<or> only_name = Some n"
    for n by (cases only_name) auto
  from assms show ?thesis
    using collect_names_set [of "[]" "\<lambda>n. only_name = None \<or> only_name = Some n" ok 0 l]
    unfolding embedded_listInterfaces_def keep by simp
qed

definition demo_ifaddrs :: "if_entry list" where
  "demo_ifaddrs = [\<lparr>ife_name = Some ''lo'', ife_flags = 9\<rparr>, \<lparr>ife_name = Some ''eth0'', ife_flags = 1\<rparr>,
     \<lparr>ife_name = Some ''eth0'', ife_flags = 1\<rparr>]"

lemma collect_names_demo:
  "embedded_listInterfaces (\<lambda>k. True) (Some demo_ifaddrs) None = Some [''eth0'']"
  by code_simp

theorem listed_interfaces_exact_witness:
  "distinct [''eth0''] \<and> set [''eth0''] = {n. \<exists>ifa \<in> set demo_ifaddrs.
     ife_name ifa = Some n \<and> if_usable ifa}"
  using listed_interfaces_exact [where ok = "\<lambda>k. True" and l = demo_ifaddrs and only_name = None
      and names = "[''eth0'']"]
    collect_names_demo by simp

text \<open>
  C28.  Every socket the Linux daemon opens for an interface is closed again when the
  interface cannot be bound; an interface that was bound keeps exactly its own socket and
  has a receive buffer of its MTU, and if that MTU has room for a Hello, the receive loop
  on it handles every sequence of complete frames.
\<close>

theorem linux_bound_interface_serves:
  assumes "linux_fillInterfaceDetails sys iface name = (ok, iface', buffer, fds)"
    and "nif ctx = iface'" "ctx \<noteq> 0" "calm_clock (linux_port os nif)" "loop_ok s"
    and "\<forall>r \<in> set rs. 0 < fst r \<longrightarrow> 32 \<le> length (snd r) \<and>
      frame_needs (p_little_endian (linux_port os nif)) (snd r) \<le> length (snd r)"
  shows "fds_left fds = (if ok then {ln_socket iface'} else {}) \<and>
    (ok \<longrightarrow> buffer = Some (unat (ln_MTU iface'))) \<and>
    (ok \<and> hello_room \<le> unat (ln_MTU iface') \<longrightarrow>
      (\<exists>s' w'. linux_lltdLoop (linux_port os nif) ctx rs s w = Some (s', w') \<and> loop_ok s'))"
proof -
  note fill = linux_fill_cases [OF assms(1)]
  have "\<exists>s' w'. linux_lltdLoop (linux_port os nif) ctx rs s w = Some (s', w') \<and> loop_ok s'"
    if room: "hello_room \<le> unat (ln_MTU iface')"
  proof -
    have "usable_port (linux_port os nif) ctx"
      using room assms(2,3) linux.lltd_port_heap_axioms
      by (simp add: usable_port_def port_mtu_def linux_port_def linux_get_mtu_def)
    then have "\<forall>r \<in> set rs. 0 < fst r \<longrightarrow> rx_ready (linux_port os nif) ctx (snd r)"
      using assms(4,6) by (simp add: rx_ready_def frame_complete_def)
    from linux_loop.loop_runs [OF assms(5) this] show ?thesis by (simp add: linux_lltdLoop_def)
  qed
  with fill show ?thesis by (auto split: if_splits)
qed

definition demo_linux_env :: linux_env where
  "demo_linux_env = \<lparr>le_little_endian = True, le_clock_gettime = (\<lambda>i. Some (of_nat i, 0)),
     le_malloc = (\<lambda>i n. True), le_gethostname = None, le_getifaddrs = None,
     le_sendto = (\<lambda>i fd f. int (length f))\<rparr>"

definition demo_packet_env :: packet_env where
  "demo_packet_env = \<lparr>pe_strdup = True, pe_ifindex = 2, pe_socket = 5, pe_bind = True,
     pe_mtu = Some 1500, pe_hwaddr = Some EthernetBroadcast, pe_flags = Some 1, pe_malloc = (\<lambda>n. True)\<rparr>"

definition blank_linux :: linux_interface where
  "blank_linux = \<lparr>ln_deviceName = '''', ln_ifType = 0, ln_socket = 0, ln_MediumType = 0, ln_MTU = 0,
     ln_LinkSpeed = 0, ln_flags = 0, ln_macAddress = zero_mac\<rparr>"

definition demo_linux :: linux_interface where
  "demo_linux = fst (snd (linux_fillInterfaceDetails demo_packet_env blank_linux ''eth0''))"

lemma demo_linux_MTU: "ln_MTU demo_linux = 1500"
  by (simp add: demo_linux_def linux_fillInterfaceDetails_def demo_packet_env_def blank_linux_def Let_def)

lemma demo_linux_calm: "calm_clock (linux_port demo_linux_env nif)"
proof -
  have "p_seconds (linux_port demo_linux_env nif) i = of_nat i" for i
    by (simp add: linux_port_def linux_monotonic_seconds_def demo_linux_env_def)
  then have "\<exists>k \<ge> n. p_seconds (linux_port demo_linux_env nif) (Suc k) -
      p_seconds (linux_port demo_linux_env nif) k \<le> 1" for n
    by (intro exI [of _ n]) simp
  then show ?thesis by (simp add: calm_clock_def)
qed

lemma demo_linux_fills:
  "linux_fillInterfaceDetails demo_packet_env blank_linux ''eth0'' =
     (True, demo_linux, Some 1500, [FdOpen 5])"
  by (simp add: demo_linux_def linux_fillInterfaceDetails_def demo_packet_env_def Let_def)

lemma demo_linux_frames:
  "\<forall>r \<in> set [(-1 :: int, []), (36, demo_discover)]. 0 < fst r \<longrightarrow> 32 \<le> length (snd r) \<and>
     frame_needs (p_little_endian (linux_port demo_linux_env (\<lambda>i. demo_linux))) (snd r) \<le> length (snd r)"
proof -
  have "p_little_endian (linux_port demo_linux_env (\<lambda>i. demo_linux)) = True"
    by (simp add: linux_port_def demo_linux_env_def)
  moreover have "length demo_discover = 36" by code_simp
  ultimately show ?thesis by (simp add: frame_needs_def demo_discover_loads)
qed

theorem linux_bound_interface_serves_witness:
  "fds_left [FdOpen 5] = {ln_socket demo_linux} \<and>
    (\<exists>s' w'. linux_lltdLoop (linux_port demo_linux_env (\<lambda>i. demo_linux)) 1
       [(-1, []), (36, demo_discover)] demo_full world0 = Some (s', w') \<and> loop_ok s')"
proof -
  have "loop_ok demo_full" using demo_full_ok by (simp add: full_ok_def)
  moreover have "hello_room \<le> unat (ln_MTU demo_linux)" by (simp add: demo_linux_MTU)
  ultimately show ?thesis
    using linux_bound_interface_serves [OF demo_linux_fills refl _ demo_linux_calm _ demo_linux_frames,
      where ctx = 1 and s = demo_full and w = world0] by simp
qed

text \<open>
  The systemd daemon starts a thread on the address its context has in the array, and
  then lets \<open>realloc\<close> move the array for the next device.  When all devices can be bound,
  the thread of device \<open>i\<close> runs on its context in the final array exactly when the
  reallocations after its own left the array where it was.
\<close>

theorem linux_threads_keep_contexts:
  assumes "devices \<noteq> []" "\<forall>d \<in> set devices. d = (True, True)"
    and "\<forall>k < length devices. grow k \<noteq> None" "i < length devices"
  shows "\<exists>s base. loadInterfaces sz grow (Some devices) = Some s \<and> ld_base s = Some base \<and>
    ld_count s = length devices \<and> length (ld_threads s) = length devices \<and>
    (ld_threads s ! i = base + sz * i \<longleftrightarrow> grow i = grow (length devices - 1))"
proof -
  obtain base where base: "grow (length devices - 1) = Some base"
    using assms(1,3) by (cases devices) auto
  obtain a where a: "grow i = Some a" using assms(3,4) by auto
  show ?thesis
    using load_devices_all [of 0 devices grow "[]" sz None] assms base a
    by (simp add: loadInterfaces_def)
qed

theorem linux_threads_keep_contexts_witness:
  "\<exists>s base. loadInterfaces 64 (\<lambda>k. if k = 0 then Some 1000 else Some 5000)
       (Some [(True, True), (True, True)]) = Some s \<and> ld_base s = Some base \<and>
    ld_count s = length [(True, True), (True, True)] \<and>
    length (ld_threads s) = length [(True, True), (True, True)] \<and>
    (ld_threads s ! 0 = base + 64 * 0 \<longleftrightarrow> (if (0 :: nat) = 0 then Some 1000 else Some 5000) =
       (if length [(True, True), (True, True)] - 1 = 0 then Some 1000 else Some (5000 :: nat)))"
  by (rule linux_threads_keep_contexts
      [where grow = "\<lambda>k. if k = 0 then Some 1000 else Some 5000" and i = 0]) auto

end
