(* ===== verification/LltdWifi.thy ===== *)
theory LltdWifi
  imports LltdPrelude
begin

unbundle bit_operations_syntax

text \<open>
  os/darwin/daemon/lltd_wifi_rates.c and lltd_wifi_iokit.c: the rate tables of 802.11n/ac/ax,
  the search for the parameters behind an observed rate, and the metrics of a WiFi interface.
  A C \<open>int\<close> is an \<open>int\<close>; the two places where the search can overflow it are checked, and an
  overflow has no result.  The properties IOKit returns are a parameter.
\<close>

section \<open>Constants and tables\<close>

abbreviation (input) WIFI_PHY_LEGACY_B :: int where "WIFI_PHY_LEGACY_B \<equiv> 1"
abbreviation (input) WIFI_PHY_LEGACY_AG :: int where "WIFI_PHY_LEGACY_AG \<equiv> 2"
abbreviation (input) WIFI_PHY_HT :: int where "WIFI_PHY_HT \<equiv> 3"
abbreviation (input) WIFI_PHY_VHT :: int where "WIFI_PHY_VHT \<equiv> 4"
abbreviation (input) WIFI_PHY_HE :: int where "WIFI_PHY_HE \<equiv> 5"
abbreviation (input) WIFI_HT_MAX_MCS :: int where "WIFI_HT_MAX_MCS \<equiv> 7"
abbreviation (input) WIFI_VHT_MAX_MCS :: int where "WIFI_VHT_MAX_MCS \<equiv> 9"
abbreviation (input) WIFI_HE_MAX_MCS :: int where "WIFI_HE_MAX_MCS \<equiv> 11"
abbreviation (input) WIFI_MAX_NSS :: int where "WIFI_MAX_NSS \<equiv> 8"

definition ht_rates_x10 :: "int list list list" where
  "ht_rates_x10 =
    [[[65, 72], [135, 150]],
     [[130, 144], [270, 300]],
     [[195, 217], [405, 450]],
     [[260, 289], [540, 600]],
     [[390, 433], [810, 900]],
     [[520, 578], [1080, 1200]],
     [[585, 650], [1215, 1350]],
     [[650, 722], [1350, 1500]]]"

definition vht_rates_1ss_x10 :: "int list list list" where
  "vht_rates_1ss_x10 =
    [[[65, 72], [135, 150], [293, 325], [585, 650]],
     [[130, 144], [270, 300], [585, 650], [1170, 1300]],
     [[195, 217], [405, 450], [878, 975], [1755, 1950]],
     [[260, 289], [540, 600], [1170, 1300], [2340, 2600]],
     [[390, 433], [810, 900], [1755, 1950], [3510, 3900]],
     [[520, 578], [1080, 1200], [2340, 2600], [4680, 5200]],
     [[585, 650], [1215, 1350], [2633, 2925], [5265, 5850]],
     [[650, 722], [1350, 1500], [2925, 3250], [5850, 6500]],
     [[780, 867], [1620, 1800], [3510, 3900], [7020, 7800]],
     [[0, 0], [1800, 2000], [3900, 4333], [7800, 8667]]]"

definition he_rates_1ss_x10 :: "int list list list" where
  "he_rates_1ss_x10 =
    [[[86, 81, 73], [172, 163, 146], [360, 340, 306], [721, 681, 613]],
     [[172, 163, 146], [344, 325, 293], [721, 681, 613], [1441, 1361, 1225]],
     [[258, 244, 219], [516, 488, 439], [1081, 1021, 919], [2162, 2042, 1838]],
     [[344, 325, 293], [688, 650, 585], [1441, 1361, 1225], [2882, 2722, 2450]],
     [[516, 488, 439], [1032, 975, 878], [2162, 2042, 1838], [4324, 4083, 3675]],
     [[688, 650, 585], [1376, 1300, 1170], [2882, 2722, 2450], [5765, 5444, 4900]],
     [[774, 731, 658], [1549, 1463, 1316], [3243, 3063, 2756], [6485, 6125, 5513]],
     [[860, 813, 731], [1721, 1625, 1463], [3603, 3403, 3063], [7206, 6806, 6125]],
     [[1032, 975, 878], [2065, 1950, 1755], [4324, 4083, 3675], [8647, 8167, 7350]],
     [[1147, 1083, 975], [2294, 2167, 1950], [4804, 4537, 4083], [9608, 9074, 8167]],
     [[1290, 1219, 1097], [2581, 2438, 2194], [5404, 5104, 4594], [10809, 10208, 9188]],
     [[1434, 1354, 1219], [2868, 2708, 2438], [6005, 5671, 5104], [12010, 11342, 10208]]]"

section \<open>Rates\<close>

definition width_to_index :: "int \<Rightarrow> int \<Rightarrow> int" where
  "width_to_index width_mhz max_index =
     (let idx = (if width_mhz = 20 then 0 else if width_mhz = 40 then 1
                 else if width_mhz = 80 then 2 else if width_mhz = 160 then 3 else -1)
      in if idx < 0 then -1 else if idx \<le> max_index then idx else -1)"

definition gi_to_ht_vht_index :: "int \<Rightarrow> int" where
  "gi_to_ht_vht_index gi_ns = (if gi_ns = 800 then 0 else if gi_ns = 400 then 1 else -1)"

definition gi_to_he_index :: "int \<Rightarrow> int" where
  "gi_to_he_index gi_ns =
     (if gi_ns = 800 then 0 else if gi_ns = 1600 then 1 else if gi_ns = 3200 then 2 else -1)"

text \<open>An entry of a table; the indices have been checked.\<close>

definition rate_at :: "int list list list \<Rightarrow> int \<Rightarrow> int \<Rightarrow> int \<Rightarrow> int" where
  "rate_at table mcs width_idx gi_idx = table ! nat mcs ! nat width_idx ! nat gi_idx"

definition lltd_wifi_calc_rate :: "int \<Rightarrow> int \<Rightarrow> int \<Rightarrow> int \<Rightarrow> int \<Rightarrow> int" where
  "lltd_wifi_calc_rate phy_family width_mhz nss mcs gi_ns =
     (if nss < 1 \<or> WIFI_MAX_NSS < nss then 0
      else if phy_family = WIFI_PHY_LEGACY_B then 11
      else if phy_family = WIFI_PHY_LEGACY_AG then 54
      else if phy_family = WIFI_PHY_HT then
        if mcs < 0 \<or> WIFI_HT_MAX_MCS < mcs then 0
        else
          let width_idx = width_to_index width_mhz 1; gi_idx = gi_to_ht_vht_index gi_ns
          in if width_idx < 0 \<or> gi_idx < 0 then 0
             else (rate_at ht_rates_x10 mcs width_idx gi_idx * nss + 5) div 10
      else if phy_family = WIFI_PHY_VHT then
        if mcs < 0 \<or> WIFI_VHT_MAX_MCS < mcs then 0
        else
          let width_idx = width_to_index width_mhz 3; gi_idx = gi_to_ht_vht_index gi_ns
          in if width_idx < 0 \<or> gi_idx < 0 then 0
             else
               let rate_x10 = rate_at vht_rates_1ss_x10 mcs width_idx gi_idx
               in if rate_x10 = 0 then 0 else (rate_x10 * nss + 5) div 10
      else if phy_family = WIFI_PHY_HE then
        if mcs < 0 \<or> WIFI_HE_MAX_MCS < mcs then 0
        else
          let width_idx = width_to_index width_mhz 3; gi_idx = gi_to_he_index gi_ns
          in if width_idx < 0 \<or> gi_idx < 0 then 0
             else (rate_at he_rates_1ss_x10 mcs width_idx gi_idx * nss + 5) div 10
      else 0)"

definition lltd_wifi_calc_max_rate :: "int \<Rightarrow> int \<Rightarrow> int \<Rightarrow> int" where
  "lltd_wifi_calc_max_rate phy_family width_mhz nss =
     (if phy_family = WIFI_PHY_LEGACY_B then 11
      else if phy_family = WIFI_PHY_LEGACY_AG then 54
      else if phy_family = WIFI_PHY_HT then
        lltd_wifi_calc_rate phy_family width_mhz nss WIFI_HT_MAX_MCS 400
      else if phy_family = WIFI_PHY_VHT then
        lltd_wifi_calc_rate phy_family width_mhz nss WIFI_VHT_MAX_MCS 400
      else if phy_family = WIFI_PHY_HE then
        lltd_wifi_calc_rate phy_family width_mhz nss WIFI_HE_MAX_MCS 800
      else 0)"

definition lltd_wifi_phy_family_from_cwmode :: "int \<Rightarrow> int" where
  "lltd_wifi_phy_family_from_cwmode cw_phy_mode =
     (if cw_phy_mode = 2 then WIFI_PHY_LEGACY_B
      else if cw_phy_mode = 1 \<or> cw_phy_mode = 3 then WIFI_PHY_LEGACY_AG
      else if cw_phy_mode = 4 then WIFI_PHY_HT
      else if cw_phy_mode = 5 then WIFI_PHY_VHT
      else if cw_phy_mode = 6 then WIFI_PHY_HE
      else 0)"

section \<open>The search for rate parameters\<close>

record wifi_rate_params_t =
  wr_nss :: int
  wr_mcs :: int
  wr_gi_ns :: int
  wr_rate_mbps :: int

text \<open>A result of \<open>int\<close> arithmetic, when it is one.\<close>

definition c_int :: "int \<Rightarrow> int option" where
  "c_int x = (if - (2 ^ 31) \<le> x \<and> x < 2 ^ 31 then Some x else None)"

text \<open>The largest MCS and the guard intervals of a family, in the order they are tried.\<close>

definition infer_options :: "int \<Rightarrow> (int \<times> int list) option" where
  "infer_options phy_family =
     (if phy_family = WIFI_PHY_HT then Some (WIFI_HT_MAX_MCS, [800, 400])
      else if phy_family = WIFI_PHY_VHT then Some (WIFI_VHT_MAX_MCS, [800, 400])
      else if phy_family = WIFI_PHY_HE then Some (WIFI_HE_MAX_MCS, [800, 1600, 3200])
      else None)"

text \<open>The three nested loops as the sequence of their combinations.\<close>

definition infer_combinations :: "int \<Rightarrow> int list \<Rightarrow> (int \<times> int \<times> int) list" where
  "infer_combinations max_mcs gi_values =
     concat (map (\<lambda>nss. concat (map (\<lambda>mcs. map (\<lambda>gi. (nss, mcs, gi)) gi_values) [0..max_mcs]))
       [1..WIFI_MAX_NSS])"

text \<open>The best difference so far and its parameters.\<close>

fun infer_loop ::
    "int \<Rightarrow> int \<Rightarrow> int \<Rightarrow> (int \<times> int \<times> int) list \<Rightarrow> int \<times> wifi_rate_params_t \<Rightarrow>
     (int \<times> wifi_rate_params_t) option" where
  "infer_loop phy_family width_mhz observed_mbps [] best = Some best"
| "infer_loop phy_family width_mhz observed_mbps ((nss, mcs, gi) # cs) best =
     (let rate = lltd_wifi_calc_rate phy_family width_mhz nss mcs gi in
      if rate = 0 then infer_loop phy_family width_mhz observed_mbps cs best
      else do {
        diff \<leftarrow> c_int (observed_mbps - rate);
        diff \<leftarrow> (if diff < 0 then c_int (- diff) else Some diff);
        infer_loop phy_family width_mhz observed_mbps cs
          (if diff < fst best
           then (diff, \<lparr>wr_nss = nss, wr_mcs = mcs, wr_gi_ns = gi, wr_rate_mbps = rate\<rparr>)
           else best)
      })"

definition no_params :: wifi_rate_params_t where
  "no_params = \<lparr>wr_nss = 0, wr_mcs = 0, wr_gi_ns = 0, wr_rate_mbps = 0\<rparr>"

definition lltd_wifi_infer_params ::
    "int \<Rightarrow> int \<Rightarrow> int \<Rightarrow> int \<Rightarrow> (int \<times> wifi_rate_params_t) option" where
  "lltd_wifi_infer_params phy_family width_mhz observed_mbps tolerance_mbps =
     (case infer_options phy_family of
        None \<Rightarrow> Some (-1, no_params)
      | Some (max_mcs, gi_values) \<Rightarrow> do {
          best_diff \<leftarrow> c_int (tolerance_mbps + 1);
          (best_diff, best) \<leftarrow> infer_loop phy_family width_mhz observed_mbps
            (infer_combinations max_mcs gi_values) (best_diff, no_params);
          Some (if best_diff \<le> tolerance_mbps then (0, best) else (-1, no_params))
        })"

section \<open>The metrics of an interface\<close>

definition mapPhyMode :: "int \<Rightarrow> int" where
  "mapPhyMode iokitPhyMode = (if 1 \<le> iokitPhyMode \<and> iokitPhyMode \<le> 6 then iokitPhyMode else 0)"

definition lltd_wifi_phy_mode_name :: "int \<Rightarrow> string" where
  "lltd_wifi_phy_mode_name phy_mode =
     (if phy_mode = 0 then ''none''
      else if phy_mode = 1 then ''802.11a''
      else if phy_mode = 2 then ''802.11b''
      else if phy_mode = 3 then ''802.11g''
      else if phy_mode = 4 then ''802.11n''
      else if phy_mode = 5 then ''802.11ac''
      else if phy_mode = 6 then ''802.11ax''
      else ''unknown'')"

record lltd_wifi_metrics_t =
  wm_rssi_dbm :: int
  wm_noise_dbm :: int
  wm_link_mbps :: int
  wm_max_link_mbps :: int
  wm_phy_mode :: int
  wm_chan_width_mhz :: int
  wm_nss_inferred :: int
  wm_mcs_inferred :: int
  wm_gi_ns_inferred :: int
  wm_flags :: "32 word"

definition no_metrics :: lltd_wifi_metrics_t where
  "no_metrics = \<lparr>wm_rssi_dbm = 0, wm_noise_dbm = 0, wm_link_mbps = 0, wm_max_link_mbps = 0,
     wm_phy_mode = 0, wm_chan_width_mhz = 0, wm_nss_inferred = 0, wm_mcs_inferred = 0,
     wm_gi_ns_inferred = 0, wm_flags = 0\<rparr>"

abbreviation (input) VALID_RSSI :: "32 word" where "VALID_RSSI \<equiv> 1"
abbreviation (input) VALID_NOISE :: "32 word" where "VALID_NOISE \<equiv> 2"
abbreviation (input) VALID_LINK :: "32 word" where "VALID_LINK \<equiv> 4"
abbreviation (input) VALID_MAX :: "32 word" where "VALID_MAX \<equiv> 8"
abbreviation (input) APPROX_MAX :: "32 word" where "APPROX_MAX \<equiv> 16"
abbreviation (input) VALID_PHY :: "32 word" where "VALID_PHY \<equiv> 32"
abbreviation (input) VALID_WIDTH :: "32 word" where "VALID_WIDTH \<equiv> 64"
abbreviation (input) VALID_INFER :: "32 word" where "VALID_INFER \<equiv> 128"

definition set_flag :: "bool \<Rightarrow> 32 word \<Rightarrow> lltd_wifi_metrics_t \<Rightarrow> lltd_wifi_metrics_t" where
  "set_flag b f m = (if b then m\<lparr>wm_flags := wm_flags m OR f\<rparr> else m)"

text \<open>\<open>getIntProperty\<close>: the number, or 0 and not found.\<close>

definition getIntProperty :: "(string \<Rightarrow> int option) \<Rightarrow> string \<Rightarrow> int \<times> bool" where
  "getIntProperty props key = (case props key of None \<Rightarrow> (0, False) | Some v \<Rightarrow> (v, True))"

text \<open>The part after the link rate is known: the largest rate and what it rests on.\<close>

definition wifi_max_metrics :: "lltd_wifi_metrics_t \<Rightarrow> lltd_wifi_metrics_t option" where
  "wifi_max_metrics m =
     (let phy_family = lltd_wifi_phy_family_from_cwmode (wm_phy_mode m);
          width = (if 0 < wm_chan_width_mhz m then wm_chan_width_mhz m else 20) in
      if phy_family = WIFI_PHY_LEGACY_B then Some (set_flag True VALID_MAX (m\<lparr>wm_max_link_mbps := 11\<rparr>))
      else if phy_family = WIFI_PHY_LEGACY_AG
      then Some (set_flag True VALID_MAX (m\<lparr>wm_max_link_mbps := 54\<rparr>))
      else if phy_family \<noteq> 0 then do {
        (rc, inferred) \<leftarrow> lltd_wifi_infer_params phy_family width (wm_link_mbps m) 15;
        Some (if rc = 0
          then set_flag True VALID_MAX (set_flag True VALID_INFER
            (m\<lparr>wm_nss_inferred := wr_nss inferred, wm_mcs_inferred := wr_mcs inferred,
               wm_gi_ns_inferred := wr_gi_ns inferred,
               wm_max_link_mbps := lltd_wifi_calc_max_rate phy_family width (wr_nss inferred)\<rparr>))
          else set_flag True (VALID_MAX OR APPROX_MAX)
            (m\<lparr>wm_nss_inferred := 1,
               wm_max_link_mbps := lltd_wifi_calc_max_rate phy_family width 1\<rparr>))
      }
      else Some (set_flag True (VALID_MAX OR APPROX_MAX) (m\<lparr>wm_max_link_mbps := wm_link_mbps m\<rparr>)))"

definition lltd_darwin_wifi_get_metrics ::
    "bool \<Rightarrow> (string \<Rightarrow> int option) \<Rightarrow> (int \<times> lltd_wifi_metrics_t) option" where
  "lltd_darwin_wifi_get_metrics associated props =
     (if \<not> associated then Some (-3, no_metrics)
      else
        let (v, found) = getIntProperty props ''IO80211RSSI'';
            m = set_flag found VALID_RSSI (no_metrics\<lparr>wm_rssi_dbm := v\<rparr>);
            (v, found) = getIntProperty props ''IO80211Noise'';
            m = set_flag found VALID_NOISE (m\<lparr>wm_noise_dbm := v\<rparr>);
            (v, found) = getIntProperty props ''IO80211PHYMode'';
            m = (if found then let m = m\<lparr>wm_phy_mode := mapPhyMode v\<rparr>
                   in set_flag (wm_phy_mode m \<noteq> 0) VALID_PHY m else m);
            (v, found) = getIntProperty props ''IO80211ChannelWidth'';
            m = set_flag (found \<and> 0 < v) VALID_WIDTH (m\<lparr>wm_chan_width_mhz := v\<rparr>);
            (v, found) = getIntProperty props ''IO80211LinkSpeed'';
            (v, found) = (if \<not> found then getIntProperty props ''IO80211TxRate'' else (v, found));
            m = m\<lparr>wm_link_mbps := v\<rparr>
        in if found \<and> 0 < v
           then map_option (\<lambda>m. (0, m)) (wifi_max_metrics (set_flag True VALID_LINK m))
           else Some (-3, m))"

section \<open>Lemmas on the tables\<close>

text \<open>In each column the last row, at its best guard interval, is the largest.\<close>

lemma ht_top:
  "list_all (\<lambda>m. list_all (\<lambda>w. list_all (\<lambda>g.
     0 < ht_rates_x10 ! m ! w ! g \<and> ht_rates_x10 ! m ! w ! g \<le> ht_rates_x10 ! 7 ! w ! 1 \<and>
     ht_rates_x10 ! m ! w ! g \<le> 12010) [0, 1]) [0, 1]) [0..<8]"
  by code_simp

lemma vht_top:
  "list_all (\<lambda>m. list_all (\<lambda>w. list_all (\<lambda>g.
     0 \<le> vht_rates_1ss_x10 ! m ! w ! g \<and> vht_rates_1ss_x10 ! m ! w ! g \<le> 12010 \<and>
     (w = 0 \<or> vht_rates_1ss_x10 ! m ! w ! g \<le> vht_rates_1ss_x10 ! 9 ! w ! 1)) [0, 1])
       [0, 1, 2, 3]) [0..<10]"
  by code_simp

lemma he_top:
  "list_all (\<lambda>m. list_all (\<lambda>w. list_all (\<lambda>g.
     0 < he_rates_1ss_x10 ! m ! w ! g \<and> he_rates_1ss_x10 ! m ! w ! g \<le> he_rates_1ss_x10 ! 11 ! w ! 0 \<and>
     he_rates_1ss_x10 ! m ! w ! g \<le> 12010) [0, 1, 2]) [0, 1, 2, 3]) [0..<12]"
  by code_simp

lemma width_index_cases:
  "width_to_index w 1 \<in> {-1, 0, 1}" "width_to_index w 3 \<in> {-1, 0, 1, 2, 3}"
  "width_to_index w 3 = 0 \<longleftrightarrow> w = 20"
  by (simp_all add: width_to_index_def)

lemma gi_index_cases: "gi_to_ht_vht_index g \<in> {-1, 0, 1}" "gi_to_he_index g \<in> {-1, 0, 1, 2}"
  by (simp_all add: gi_to_ht_vht_index_def gi_to_he_index_def)

lemma table_all:
  "list_all (\<lambda>m. list_all (\<lambda>w. list_all (\<lambda>g. Q m w g) gs) ws) ms \<Longrightarrow>
     m \<in> set ms \<Longrightarrow> w \<in> set ws \<Longrightarrow> g \<in> set gs \<Longrightarrow> Q m w g"
  by (simp add: list_all_iff)

lemma index_in:
  "0 \<le> m \<Longrightarrow> m < int k \<Longrightarrow> nat m \<in> set [0..<k]"
  "0 \<le> w \<Longrightarrow> w \<in> {-1, 0, 1} \<Longrightarrow> nat w \<in> set [0, 1]"
  "0 \<le> w \<Longrightarrow> w \<in> {-1, 0, 1, 2} \<Longrightarrow> nat w \<in> set [0, 1, 2]"
  "0 \<le> w \<Longrightarrow> w \<in> {-1, 0, 1, 2, 3} \<Longrightarrow> nat w \<in> set [0, 1, 2, 3]"
  by (auto simp: nat_less_iff)

lemma ht_entry:
  assumes "0 \<le> mcs" "mcs \<le> 7" "0 \<le> wi" "wi \<in> {-1, 0, 1}" "0 \<le> gi" "gi \<in> {-1, 0, 1}"
  shows "0 < rate_at ht_rates_x10 mcs wi gi" "rate_at ht_rates_x10 mcs wi gi \<le> 12010"
    "rate_at ht_rates_x10 mcs wi gi \<le> rate_at ht_rates_x10 7 wi 1"
proof -
  have "mcs < int 8" using assms(2) by simp
  from table_all [OF ht_top index_in(1) [OF assms(1) this] index_in(2) [OF assms(3,4)]
      index_in(2) [OF assms(5,6)]]
  show "0 < rate_at ht_rates_x10 mcs wi gi" "rate_at ht_rates_x10 mcs wi gi \<le> 12010"
    "rate_at ht_rates_x10 mcs wi gi \<le> rate_at ht_rates_x10 7 wi 1"
    unfolding rate_at_def by (simp_all only: nat_numeral nat_one_as_int [symmetric] One_nat_def nat_1)
qed

lemma vht_entry:
  assumes "0 \<le> mcs" "mcs \<le> 9" "0 \<le> wi" "wi \<in> {-1, 0, 1, 2, 3}" "0 \<le> gi" "gi \<in> {-1, 0, 1}"
  shows "0 \<le> rate_at vht_rates_1ss_x10 mcs wi gi" "rate_at vht_rates_1ss_x10 mcs wi gi \<le> 12010"
    "wi \<noteq> 0 \<Longrightarrow> rate_at vht_rates_1ss_x10 mcs wi gi \<le> rate_at vht_rates_1ss_x10 9 wi 1"
proof -
  have "mcs < int 10" using assms(2) by simp
  note all = table_all [OF vht_top index_in(1) [OF assms(1) this] index_in(4) [OF assms(3,4)]
      index_in(2) [OF assms(5,6)]]
  then show "0 \<le> rate_at vht_rates_1ss_x10 mcs wi gi" "rate_at vht_rates_1ss_x10 mcs wi gi \<le> 12010"
    unfolding rate_at_def by blast+
  show "rate_at vht_rates_1ss_x10 mcs wi gi \<le> rate_at vht_rates_1ss_x10 9 wi 1" if "wi \<noteq> 0"
  proof -
    have "nat wi \<noteq> 0" using that assms(3) by simp
    with all show ?thesis
      unfolding rate_at_def by (simp only: nat_numeral One_nat_def nat_1 simp_thms)
  qed
qed

lemma he_entry:
  assumes "0 \<le> mcs" "mcs \<le> 11" "0 \<le> wi" "wi \<in> {-1, 0, 1, 2, 3}" "0 \<le> gi" "gi \<in> {-1, 0, 1, 2}"
  shows "0 < rate_at he_rates_1ss_x10 mcs wi gi" "rate_at he_rates_1ss_x10 mcs wi gi \<le> 12010"
    "rate_at he_rates_1ss_x10 mcs wi gi \<le> rate_at he_rates_1ss_x10 11 wi 0"
proof -
  have "mcs < int 12" using assms(2) by simp
  from table_all [OF he_top index_in(1) [OF assms(1) this] index_in(4) [OF assms(3,4)]
      index_in(3) [OF assms(5,6)]]
  show "0 < rate_at he_rates_1ss_x10 mcs wi gi" "rate_at he_rates_1ss_x10 mcs wi gi \<le> 12010"
    "rate_at he_rates_1ss_x10 mcs wi gi \<le> rate_at he_rates_1ss_x10 11 wi 0"
    unfolding rate_at_def by (simp_all only: nat_numeral nat_0)
qed

text \<open>Every rate is 0, that of a legacy family, or a rounded multiple of a table entry.\<close>

definition rate_multiple :: "int \<Rightarrow> int \<Rightarrow> int \<Rightarrow> bool" where
  "rate_multiple x n r \<longleftrightarrow> 1 \<le> n \<and> n \<le> 8 \<and> 0 \<le> x \<and> x \<le> 12010 \<and> r = (x * n + 5) div 10"

lemma calc_rate_multiple:
  "lltd_wifi_calc_rate fam w n m g \<in> {0, 11, 54} \<or> (\<exists>x. rate_multiple x n (lltd_wifi_calc_rate fam w n m g))"
proof (cases "lltd_wifi_calc_rate fam w n m g \<in> {0, 11, 54}")
  case False
  then have n: "1 \<le> n" "n \<le> 8" by (auto simp: lltd_wifi_calc_rate_def split: if_splits)
  consider "fam = 3" | "fam = 4" | "fam = 5"
    using False n by (auto simp: lltd_wifi_calc_rate_def split: if_splits)
  then show ?thesis
  proof cases
    case 1
    with False n have i: "0 \<le> m" "m \<le> 7" "0 \<le> width_to_index w 1" "0 \<le> gi_to_ht_vht_index g"
      "lltd_wifi_calc_rate fam w n m g =
        (rate_at ht_rates_x10 m (width_to_index w 1) (gi_to_ht_vht_index g) * n + 5) div 10"
      by (auto simp: lltd_wifi_calc_rate_def Let_def split: if_splits)
    then show ?thesis using ht_entry(1,2) [OF i(1-3) width_index_cases(1) i(4) gi_index_cases(1)] n
      by (intro disjI2 exI [of _ "rate_at ht_rates_x10 m (width_to_index w 1) (gi_to_ht_vht_index g)"]) (simp add: rate_multiple_def)
  next
    case 2
    with False n have i: "0 \<le> m" "m \<le> 9" "0 \<le> width_to_index w 3" "0 \<le> gi_to_ht_vht_index g"
      "lltd_wifi_calc_rate fam w n m g =
        (rate_at vht_rates_1ss_x10 m (width_to_index w 3) (gi_to_ht_vht_index g) * n + 5) div 10"
      by (auto simp: lltd_wifi_calc_rate_def Let_def split: if_splits)
    then show ?thesis using vht_entry(1,2) [OF i(1-3) width_index_cases(2) i(4) gi_index_cases(1)] n
      by (intro disjI2 exI [of _ "rate_at vht_rates_1ss_x10 m (width_to_index w 3) (gi_to_ht_vht_index g)"]) (simp add: rate_multiple_def)
  next
    case 3
    with False n have i: "0 \<le> m" "m \<le> 11" "0 \<le> width_to_index w 3" "0 \<le> gi_to_he_index g"
      "lltd_wifi_calc_rate fam w n m g =
        (rate_at he_rates_1ss_x10 m (width_to_index w 3) (gi_to_he_index g) * n + 5) div 10"
      by (auto simp: lltd_wifi_calc_rate_def Let_def split: if_splits)
    then show ?thesis using he_entry(1,2) [OF i(1-3) width_index_cases(2) i(4) gi_index_cases(2)] n
      by (intro disjI2 exI [of _ "rate_at he_rates_1ss_x10 m (width_to_index w 3) (gi_to_he_index g)"]) (simp add: rate_multiple_def)
  qed
qed blast

lemma rate_multiple_range:
  assumes "rate_multiple x n r"
  shows "0 \<le> r" "r \<le> 9608"
proof -
  have x: "0 \<le> x" "x \<le> 12010" "1 \<le> n" "n \<le> 8" "r = (x * n + 5) div 10"
    using assms by (simp_all add: rate_multiple_def)
  have "0 \<le> x * n" using x by simp
  then show "0 \<le> r" using x(5) by simp
  have "x * n \<le> 12010 * 8" using x by (intro mult_mono) auto
  then show "r \<le> 9608" using x(5) by simp
qed

lemma calc_rate_range: "0 \<le> lltd_wifi_calc_rate fam w n m g" "lltd_wifi_calc_rate fam w n m g \<le> 9608"
  using calc_rate_multiple [of fam w n m g] by (auto dest: rate_multiple_range)

lemma scaled_mono: "x \<le> y \<Longrightarrow> 1 \<le> n \<Longrightarrow> (x * n + 5) div 10 \<le> (y * n + 5) div (10 :: int)"
  by (intro zdiv_mono1 add_right_mono mult_right_mono) auto

section \<open>What the search finds\<close>

text \<open>A valid combination of a family: its rate is not 0.\<close>

definition rate_gap :: "int \<Rightarrow> int \<Rightarrow> int \<Rightarrow> int \<times> int \<times> int \<Rightarrow> int" where
  "rate_gap fam w observed = (\<lambda>(n, m, g). \<bar>observed - lltd_wifi_calc_rate fam w n m g\<bar>)"

definition usable_combination :: "int \<Rightarrow> int \<Rightarrow> int \<times> int \<times> int \<Rightarrow> bool" where
  "usable_combination fam w = (\<lambda>(n, m, g). lltd_wifi_calc_rate fam w n m g \<noteq> 0)"

definition params_of :: "int \<Rightarrow> int \<Rightarrow> int \<times> int \<times> int \<Rightarrow> wifi_rate_params_t" where
  "params_of fam w = (\<lambda>(n, m, g). \<lparr>wr_nss = n, wr_mcs = m, wr_gi_ns = g,
     wr_rate_mbps = lltd_wifi_calc_rate fam w n m g\<rparr>)"

lemma infer_loop_finds:
  assumes "0 \<le> observed" "observed < 2 ^ 31"
  shows "\<exists>d p. infer_loop fam w observed cs best = Some (d, p) \<and> d \<le> fst best \<and>
    (\<forall>c \<in> set cs. usable_combination fam w c \<longrightarrow> d \<le> rate_gap fam w observed c) \<and>
    ((d, p) = best \<or> (\<exists>c \<in> set cs. usable_combination fam w c \<and> d = rate_gap fam w observed c \<and>
       p = params_of fam w c))"
proof (induction cs arbitrary: best)
  case (Cons c cs)
  obtain n m g where c: "c = (n, m, g)" by (cases c) auto
  let ?rate = "lltd_wifi_calc_rate fam w n m g"
  show ?case
  proof (cases "?rate = 0")
    case True
    with Cons.IH [of best] show ?thesis by (fastforce simp: c usable_combination_def)
  next
    case False
    define best' where "best' = (if rate_gap fam w observed c < fst best
      then (rate_gap fam w observed c, params_of fam w c) else best)"
    have "0 \<le> ?rate" "?rate \<le> 9608" by (rule calc_rate_range)+
    then have "infer_loop fam w observed (c # cs) best = infer_loop fam w observed cs best'"
      using False assms
      by (auto simp: c c_int_def best'_def rate_gap_def params_of_def abs_if Let_def)
    moreover obtain d p where IH: "infer_loop fam w observed cs best' = Some (d, p)" "d \<le> fst best'"
      "\<forall>c \<in> set cs. usable_combination fam w c \<longrightarrow> d \<le> rate_gap fam w observed c"
      "(d, p) = best' \<or> (\<exists>c \<in> set cs. usable_combination fam w c \<and> d = rate_gap fam w observed c \<and>
       p = params_of fam w c)"
      using Cons.IH [of best'] by blast
    moreover have "fst best' \<le> fst best" "fst best' \<le> rate_gap fam w observed c"
      by (simp_all add: best'_def)
    moreover have "usable_combination fam w c" using False by (simp add: c usable_combination_def)
    ultimately show ?thesis
      by (intro exI [of _ d] exI [of _ p]) (auto simp: best'_def split: if_splits)
  qed
next
  case Nil
  then show ?case by (cases best) simp
qed

lemma infer_params_finds:
  assumes opts: "infer_options fam = Some (max_mcs, gis)"
    and "0 \<le> observed" "observed < 2 ^ 31" "0 \<le> tol" "tol < 2 ^ 31 - 1"
  obtains (found) c where "c \<in> set (infer_combinations max_mcs gis)" "usable_combination fam w c"
      "rate_gap fam w observed c \<le> tol"
      "lltd_wifi_infer_params fam w observed tol = Some (0, params_of fam w c)"
      "\<forall>c' \<in> set (infer_combinations max_mcs gis). usable_combination fam w c' \<longrightarrow>
         rate_gap fam w observed c \<le> rate_gap fam w observed c'"
    | (none) "lltd_wifi_infer_params fam w observed tol = Some (-1, no_params)"
      "\<forall>c' \<in> set (infer_combinations max_mcs gis). usable_combination fam w c' \<longrightarrow>
         tol < rate_gap fam w observed c'"
proof -
  have tol: "c_int (tol + 1) = Some (tol + 1)" using assms by (simp add: c_int_def)
  obtain d p where dp: "infer_loop fam w observed (infer_combinations max_mcs gis) (tol + 1, no_params) =
      Some (d, p)" "d \<le> tol + 1"
    "\<forall>c \<in> set (infer_combinations max_mcs gis). usable_combination fam w c \<longrightarrow>
       d \<le> rate_gap fam w observed c"
    "(d, p) = (tol + 1, no_params) \<or> (\<exists>c \<in> set (infer_combinations max_mcs gis).
       usable_combination fam w c \<and> d = rate_gap fam w observed c \<and> p = params_of fam w c)"
    using infer_loop_finds [OF assms(2,3), of fam w "infer_combinations max_mcs gis" "(tol + 1, no_params)"]
    by auto
  have run: "lltd_wifi_infer_params fam w observed tol =
      Some (if d \<le> tol then (0, p) else (-1, no_params))"
    using opts tol dp(1) by (simp add: lltd_wifi_infer_params_def)
  show ?thesis
  proof (cases "d \<le> tol")
    case True
    then obtain c where "c \<in> set (infer_combinations max_mcs gis)" "usable_combination fam w c"
      "d = rate_gap fam w observed c" "p = params_of fam w c" using dp(4) by auto
    with True run dp(3) show ?thesis by (intro found [of c]) auto
  next
    case False
    with run dp(3) show ?thesis by (intro none) force+
  qed
qed

lemma infer_combinations_iff:
  "(n, m, g) \<in> set (infer_combinations max_mcs gis) \<longleftrightarrow>
     1 \<le> n \<and> n \<le> 8 \<and> 0 \<le> m \<and> m \<le> max_mcs \<and> g \<in> set gis"
  by (auto simp: infer_combinations_def image_iff)

end
