(* ===== verification/LltdWifiProps.thy ===== *)
theory LltdWifiProps
  imports LltdWifi
begin

unbundle bit_operations_syntax

text \<open>
  The properties of the WiFi rate code: the computed maximum is one except for 802.11ac at
  20 MHz, and the search for rate parameters returns well-formed parameters of the nearest
  rate.
\<close>

section \<open>The largest rate\<close>

lemma ht_max: "lltd_wifi_calc_rate 3 w n m g \<le> lltd_wifi_calc_rate 3 w n 7 400"
proof (cases "lltd_wifi_calc_rate 3 w n m g = 0")
  case True
  then show ?thesis using calc_rate_range(1) by simp
next
  case False
  then have i: "1 \<le> n" "n \<le> 8" "0 \<le> m" "m \<le> 7" "0 \<le> width_to_index w 1" "0 \<le> gi_to_ht_vht_index g"
    by (auto simp: lltd_wifi_calc_rate_def Let_def split: if_splits)
  then show ?thesis
    using scaled_mono [OF ht_entry(3) [OF i(3-5) width_index_cases(1) i(6) gi_index_cases(1)] i(1)]
    by (simp add: lltd_wifi_calc_rate_def Let_def gi_to_ht_vht_index_def)
qed

lemma vht_max:
  assumes "w \<noteq> 20"
  shows "lltd_wifi_calc_rate 4 w n m g \<le> lltd_wifi_calc_rate 4 w n 9 400"
proof (cases "lltd_wifi_calc_rate 4 w n m g = 0")
  case True
  then show ?thesis using calc_rate_range(1) by simp
next
  case False
  then have i: "1 \<le> n" "n \<le> 8" "0 \<le> m" "m \<le> 9" "0 \<le> width_to_index w 3" "0 \<le> gi_to_ht_vht_index g"
    "rate_at vht_rates_1ss_x10 m (width_to_index w 3) (gi_to_ht_vht_index g) \<noteq> 0"
    by (auto simp: lltd_wifi_calc_rate_def Let_def split: if_splits)
  have wi: "width_to_index w 3 \<noteq> 0" using assms by (simp add: width_index_cases(3))
  note e = vht_entry [OF i(3-5) width_index_cases(2) i(6) gi_index_cases(1)]
  have "rate_at vht_rates_1ss_x10 9 (width_to_index w 3) 1 \<noteq> 0" using e(1) e(3) [OF wi] i(7) by linarith
  then show ?thesis
    using i scaled_mono [OF e(3) [OF wi] i(1)]
    by (simp add: lltd_wifi_calc_rate_def Let_def gi_to_ht_vht_index_def)
qed

lemma he_max: "lltd_wifi_calc_rate 5 w n m g \<le> lltd_wifi_calc_rate 5 w n 11 800"
proof (cases "lltd_wifi_calc_rate 5 w n m g = 0")
  case True
  then show ?thesis using calc_rate_range(1) by simp
next
  case False
  then have i: "1 \<le> n" "n \<le> 8" "0 \<le> m" "m \<le> 11" "0 \<le> width_to_index w 3" "0 \<le> gi_to_he_index g"
    by (auto simp: lltd_wifi_calc_rate_def Let_def split: if_splits)
  then show ?thesis
    using scaled_mono [OF he_entry(3) [OF i(3-5) width_index_cases(2) i(6) gi_index_cases(2)] i(1)]
    by (simp add: lltd_wifi_calc_rate_def Let_def gi_to_he_index_def)
qed

lemma vht20_entry: "vht_rates_1ss_x10 ! 9 ! 0 ! 1 = 0"
  by code_simp

text \<open>
  The computed maximum is at least every rate of the family, the width and the number
  of streams, for all of them but 802.11ac at 20 MHz: there the largest MCS is not valid, and
  the maximum comes out as 0.
\<close>

theorem max_rate_is_largest:
  "if fam = WIFI_PHY_VHT \<and> w = 20 then lltd_wifi_calc_max_rate fam w n = 0
   else lltd_wifi_calc_rate fam w n m g \<le> lltd_wifi_calc_max_rate fam w n"
proof (cases "fam = WIFI_PHY_VHT \<and> w = 20")
  case True
  then show ?thesis
    by (simp add: lltd_wifi_calc_max_rate_def lltd_wifi_calc_rate_def rate_at_def width_to_index_def
        gi_to_ht_vht_index_def vht20_entry [simplified] Let_def)
next
  case False
  consider "fam = 3" | "fam = 4" | "fam = 5" | "fam \<notin> {3, 4, 5}" by blast
  then show ?thesis
  proof cases
    case 4
    then show ?thesis by (simp add: lltd_wifi_calc_max_rate_def lltd_wifi_calc_rate_def)
  qed (use False ht_max vht_max he_max in \<open>simp_all add: lltd_wifi_calc_max_rate_def\<close>)
qed

text \<open>The metrics of an 802.11ac interface at 20 MHz claim 0 Mbps as a valid maximum.\<close>

definition vht20_props :: "string \<Rightarrow> int option" where
  "vht20_props = (\<lambda>_. None)(''IO80211PHYMode'' := Some 5, ''IO80211ChannelWidth'' := Some 20,
     ''IO80211LinkSpeed'' := Some 87)"

lemma wifi_metrics_vht20:
  "map_option (\<lambda>(rc, m). (rc, wm_link_mbps m, wm_max_link_mbps m, wm_flags m AND VALID_MAX))
     (lltd_darwin_wifi_get_metrics True vht20_props) = Some (0, 87, 0, VALID_MAX)"
  by code_simp

section \<open>The search\<close>

text \<open>
  C29.  Whatever the observed rate, as long as it is not negative, the parameters the search returns are either all zero,
  with an error, or well-formed: 1 to 8 streams, an MCS and a guard interval of the family,
  and a rate that is the one of exactly these parameters, not 0 and within the tolerance.
\<close>

theorem infer_params_typed:
  assumes "infer_options fam = Some (max_mcs, gis)"
    and "0 \<le> observed" "observed < 2 ^ 31" "0 \<le> tol" "tol < 2 ^ 31 - 1"
  shows "\<exists>rc p. lltd_wifi_infer_params fam w observed tol = Some (rc, p) \<and>
    (if rc = 0 then 1 \<le> wr_nss p \<and> wr_nss p \<le> 8 \<and> 0 \<le> wr_mcs p \<and> wr_mcs p \<le> max_mcs \<and>
       wr_gi_ns p \<in> set gis \<and> wr_rate_mbps p \<noteq> 0 \<and> \<bar>observed - wr_rate_mbps p\<bar> \<le> tol \<and>
       wr_rate_mbps p = lltd_wifi_calc_rate fam w (wr_nss p) (wr_mcs p) (wr_gi_ns p)
     else rc = -1 \<and> p = no_params)"
proof (rule infer_params_finds [OF assms, where w = w])
  fix c assume "c \<in> set (infer_combinations max_mcs gis)" "usable_combination fam w c"
    "rate_gap fam w observed c \<le> tol"
    "lltd_wifi_infer_params fam w observed tol = Some (0, params_of fam w c)"
  moreover obtain n m g where "c = (n, m, g)" by (cases c) auto
  ultimately show ?thesis
    by (simp add: infer_combinations_iff usable_combination_def rate_gap_def params_of_def)
next
  assume "lltd_wifi_infer_params fam w observed tol = Some (-1, no_params)"
  then show ?thesis by simp
qed

theorem infer_params_typed_witness:
  "\<exists>rc p. lltd_wifi_infer_params 3 40 300 15 = Some (rc, p) \<and>
    (if rc = 0 then 1 \<le> wr_nss p \<and> wr_nss p \<le> 8 \<and> 0 \<le> wr_mcs p \<and> wr_mcs p \<le> 7 \<and>
       wr_gi_ns p \<in> set [800, 400] \<and> wr_rate_mbps p \<noteq> 0 \<and> \<bar>300 - wr_rate_mbps p\<bar> \<le> 15 \<and>
       wr_rate_mbps p = lltd_wifi_calc_rate 3 40 (wr_nss p) (wr_mcs p) (wr_gi_ns p)
     else rc = -1 \<and> p = no_params)"
  by (rule infer_params_typed) (simp_all add: infer_options_def)

text \<open>The combinations a mapper could mean: 1 to 8 streams, an MCS, a guard interval, a rate.\<close>

definition valid_params :: "int \<Rightarrow> int \<Rightarrow> int \<Rightarrow> int list \<Rightarrow> int \<times> int \<times> int \<Rightarrow> bool" where
  "valid_params fam w max_mcs gis = (\<lambda>(n, m, g). 1 \<le> n \<and> n \<le> 8 \<and> 0 \<le> m \<and> m \<le> max_mcs \<and>
     g \<in> set gis \<and> lltd_wifi_calc_rate fam w n m g \<noteq> 0)"

lemma valid_params_iff:
  "valid_params fam w max_mcs gis c \<longleftrightarrow>
     c \<in> set (infer_combinations max_mcs gis) \<and> usable_combination fam w c"
  by (cases c) (auto simp: valid_params_def infer_combinations_iff usable_combination_def)

text \<open>
  C30.  The search is exhaustive.  For an observed rate that is not negative it succeeds
  exactly when some valid combination of streams, MCS and guard interval has a rate within
  the tolerance of the observed one; then the rate it returns is within the tolerance, is
  the rate of a valid combination, and no valid combination comes nearer.  Otherwise it
  fails and all returned parameters are zero.
\<close>

theorem infer_params_nearest:
  assumes "infer_options fam = Some (max_mcs, gis)"
    and "0 \<le> observed" "observed < 2 ^ 31" "0 \<le> tol" "tol < 2 ^ 31 - 1"
  shows "\<exists>rc p. lltd_wifi_infer_params fam w observed tol = Some (rc, p) \<and>
    (rc = 0 \<longleftrightarrow> (\<exists>n m g. valid_params fam w max_mcs gis (n, m, g) \<and>
       \<bar>observed - lltd_wifi_calc_rate fam w n m g\<bar> \<le> tol)) \<and>
    (if rc = 0 then valid_params fam w max_mcs gis (wr_nss p, wr_mcs p, wr_gi_ns p) \<and>
       wr_rate_mbps p = lltd_wifi_calc_rate fam w (wr_nss p) (wr_mcs p) (wr_gi_ns p) \<and>
       \<bar>observed - wr_rate_mbps p\<bar> \<le> tol \<and>
       (\<forall>n m g. valid_params fam w max_mcs gis (n, m, g) \<longrightarrow>
          \<bar>observed - wr_rate_mbps p\<bar> \<le> \<bar>observed - lltd_wifi_calc_rate fam w n m g\<bar>)
     else rc = -1 \<and> p = no_params)"
proof (rule infer_params_finds [OF assms, where w = w])
  fix c assume c: "c \<in> set (infer_combinations max_mcs gis)" "usable_combination fam w c"
    "rate_gap fam w observed c \<le> tol"
    "lltd_wifi_infer_params fam w observed tol = Some (0, params_of fam w c)"
    "\<forall>c' \<in> set (infer_combinations max_mcs gis). usable_combination fam w c' \<longrightarrow>
       rate_gap fam w observed c \<le> rate_gap fam w observed c'"
  obtain n m g where g: "c = (n, m, g)" by (cases c) auto
  have ok: "valid_params fam w max_mcs gis (n, m, g)" using c(1,2) g by (simp add: valid_params_iff)
  moreover have "\<bar>observed - lltd_wifi_calc_rate fam w n m g\<bar> \<le> tol"
    using c(3) by (simp add: g rate_gap_def)
  moreover have "\<bar>observed - lltd_wifi_calc_rate fam w n m g\<bar> \<le>
      \<bar>observed - lltd_wifi_calc_rate fam w n' m' g'\<bar>"
    if "valid_params fam w max_mcs gis (n', m', g')" for n' m' g'
    using c(5) that by (auto simp: g rate_gap_def valid_params_iff)
  ultimately show ?thesis using c(4) by (auto simp: g params_of_def)
next
  assume c: "lltd_wifi_infer_params fam w observed tol = Some (-1, no_params)"
    "\<forall>c' \<in> set (infer_combinations max_mcs gis). usable_combination fam w c' \<longrightarrow>
       tol < rate_gap fam w observed c'"
  have "tol < \<bar>observed - lltd_wifi_calc_rate fam w n m g\<bar>"
    if "valid_params fam w max_mcs gis (n, m, g)" for n m g
    using c(2) that by (auto simp: rate_gap_def valid_params_iff)
  with c(1) show ?thesis by (auto simp: not_le [symmetric])
qed

theorem infer_params_nearest_witness:
  "\<exists>rc p. lltd_wifi_infer_params 3 40 300 15 = Some (rc, p) \<and>
    (rc = 0 \<longleftrightarrow> (\<exists>n m g. valid_params 3 40 7 [800, 400] (n, m, g) \<and>
       \<bar>300 - lltd_wifi_calc_rate 3 40 n m g\<bar> \<le> 15)) \<and>
    (if rc = 0 then valid_params 3 40 7 [800, 400] (wr_nss p, wr_mcs p, wr_gi_ns p) \<and>
       wr_rate_mbps p = lltd_wifi_calc_rate 3 40 (wr_nss p) (wr_mcs p) (wr_gi_ns p) \<and>
       \<bar>300 - wr_rate_mbps p\<bar> \<le> 15 \<and>
       (\<forall>n m g. valid_params 3 40 7 [800, 400] (n, m, g) \<longrightarrow>
          \<bar>300 - wr_rate_mbps p\<bar> \<le> \<bar>300 - lltd_wifi_calc_rate 3 40 n m g\<bar>)
     else rc = -1 \<and> p = no_params)"
  by (rule infer_params_nearest) (simp_all add: infer_options_def)

end
