(* ===== verification/LltdIcon.thy ===== *)
theory LltdIcon
  imports LltdEndian
begin

text \<open>
  The icon of os/darwin/daemon/darwin-ops.c: which image of the icon file is taken
  (\<open>selectIconIndex\<close>), and the Microsoft ICO file built from its PNG renderings
  (\<open>buildIcoFromPngs\<close>), as \<open>getIconImage\<close> and \<open>getDetailedIconImage\<close> hand it to the protocol
  core.  CoreGraphics, the type database and \<open>malloc\<close> are parameters; the contents of a
  fresh block are arbitrary bytes.
\<close>

section \<open>msIcoFormat.h\<close>

abbreviation (input) icoDirTypeIcon :: u16 where "icoDirTypeIcon \<equiv> 1"

abbreviation (input) sizeof_iconDirEntry :: nat where "sizeof_iconDirEntry \<equiv> 16"
abbreviation (input) sizeof_iconDir :: nat where "sizeof_iconDir \<equiv> 22"
abbreviation (input) offset_idEntries :: nat where "offset_idEntries \<equiv> 6"

definition CFSwapInt16HostToLittle :: "bool \<Rightarrow> u16 \<Rightarrow> u16" where
  "CFSwapInt16HostToLittle le v = (if le then v else lltd_bswap16 v)"

definition CFSwapInt32HostToLittle :: "bool \<Rightarrow> u32 \<Rightarrow> u32" where
  "CFSwapInt32HostToLittle le v = (if le then v else lltd_bswap32 v)"

section \<open>Operations\<close>

text \<open>
  The loop of \<open>selectIconIndex\<close>: \<open>sel\<close> is the selected index, its width, and whether an image
  of at least the target size was found.  An image without properties is \<open>None\<close>.
\<close>

fun select_loop ::
    "u32 \<Rightarrow> (u32 \<times> u32) option list \<Rightarrow> nat \<Rightarrow> nat \<times> u32 \<times> bool \<Rightarrow> nat \<times> u32 \<times> bool" where
  "select_loop target [] i sel = sel"
| "select_loop target (None # imgs) i sel = select_loop target imgs (i + 1) sel"
| "select_loop target (Some (iconWidth, iconHeight) # imgs) i (index, width, found) =
     select_loop target imgs (i + 1)
       (if target \<le> iconWidth \<and> target \<le> iconHeight then
          (if \<not> found \<or> iconWidth < width then (i, iconWidth, True) else (index, width, found))
        else if \<not> found \<and> width < iconWidth then (i, iconWidth, found)
        else (index, width, found))"

definition selectIconIndex :: "(u32 \<times> u32) option list \<Rightarrow> u32 \<Rightarrow> nat" where
  "selectIconIndex imgs targetSize = fst (select_loop targetSize imgs 0 (0, 0, False))"

text \<open>The loop of \<open>buildIcoFromPngs\<close> over the entries \<open>i\<close>, \<open>i + 1\<close>, ..., \<open>i + k - 1\<close>.\<close>

fun ico_loop ::
    "bool \<Rightarrow> u8 list list \<Rightarrow> u32 list \<Rightarrow> nat \<Rightarrow> nat \<Rightarrow> nat \<Rightarrow> u8 list \<Rightarrow> u8 list option" where
  "ico_loop le pngs sizes 0 i off b = Some b"
| "ico_loop le pngs sizes (Suc k) i off b =
     (if i < length pngs \<and> i < length sizes then do {
        let pngData = pngs ! i;
        let dim = (if sizes ! i = 256 then 0 else ucast (sizes ! i) :: u8);
        let entry = offset_idEntries + sizeof_iconDirEntry * i;
        b \<leftarrow> store_u8 b entry dim;
        b \<leftarrow> store_u8 b (entry + 1) dim;
        b \<leftarrow> store_u8 b (entry + 2) 0;
        b \<leftarrow> store_u8 b (entry + 3) 0;
        b \<leftarrow> store_u16 le b (entry + 4) (CFSwapInt16HostToLittle le 1);
        b \<leftarrow> store_u16 le b (entry + 6) (CFSwapInt16HostToLittle le 32);
        b \<leftarrow> store_u32 le b (entry + 8) (CFSwapInt32HostToLittle le (of_nat (length pngData)));
        b \<leftarrow> store_u32 le b (entry + 12) (CFSwapInt32HostToLittle le (of_nat off));
        b \<leftarrow> store_bytes b off pngData;
        ico_loop le pngs sizes k (i + 1) (off + length pngData) b
      } else None)"

text \<open>
  The result is the block of the icon, or none when \<open>malloc\<close> failed and the function returned
  false; \<open>pngs\<close> is read at the indices below \<open>count\<close>.
\<close>

definition buildIcoFromPngs ::
    "bool \<Rightarrow> (nat \<Rightarrow> u8 list option) \<Rightarrow> u8 list list \<Rightarrow> u32 list \<Rightarrow> nat \<Rightarrow> u8 list option option"
  where
  "buildIcoFromPngs le malloc pngs sizes count =
     (if length pngs < count then None
      else
        let headerSize = sizeof_iconDir + count * sizeof_iconDirEntry - sizeof_iconDirEntry;
            totalSize = headerSize + sum_list (map length (take count pngs)) in
        case malloc totalSize of
          None \<Rightarrow> Some None
        | Some icoBytes \<Rightarrow> do {
            b \<leftarrow> store_u16 le icoBytes 0 0;
            b \<leftarrow> store_u16 le b 2 (CFSwapInt16HostToLittle le icoDirTypeIcon);
            b \<leftarrow> store_u16 le b 4 (CFSwapInt16HostToLittle le (of_nat count));
            b \<leftarrow> ico_loop le pngs sizes count 0 headerSize b;
            Some (Some b)
          })"

text \<open>
  What the frameworks give.  A type declares the file of its icon and the types it conforms
  to, of which only the first is followed.
\<close>

record icon_env =
  ic_little_endian :: bool
  ic_malloc :: "nat \<Rightarrow> u8 list option"
  ic_model :: "string option"
  ic_preferred :: "string \<Rightarrow> string option"
  ic_declaration :: "string \<Rightarrow> (string option \<times> string list) option"
  ic_resource :: "string \<Rightarrow> string \<Rightarrow> string option"
  ic_source :: "string \<Rightarrow> (u32 \<times> u32) option list option"
  ic_thumbnail :: "string \<Rightarrow> nat \<Rightarrow> u32 \<Rightarrow> u8 list option"

partial_function (option) uti_walk :: "icon_env \<Rightarrow> string option \<Rightarrow> string option option" where
  "uti_walk os workingUTI =
     (case workingUTI of
        None \<Rightarrow> Some None
      | Some uti \<Rightarrow>
          (case ic_declaration os uti of
             None \<Rightarrow> Some None
           | Some (iconFileName, conformsTo) \<Rightarrow>
               (case iconFileName of
                  Some name \<Rightarrow> Some (ic_resource os uti name)
                | None \<Rightarrow> uti_walk os (case conformsTo of [] \<Rightarrow> None | nextUTI # _ \<Rightarrow> Some nextUTI))))"

definition copyDeviceIconURL :: "icon_env \<Rightarrow> string option option" where
  "copyDeviceIconURL os =
     (let uti = (case ic_model os of
            Some modelCode \<Rightarrow> if modelCode \<noteq> [] then ic_preferred os modelCode
                             else Some ''com.apple.mac''
          | None \<Rightarrow> Some ''com.apple.mac'')
      in case uti of
           None \<Rightarrow> Some None
         | Some uti \<Rightarrow>
             uti_walk os (Some (if take 3 uti = ''dyn'' then ''com.apple.mac'' else uti)))"

definition getIconImage :: "icon_env \<Rightarrow> u8 list option option" where
  "getIconImage os = do {
     iconURL \<leftarrow> copyDeviceIconURL os;
     case iconURL of
       None \<Rightarrow> Some None
     | Some url \<Rightarrow>
         (case ic_source os url of
            None \<Rightarrow> Some None
          | Some imgs \<Rightarrow>
              (case ic_thumbnail os url (selectIconIndex imgs 48) 48 of
                 None \<Rightarrow> Some None
               | Some pngData \<Rightarrow>
                   buildIcoFromPngs (ic_little_endian os) (ic_malloc os) [pngData] [48] 1))
   }"

abbreviation (input) detailed_sizes :: "u32 list" where
  "detailed_sizes \<equiv> [16, 24, 32, 48, 64, 128, 256]"

text \<open>The loop that collects the renderings: the ones so far and their sizes.\<close>

fun detailed_loop ::
    "icon_env \<Rightarrow> string \<Rightarrow> (u32 \<times> u32) option list \<Rightarrow> u32 list \<Rightarrow> u8 list list \<times> u32 list \<Rightarrow>
     u8 list list \<times> u32 list" where
  "detailed_loop os url imgs [] acc = acc"
| "detailed_loop os url imgs (sz # sizes) (pngs, usedSizes) =
     (case ic_thumbnail os url (selectIconIndex imgs sz) sz of
        None \<Rightarrow> detailed_loop os url imgs sizes (pngs, usedSizes)
      | Some pngData \<Rightarrow>
          detailed_loop os url imgs sizes (pngs @ [pngData], usedSizes @ [sz]))"

definition getDetailedIconImage :: "icon_env \<Rightarrow> u8 list option option" where
  "getDetailedIconImage os = do {
     iconURL \<leftarrow> copyDeviceIconURL os;
     case iconURL of
       None \<Rightarrow> Some None
     | Some url \<Rightarrow>
         (case ic_source os url of
            None \<Rightarrow> Some None
          | Some imgs \<Rightarrow>
              (let (pngs, usedSizes) = detailed_loop os url imgs detailed_sizes ([], [])
               in if usedSizes \<noteq> []
                  then buildIcoFromPngs (ic_little_endian os) (ic_malloc os) pngs usedSizes
                    (length usedSizes)
                  else Some None))
   }"

section \<open>Reading an ICO file\<close>

text \<open>A reader of the format, little endian whatever the host is.\<close>

definition ico_u16 :: "u8 list \<Rightarrow> nat \<Rightarrow> u16 option" where
  "ico_u16 b off = map_option (\<lambda>bs. u16_of_be (rev bs)) (load_bytes b off 2)"

definition ico_u32 :: "u8 list \<Rightarrow> nat \<Rightarrow> u32 option" where
  "ico_u32 b off = map_option (\<lambda>bs. u32_of_be (rev bs)) (load_bytes b off 4)"

definition ico_entry_width :: "u8 list \<Rightarrow> nat \<Rightarrow> nat option" where
  "ico_entry_width b i = map_option (\<lambda>v. if v = 0 then 256 else unat v) (load_u8 b (6 + 16 * i))"

definition ico_image :: "u8 list \<Rightarrow> nat \<Rightarrow> u8 list option" where
  "ico_image b i = do {
     n \<leftarrow> ico_u32 b (6 + 16 * i + 8);
     off \<leftarrow> ico_u32 b (6 + 16 * i + 12);
     load_bytes b (unat off) (unat n)
   }"

section \<open>The image that is selected\<close>

definition image_fits :: "u32 \<Rightarrow> (u32 \<times> u32) option \<Rightarrow> bool" where
  "image_fits target img \<longleftrightarrow> (\<exists>iw ih. img = Some (iw, ih) \<and> target \<le> iw \<and> target \<le> ih)"

definition image_width :: "(u32 \<times> u32) option \<Rightarrow> u32" where
  "image_width img = (case img of None \<Rightarrow> 0 | Some (iw, _) \<Rightarrow> iw)"

text \<open>What the loop has established about the images it has seen.\<close>

definition selected :: "u32 \<Rightarrow> (u32 \<times> u32) option list \<Rightarrow> nat \<times> u32 \<times> bool \<Rightarrow> bool" where
  "selected target seen = (\<lambda>(index, width, found).
     found = (\<exists>img \<in> set seen. image_fits target img) \<and>
     (index < length seen \<and> width = image_width (seen ! index) \<and> (found \<longrightarrow> image_fits target (seen ! index)) \<or>
      index = 0 \<and> width = 0 \<and> \<not> found) \<and>
     (if found then \<forall>img \<in> set seen. image_fits target img \<longrightarrow> width \<le> image_width img
      else \<forall>img \<in> set seen. image_width img \<le> width))"

lemma selected_keep:
  assumes "selected target seen (index, width, found)" "\<not> image_fits target img"
    "\<not> found \<Longrightarrow> image_width img \<le> width"
  shows "selected target (seen @ [img]) (index, width, found)"
  using assms by (auto simp: selected_def nth_append)

lemma select_loop_selected:
  "selected target seen sel \<Longrightarrow>
   selected target (seen @ imgs) (select_loop target imgs (length seen) sel)"
proof (induction target imgs "length seen" sel arbitrary: seen rule: select_loop.induct)
  case (2 target imgs sel)
  obtain index width found where sel: "sel = (index, width, found)" by (cases sel)
  have "selected target (seen @ [None]) sel"
    using 2(2) by (simp add: sel selected_keep image_fits_def image_width_def)
  from 2(1) [OF _ this] show ?case by simp
next
  case (3 target iw ih imgs index width found)
  let ?img = "Some (iw, ih)"
  let ?sel = "if target \<le> iw \<and> target \<le> ih then
      (if \<not> found \<or> iw < width then (length seen, iw, True) else (index, width, found))
    else if \<not> found \<and> width < iw then (length seen, iw, found) else (index, width, found)"
  have fits: "image_fits target ?img \<longleftrightarrow> target \<le> iw \<and> target \<le> ih" by (simp add: image_fits_def)
  have w: "image_width ?img = iw" by (simp add: image_width_def)
  have "selected target (seen @ [?img]) ?sel"
  proof (cases "target \<le> iw \<and> target \<le> ih")
    case True
    show ?thesis
    proof (cases "\<not> found \<or> iw < width")
      case True
      with 3(2) \<open>target \<le> iw \<and> target \<le> ih\<close> show ?thesis
        by (auto simp: selected_def fits w nth_append split: if_splits)
    next
      case False
      with 3(2) \<open>target \<le> iw \<and> target \<le> ih\<close> show ?thesis
        by (auto simp: selected_def fits w nth_append)
    qed
  next
    case False
    then show ?thesis
    proof (cases "\<not> found \<and> width < iw")
      case True
      with 3(2) False show ?thesis
        by (auto simp: selected_def fits w nth_append)
    next
      case nofit: False
      with 3(2) False have "selected target (seen @ [?img]) (index, width, found)"
        by (intro selected_keep) (auto simp: fits w not_less)
      with nofit False show ?thesis by auto
    qed
  qed
  from 3(1) [OF _ this] show ?case by simp
qed simp

lemma selectIconIndex_selected:
  "\<exists>width found. selected target imgs (selectIconIndex imgs target, width, found)"
proof -
  have "selected target ([] @ imgs) (select_loop target imgs (length ([] :: (u32 \<times> u32) option list)) (0, 0, False))"
    by (rule select_loop_selected) (simp add: selected_def)
  then show ?thesis
    unfolding selectIconIndex_def
    by (cases "select_loop target imgs 0 (0, 0, False)") auto
qed

section \<open>The layout of the file\<close>

lemma mem_of_little [wire_simps]:
  "mem_of_u16 le (CFSwapInt16HostToLittle le v) = rev (be16 v)"
  "mem_of_u32 le (CFSwapInt32HostToLittle le x) = rev (be32 x)"
  by (simp_all add: mem_of_u16_def mem_of_u32_def CFSwapInt16HostToLittle_def
      CFSwapInt32HostToLittle_def be16_bswap be32_bswap)

definition ico_dim :: "u32 \<Rightarrow> u8" where
  "ico_dim sz = (if sz = 256 then 0 else ucast sz)"

definition ico_entry :: "u32 \<Rightarrow> nat \<Rightarrow> nat \<Rightarrow> u8 list" where
  "ico_entry sz n off = [ico_dim sz, ico_dim sz, 0, 0] @ rev (be16 1) @ rev (be16 32) @
     rev (be32 (of_nat n)) @ rev (be32 (of_nat off))"

lemma length_ico_entry [simp]: "length (ico_entry sz n off) = 16"
  by (simp add: ico_entry_def)

fun ico_entries :: "u8 list list \<Rightarrow> u32 list \<Rightarrow> nat \<Rightarrow> u8 list" where
  "ico_entries (png # pngs) (sz # szs) off =
     ico_entry sz (length png) off @ ico_entries pngs szs (off + length png)"
| "ico_entries pngs szs off = []"

lemma length_ico_entries [simp]:
  "length pngs = length szs \<Longrightarrow> length (ico_entries pngs szs off) = 16 * length pngs"
  by (induction pngs szs off rule: ico_entries.induct) auto

lemma split_at: "length xs = m + n \<Longrightarrow> \<exists>ys zs. xs = ys @ zs \<and> length ys = m \<and> length zs = n"
  by (rule exI [of _ "take m xs"], rule exI [of _ "drop m xs"]) simp

text \<open>One entry and its image: the stores of one iteration.\<close>

lemma ico_stores:
  assumes "length pre = p" "length junk = 16" "off = p + 16 + length mid" "length old = length png"
  shows "do {
      b \<leftarrow> store_u8 (pre @ junk @ mid @ old @ rest) p d;
      b \<leftarrow> store_u8 b (p + 1) d;
      b \<leftarrow> store_u8 b (p + 2) 0;
      b \<leftarrow> store_u8 b (p + 3) 0;
      b \<leftarrow> store_u16 le b (p + 4) (CFSwapInt16HostToLittle le 1);
      b \<leftarrow> store_u16 le b (p + 6) (CFSwapInt16HostToLittle le 32);
      b \<leftarrow> store_u32 le b (p + 8) (CFSwapInt32HostToLittle le n);
      b \<leftarrow> store_u32 le b (p + 12) (CFSwapInt32HostToLittle le x);
      b \<leftarrow> store_bytes b off png;
      k b
    } = k (pre @ ([d, d, 0, 0] @ rev (be16 1) @ rev (be16 32) @ rev (be32 n) @ rev (be32 x)) @ mid @ png @ rest)"
proof -
  obtain h r where hr: "junk = h @ r" "length h = 4" "length r = 12"
    using split_at [of junk 4 12] assms(2) by auto
  obtain a b c e where h: "h = [a, b, c, e]"
    using hr(2) by (auto simp: length_Suc_conv numeral_eq_Suc)
  obtain j1 r1 where r1: "r = j1 @ r1" "length j1 = 2" "length r1 = 10"
    using split_at [of r 2 10] hr(3) by auto
  obtain j2 r2 where r2: "r1 = j2 @ r2" "length j2 = 2" "length r2 = 8"
    using split_at [of r1 2 8] r1(3) by auto
  obtain j3 j4 where r3: "r2 = j3 @ j4" "length j3 = 4" "length j4 = 4"
    using split_at [of r2 4 4] r2(3) by auto
  have junk: "junk = [a, b, c, e] @ j1 @ j2 @ j3 @ j4" "length j1 = 2"
    "length j2 = 2" "length j3 = 4" "length j4 = 4"
    using hr h r1 r2 r3 by simp_all
  show ?thesis
    using assms junk(2-) unfolding junk(1)
    by (simp add: store_u8_def store_u16_def store_u32_def mem_simps wire_simps)
qed

lemma ico_loop_eq:
  assumes "length hdr = 6" "length es = 16 * i" "length junk = 16 * k"
    and "off = 6 + 16 * (i + k) + length mid" "i + k = length pngs" "length szs = length pngs"
    and "length old = sum_list (map length (drop i pngs))"
  shows "ico_loop le pngs szs k i off (hdr @ es @ junk @ mid @ old) =
    Some (hdr @ es @ ico_entries (drop i pngs) (drop i szs) off @ mid @ concat (drop i pngs))"
  using assms
proof (induction k arbitrary: i off es junk mid old)
  case (Suc k)
  let ?png = "pngs ! i"
  have i: "i < length pngs" "i < length szs" using Suc.prems by simp_all
  have drops: "drop i pngs = ?png # drop (Suc i) pngs" "drop i szs = szs ! i # drop (Suc i) szs"
    using i by (simp_all add: Cons_nth_drop_Suc)
  obtain j1 j2 where junk: "junk = j1 @ j2" "length j1 = 16" "length j2 = 16 * k"
    using split_at [of junk 16 "16 * k"] Suc.prems(3) by auto
  obtain o1 o2 where old: "old = o1 @ o2" "length o1 = length ?png"
    "length o2 = sum_list (map length (drop (Suc i) pngs))"
    using split_at [of old "length ?png" "sum_list (map length (drop (Suc i) pngs))"] Suc.prems(7) drops(1)
    by auto
  let ?d = "if szs ! i = 256 then 0 else ucast (szs ! i) :: u8"
  have entry: "[?d, ?d, 0, 0] @ rev (be16 1) @ rev (be16 32) @ rev (be32 (of_nat (length ?png))) @
      rev (be32 (of_nat off)) = ico_entry (szs ! i) (length ?png) off"
    by (simp add: ico_entry_def ico_dim_def)
  note stores = ico_stores [of "hdr @ es" "6 + 16 * i" j1 off "j2 @ mid" o1 ?png o2 ?d le
      "of_nat (length ?png)" "of_nat off" "ico_loop le pngs szs k (i + 1) (off + length ?png)"]
  have "ico_loop le pngs szs (Suc k) i off (hdr @ es @ junk @ mid @ old) =
      ico_loop le pngs szs k (Suc i) (off + length ?png)
        (hdr @ (es @ ico_entry (szs ! i) (length ?png) off) @ j2 @ (mid @ ?png) @ o2)"
    using stores i Suc.prems(1,2,4) junk old(2) unfolding entry by (simp add: Let_def junk old)
  also have "\<dots> = Some (hdr @ (es @ ico_entry (szs ! i) (length ?png) off) @
      ico_entries (drop (Suc i) pngs) (drop (Suc i) szs) (off + length ?png) @ (mid @ ?png) @
      concat (drop (Suc i) pngs))"
    by (rule Suc.IH) (use Suc.prems junk old in simp_all)
  finally show ?case unfolding drops by simp
qed simp

definition ico_file :: "u8 list list \<Rightarrow> u32 list \<Rightarrow> u8 list" where
  "ico_file pngs szs = [0, 0] @ rev (be16 1) @ rev (be16 (of_nat (length pngs))) @
     ico_entries pngs szs (6 + 16 * length pngs) @ concat pngs"

definition ico_size :: "u8 list list \<Rightarrow> nat" where
  "ico_size pngs = 6 + 16 * length pngs + sum_list (map length pngs)"

lemma buildIco_eq:
  assumes "length szs = length pngs" "malloc (ico_size pngs) = Some block" "length block = ico_size pngs"
  shows "buildIcoFromPngs le malloc pngs szs (length pngs) = Some (Some (ico_file pngs szs))"
proof -
  obtain h r where hr: "block = h @ r" "length h = 6"
    "length r = 16 * length pngs + sum_list (map length pngs)"
    using split_at [of block 6 "16 * length pngs + sum_list (map length pngs)"] assms(3)
    by (auto simp: ico_size_def)
  obtain a h' where a: "h = a @ h'" "length a = 2" "length h' = 4"
    using split_at [of h 2 4] hr(2) by auto
  obtain c e where c: "h' = c @ e" "length c = 2" "length e = 2"
    using split_at [of h' 2 2] a(3) by auto
  have h: "h = a @ c @ e" "length a = 2" "length c = 2" "length e = 2" using a c by simp_all
  obtain junk old where r: "r = junk @ old" "length junk = 16 * length pngs"
    "length old = sum_list (map length pngs)"
    using split_at [of r "16 * length pngs" "sum_list (map length pngs)"] hr(3) by auto
  let ?hdr = "[0, 0] @ rev (be16 1) @ rev (be16 (of_nat (length pngs)))"
  have zero: "mem_of_u16 le 0 = [0, 0]" by (simp add: mem_of_u16_def be16_def)
  have loop: "ico_loop le pngs szs (length pngs) 0 (6 + 16 * length pngs) (?hdr @ junk @ old) =
      Some (ico_file pngs szs)"
    using ico_loop_eq [of ?hdr "[]" 0 junk "length pngs" "6 + 16 * length pngs" "[]" pngs szs old le]
      assms(1) r by (simp add: ico_file_def)
  have size: "22 + length pngs * 16 - 16 = 6 + 16 * length pngs" by simp
  show ?thesis
    using assms(2) h(2-) r(2,3) loop unfolding buildIcoFromPngs_def Let_def size
    by (simp add: ico_size_def hr(1) h(1) r(1) store_u16_def mem_simps wire_simps zero)
qed

section \<open>Reading back\<close>

lemma ico_u16_here [mem_simps]: "ico_u16 (rev (be16 v) @ xs) 0 = Some v"
  by (simp add: ico_u16_def mem_simps)

lemma ico_u16_zero: "ico_u16 (0 # 0 # xs) 0 = Some 0"
  by (simp add: ico_u16_def load_bytes_def u16_of_be_def)

lemma ico_u32_here [mem_simps]: "ico_u32 (rev (be32 v) @ xs) 0 = Some v"
  by (simp add: ico_u32_def mem_simps)

lemma ico_load_skip [mem_simps]:
  "length xs \<le> n \<Longrightarrow> ico_u16 (xs @ ys) n = ico_u16 ys (n - length xs)"
  "length xs \<le> n \<Longrightarrow> ico_u32 (xs @ ys) n = ico_u32 ys (n - length xs)"
  "0 < n \<Longrightarrow> ico_u16 (x # ys) n = ico_u16 ys (n - 1)"
  "0 < n \<Longrightarrow> ico_u32 (x # ys) n = ico_u32 ys (n - 1)"
  by (simp_all add: ico_u16_def ico_u32_def mem_simps)

text \<open>The entries before the one that is read.\<close>

lemma ico_entries_split:
  assumes "length pngs = length szs" "i < length pngs"
  shows "\<exists>xs ys. ico_entries pngs szs off = xs @ ico_entry (szs ! i) (length (pngs ! i))
      (off + sum_list (map length (take i pngs))) @ ys \<and> length xs = 16 * i"
  using assms
proof (induction pngs arbitrary: i szs off)
  case (Cons png pngs)
  obtain sz szs' where szs: "szs = sz # szs'" "length pngs = length szs'"
    using Cons.prems(1) by (cases szs) auto
  show ?case
  proof (cases i)
    case 0
    show ?thesis
      by (rule exI [of _ "[]"], rule exI [of _ "ico_entries pngs szs' (off + length png)"])
        (simp add: szs 0)
  next
    case (Suc j)
    then obtain xs ys where IH: "ico_entries pngs szs' (off + length png) = xs @ ico_entry (szs' ! j)
        (length (pngs ! j)) (off + length png + sum_list (map length (take j pngs))) @ ys"
      "length xs = 16 * j"
      using Cons.IH [of szs' j "off + length png"] Cons.prems(2) szs(2) by auto
    show ?thesis
      by (rule exI [of _ "ico_entry sz (length png) off @ xs"], rule exI [of _ ys])
        (simp add: IH Suc szs(1) add.assoc)
  qed
qed simp

lemma load_concat:
  "i < length pngs \<Longrightarrow>
   load_bytes (concat pngs) (sum_list (map length (take i pngs))) (length (pngs ! i)) = Some (pngs ! i)"
proof (induction pngs arbitrary: i)
  case (Cons png pngs)
  then show ?case by (cases i) (simp_all add: mem_simps)
qed simp

lemma ico_file_reads_back:
  assumes "length szs = length pngs" "ico_size pngs < 2 ^ 32" "i < length pngs"
  shows "ico_image (ico_file pngs szs) i = Some (pngs ! i)"
    "load_u8 (ico_file pngs szs) (6 + 16 * i) = Some (ico_dim (szs ! i))"
proof -
  let ?off = "6 + 16 * length pngs + sum_list (map length (take i pngs))"
  obtain xs ys where split: "ico_entries pngs szs (6 + 16 * length pngs) =
      xs @ ico_entry (szs ! i) (length (pngs ! i)) ?off @ ys" "length xs = 16 * i"
    using ico_entries_split [of pngs szs i "6 + 16 * length pngs"] assms by auto
  let ?head = "[0, 0] @ rev (be16 1) @ rev (be16 (of_nat (length pngs))) @ xs"
  have ico: "ico_file pngs szs = ?head @ ico_entry (szs ! i) (length (pngs ! i)) ?off @ ys @ concat pngs"
    by (simp add: ico_file_def split(1))
  have head: "length ?head = 6 + 16 * i" by (simp add: split(2))
  have parts: "sum_list (map length (take i pngs)) + length (pngs ! i) \<le> sum_list (map length pngs)"
    using arg_cong [OF id_take_nth_drop [OF assms(3)], of "\<lambda>l. sum_list (map length l)"] by simp
  have small: "unat (of_nat ?off :: u32) = ?off"
    "unat (of_nat (length (pngs ! i)) :: u32) = length (pngs ! i)"
    by (rule unat_of_nat_small; use assms(2) parts in \<open>simp add: ico_size_def\<close>)+
  have n: "ico_u32 (ico_file pngs szs) (6 + 16 * i + 8) = Some (of_nat (length (pngs ! i)))"
    unfolding ico by (simp add: mem_simps split(2) ico_entry_def)
  have off: "ico_u32 (ico_file pngs szs) (6 + 16 * i + 12) = Some (of_nat ?off)"
    unfolding ico by (simp add: mem_simps split(2) ico_entry_def)
  have data: "load_bytes (ico_file pngs szs) ?off (length (pngs ! i)) = Some (pngs ! i)"
    using load_concat [OF assms(3)] assms(1) by (simp add: ico_file_def mem_simps)
  show "ico_image (ico_file pngs szs) i = Some (pngs ! i)"
    unfolding ico_image_def n off by (simp only: Option.bind.simps small data)
  show "load_u8 (ico_file pngs szs) (6 + 16 * i) = Some (ico_dim (szs ! i))"
    unfolding ico by (simp add: mem_simps split(2) ico_entry_def)
qed

section \<open>The collection of renderings\<close>

lemma detailed_loop_eq:
  "detailed_loop os url imgs szs (pngs, used) =
     (pngs @ map (\<lambda>sz. the (ic_thumbnail os url (selectIconIndex imgs sz) sz))
        (filter (\<lambda>sz. ic_thumbnail os url (selectIconIndex imgs sz) sz \<noteq> None) szs),
      used @ filter (\<lambda>sz. ic_thumbnail os url (selectIconIndex imgs sz) sz \<noteq> None) szs)"
  by (induction szs arbitrary: pngs used) (auto split: option.splits)

text \<open>Types whose declarations lead to one another in a circle are followed for ever.\<close>

lemma uti_walk_circle:
  assumes "\<And>u. u \<in> U \<Longrightarrow> \<exists>v \<in> U. \<exists>rest. ic_declaration os u = Some (None, v # rest)" "u \<in> U"
  shows "uti_walk os (Some u) = None"
proof (rule ccontr)
  assume "uti_walk os (Some u) \<noteq> None"
  then obtain y where y: "uti_walk os (Some u) = Some y" by blast
  let ?I = "\<lambda>os' w y. \<not> (os' = os \<and> (\<exists>u \<in> U. w = Some u))"
  have "?I os (Some u) y"
    by (rule uti_walk.raw_induct [where P = ?I, OF _ y])
      (use assms(1) in \<open>fastforce split: option.splits list.splits\<close>)
  then show False using assms(2) by auto
qed

section \<open>Properties\<close>

text \<open>
  Of the images of an icon file the daemon takes the narrowest that is at least as wide
  and as high as the target; if there is none, the widest.
\<close>

theorem icon_index_best:
  assumes "imgs \<noteq> []"
  shows "selectIconIndex imgs target < length imgs \<and>
    (let best = imgs ! selectIconIndex imgs target in
     if \<exists>img \<in> set imgs. image_fits target img
     then image_fits target best \<and>
       (\<forall>img \<in> set imgs. image_fits target img \<longrightarrow> image_width best \<le> image_width img)
     else \<forall>img \<in> set imgs. image_width img \<le> image_width best)"
proof -
  obtain width found where sel: "selected target imgs (selectIconIndex imgs target, width, found)"
    using selectIconIndex_selected by blast
  show ?thesis
    using sel assms by (cases found) (auto simp: selected_def Let_def)
qed

definition demo_icons :: "(u32 \<times> u32) option list" where
  "demo_icons = [Some (32, 32), None, Some (128, 128), Some (64, 64)]"

theorem icon_index_best_witness:
  "selectIconIndex demo_icons 48 < 4 \<and> image_fits 48 (demo_icons ! selectIconIndex demo_icons 48) \<and>
   image_width (demo_icons ! selectIconIndex demo_icons 48) \<le> 64"
  using icon_index_best [of demo_icons 48]
  by (simp add: demo_icons_def image_fits_def image_width_def Let_def)

text \<open>
  C40.  The detailed icon reads back as a Microsoft ICO file, on hosts of either byte order: one
  entry per size that could be rendered, in order, with that size, and the image of the entry
  is exactly the rendering of the image selected for that size.
\<close>

theorem detailed_icon_reads_back:
  fixes os :: icon_env
  defines "usable \<equiv> \<lambda>url imgs. filter (\<lambda>sz.
    ic_thumbnail os url (selectIconIndex imgs sz) sz \<noteq> None) detailed_sizes"
  defines "pngs \<equiv> \<lambda>url imgs. map (\<lambda>sz. the (ic_thumbnail os url (selectIconIndex imgs sz) sz))
    (usable url imgs)"
  assumes "copyDeviceIconURL os = Some (Some url)" "ic_source os url = Some imgs"
    and "usable url imgs \<noteq> []" "ico_size (pngs url imgs) < 2 ^ 32" "i < length (usable url imgs)"
    and "ic_malloc os (ico_size (pngs url imgs)) = Some block" "length block = ico_size (pngs url imgs)"
  shows "\<exists>b. getDetailedIconImage os = Some (Some b) \<and> length b = ico_size (pngs url imgs) \<and>
    ico_u16 b 0 = Some 0 \<and> ico_u16 b 2 = Some icoDirTypeIcon \<and>
    ico_u16 b 4 = Some (of_nat (length (usable url imgs))) \<and>
    ico_entry_width b i = Some (unat (usable url imgs ! i)) \<and>
    ico_image b i = ic_thumbnail os url (selectIconIndex imgs (usable url imgs ! i)) (usable url imgs ! i)"
proof -
  let ?us = "usable url imgs" and ?pngs = "pngs url imgs"
  have len: "length ?us = length ?pngs" by (simp add: pngs_def)
  have loop: "detailed_loop os url imgs detailed_sizes ([], []) = (?pngs, ?us)"
    unfolding detailed_loop_eq by (simp add: pngs_def usable_def)
  have run: "getDetailedIconImage os = Some (Some (ico_file ?pngs ?us))"
    unfolding getDetailedIconImage_def
    using assms(3,4,5) buildIco_eq [OF len, where malloc = "ic_malloc os", OF assms(8,9)]
    by (simp add: loop len del: detailed_loop.simps)
  have sz: "?us ! i \<in> set detailed_sizes"
    using nth_mem [OF assms(7)] unfolding usable_def by auto
  have i: "i < length ?pngs" using assms(7) len by simp
  note reads = ico_file_reads_back [OF len assms(6) i]
  have dim: "(if ico_dim (?us ! i) = 0 then 256 else unat (ico_dim (?us ! i))) = unat (?us ! i)"
    using sz by (auto simp: ico_dim_def)
  have "ic_thumbnail os url (selectIconIndex imgs (?us ! i)) (?us ! i) \<noteq> None"
    using nth_mem [OF assms(7)] unfolding usable_def by auto
  then have png: "ic_thumbnail os url (selectIconIndex imgs (?us ! i)) (?us ! i) = Some (?pngs ! i)"
    using assms(7) by (auto simp: pngs_def)
  have head: "ico_u16 (ico_file ?pngs ?us) 0 = Some 0" "ico_u16 (ico_file ?pngs ?us) 2 = Some 1"
    "ico_u16 (ico_file ?pngs ?us) 4 = Some (of_nat (length ?us))"
    by (simp_all add: ico_file_def mem_simps len ico_u16_zero)
  have "length (ico_file ?pngs ?us) = ico_size ?pngs"
    using len by (simp add: ico_file_def ico_size_def length_concat)
  then show ?thesis
    using run head reads dim png by (simp add: ico_entry_width_def)
qed

definition demo_icon_env :: icon_env where
  "demo_icon_env = \<lparr>ic_little_endian = True, ic_malloc = (\<lambda>n. Some (replicate n 0xAA)),
     ic_model = None, ic_preferred = (\<lambda>m. None),
     ic_declaration = (\<lambda>u. Some (Some ''mac.icns'', [])), ic_resource = (\<lambda>u n. Some n),
     ic_source = (\<lambda>u. Some demo_icons),
     ic_thumbnail = (\<lambda>u i n. if n = 48 then Some [0x89, of_nat i] else None)\<rparr>"

lemma demo_icon_url: "copyDeviceIconURL demo_icon_env = Some (Some ''mac.icns'')"
  by (simp add: copyDeviceIconURL_def demo_icon_env_def uti_walk.simps)

theorem detailed_icon_reads_back_witness:
  "\<exists>b. getDetailedIconImage demo_icon_env = Some (Some b) \<and> length b = 24 \<and>
    ico_u16 b 0 = Some 0 \<and> ico_u16 b 2 = Some icoDirTypeIcon \<and> ico_u16 b 4 = Some 1 \<and>
    ico_entry_width b 0 = Some 48 \<and> ico_image b 0 = Some [0x89, 3]"
proof -
  have "selectIconIndex demo_icons 48 = 3" by code_simp
  then show ?thesis
    using detailed_icon_reads_back [OF demo_icon_url, where imgs = demo_icons and i = 0
        and block = "replicate 24 0xAA"]
    by (simp add: demo_icon_env_def ico_size_def)
qed

end
