(* ===== verification/LltdDarwinDevice.thy ===== *)
theory LltdDarwinDevice
  imports LltdDarwinPort
begin

unbundle bit_operations_syntax

text \<open>
  The life of an interface in os/darwin/daemon/darwin-main.c: IOKit announces a service
  (\<open>deviceAppeared\<close>), its properties decide whether a listener thread is started
  (\<open>validateInterface\<close>), the thread opens its socket (the start of \<open>lltdLoop\<close>), and messages
  end or restart it (\<open>deviceDisappeared\<close>).

  Blocks of \<open>malloc\<close> are numbers, and the live ones a set: reading or freeing a block that is
  not live has no outcome, so a use after free and a double free are \<^term>\<open>None\<close>.  The world
  also holds the registered notifications with the pointer each will be called with, the
  threads, and the reference counts of IOKit services.  Log lines read the device name they
  print.  IOKit and the thread functions are parameters; \<open>IORegistryEntryGetParentEntry\<close> sets
  its result to null when it fails, and a number property is a \<open>CFNumber\<close>.
\<close>

section \<open>IOKit\<close>

datatype reg_value = RegNumber u64 | RegData "u8 list" | RegString string
  | RegDict "(reg_value \<times> reg_value) list"

record iokit =
  ik_malloc :: "nat \<Rightarrow> bool"
  ik_parent :: "nat \<Rightarrow> nat option"
  ik_conforms :: "nat \<Rightarrow> string \<Rightarrow> bool"
  ik_property :: "nat \<Rightarrow> string \<Rightarrow> reg_value option"
  ik_bsd_name :: "nat \<Rightarrow> nat \<Rightarrow> string option"  \<comment> \<open>per service and attempt\<close>
  ik_add_note :: "nat \<Rightarrow> bool"
  ik_medium_wifi :: u64
  ik_medium_ethernet :: u64
  ik_attr_init :: bool
  ik_attr_detach :: bool
  ik_thread :: bool
  ik_socket :: int
  ik_bind :: bool

section \<open>State\<close>

record interest =
  nt_id :: nat
  nt_service :: nat
  nt_ref :: nat

record nic =
  ni_details :: darwin_interface
  ni_name :: nat                      \<comment> \<open>the block of the device name\<close>
  ni_linkStatus :: u64
  ni_notification :: nat
  ni_thread :: nat
  ni_seeList :: "nat list"
  ni_seeListCount :: nat
  ni_recvBuffer :: "nat option"
  ni_machines :: "nat list"           \<comment> \<open>the blocks of the machines and the session table\<close>

record device_world =
  dw_next :: nat
  dw_live :: "nat set"
  dw_nics :: "nat \<Rightarrow> nic option"
  dw_notes :: "interest list"
  dw_threads :: "(nat \<times> nat) list"    \<comment> \<open>a thread and the interface it serves\<close>
  dw_refs :: "nat \<Rightarrow> int"
  dw_sockets :: "int list"

definition nic_at :: "device_world \<Rightarrow> nat \<Rightarrow> nic option" where
  "nic_at w a = (if a \<in> dw_live w then dw_nics w a else None)"

definition put_nic :: "nat \<Rightarrow> nic \<Rightarrow> device_world \<Rightarrow> device_world" where
  "put_nic a n w = w\<lparr>dw_nics := (dw_nics w)(a \<mapsto> n)\<rparr>"

definition update_nic :: "nat \<Rightarrow> (nic \<Rightarrow> nic) \<Rightarrow> device_world \<Rightarrow> device_world option" where
  "update_nic a f w = map_option (\<lambda>n. put_nic a (f n) w) (nic_at w a)"

definition alloc_block :: "iokit \<Rightarrow> device_world \<Rightarrow> nat option \<times> device_world" where
  "alloc_block io w =
     (if ik_malloc io (dw_next w)
      then (Some (dw_next w), w\<lparr>dw_next := dw_next w + 1, dw_live := insert (dw_next w) (dw_live w)\<rparr>)
      else (None, w\<lparr>dw_next := dw_next w + 1\<rparr>))"

definition free_block :: "nat \<Rightarrow> device_world \<Rightarrow> device_world option" where
  "free_block b w = (if b \<in> dw_live w then Some (w\<lparr>dw_live := dw_live w - {b}\<rparr>) else None)"

fun free_blocks :: "nat list \<Rightarrow> device_world \<Rightarrow> device_world option" where
  "free_blocks [] w = Some w"
| "free_blocks (b # bs) w = do { w \<leftarrow> free_block b w; free_blocks bs w }"

definition io_retain :: "nat \<Rightarrow> device_world \<Rightarrow> device_world" where
  "io_retain s w = w\<lparr>dw_refs := (dw_refs w)(s := dw_refs w s + 1)\<rparr>"

definition io_release :: "nat \<Rightarrow> device_world \<Rightarrow> device_world" where
  "io_release s w = w\<lparr>dw_refs := (dw_refs w)(s := dw_refs w s - 1)\<rparr>"

text \<open>A log line with the device name; freeing the name and the interface.\<close>

definition log_name :: "nat \<Rightarrow> device_world \<Rightarrow> device_world option" where
  "log_name a w = do { n \<leftarrow> nic_at w a; if ni_name n \<in> dw_live w then Some w else None }"

definition discard_nic :: "nat \<Rightarrow> device_world \<Rightarrow> device_world option" where
  "discard_nic a w = do { n \<leftarrow> nic_at w a; w \<leftarrow> free_block (ni_name n) w; free_block a w }"

definition add_note :: "iokit \<Rightarrow> nat \<Rightarrow> nat \<Rightarrow> device_world \<Rightarrow> (bool \<times> device_world) option" where
  "add_note io s a w =
     (if ik_add_note io s then do {
        let k = dw_next w;
        w \<leftarrow> update_nic a (\<lambda>n. n\<lparr>ni_notification := k\<rparr>) w;
        Some (True, w\<lparr>dw_next := k + 1,
          dw_notes := dw_notes w @ [\<lparr>nt_id = k, nt_service = s, nt_ref = a\<rparr>]\<rparr>)
      } else Some (False, w))"

section \<open>Operations\<close>

partial_function (option) CopyCFPropertyRecursive ::
    "iokit \<Rightarrow> nat \<Rightarrow> string \<Rightarrow> reg_value option option" where
  "CopyCFPropertyRecursive io entry key =
     (case ik_property io entry key of
        Some v \<Rightarrow> Some (Some v)
      | None \<Rightarrow>
          (case ik_parent io entry of
             None \<Rightarrow> Some None
           | Some parentEntry \<Rightarrow> CopyCFPropertyRecursive io parentEntry key))"

definition IsWirelessInterface :: "iokit \<Rightarrow> nat \<Rightarrow> bool option" where
  "IsWirelessInterface io s =
     (if ik_conforms io s ''IO80211Interface'' then Some True
      else do {
        ssid \<leftarrow> CopyCFPropertyRecursive io s ''IO80211SSID'';
        if ssid \<noteq> None then Some True
        else do {
          countryCode \<leftarrow> CopyCFPropertyRecursive io s ''IO80211CountryCode'';
          Some (countryCode \<noteq> None)
        }
      })"

definition cf_number :: "reg_value \<Rightarrow> u64 option" where
  "cf_number v = (case v of RegNumber n \<Rightarrow> Some n | _ \<Rightarrow> None)"

text \<open>The medium type, when the dictionary of media has a number for the active medium.\<close>

definition active_medium_type :: "iokit \<Rightarrow> nat \<Rightarrow> u64 option option" where
  "active_medium_type io c = do {
     properties \<leftarrow> CopyCFPropertyRecursive io c ''kIOMediumDictionary'';
     case properties of
       Some (RegDict media) \<Rightarrow> do {
         activeMediumKey \<leftarrow> CopyCFPropertyRecursive io c ''kIOActiveMedium'';
         Some (case activeMediumKey of
             None \<Rightarrow> None
           | Some key \<Rightarrow>
               (case map_of media key of
                  Some (RegDict activeMedium) \<Rightarrow>
                    (case map_of activeMedium (RegString ''kIOMediumType'') of
                       Some (RegNumber t) \<Rightarrow> Some t
                     | _ \<Rightarrow> None)
                | _ \<Rightarrow> None))
       }
     | _ \<Rightarrow> Some None
   }"

abbreviation (input) kIONetworkLinkValid :: u32 where "kIONetworkLinkValid \<equiv> 1"
abbreviation (input) kIONetworkLinkActive :: u32 where "kIONetworkLinkActive \<equiv> 2"

text \<open>\<open>validateInterface\<close>, up to the release of the controller: false is an early return.\<close>

definition validate_link :: "iokit \<Rightarrow> nat \<Rightarrow> nat \<Rightarrow> nat \<Rightarrow> device_world \<Rightarrow> (bool \<times> device_world) option"
  where
  "validate_link io a s c w =
     (case ik_property io c ''kIOLinkStatus'' of
        None \<Rightarrow> do {
          w \<leftarrow> log_name a w;
          w \<leftarrow> discard_nic a (io_release c w);
          Some (False, w)
        }
      | Some CFLinkStatus \<Rightarrow> do {
          v \<leftarrow> cf_number CFLinkStatus;
          let LinkStatus = (ucast v :: u32);
          w \<leftarrow> update_nic a (\<lambda>n. n\<lparr>ni_linkStatus := scast LinkStatus\<rparr>) w;
          if LinkStatus AND (kIONetworkLinkValid OR kIONetworkLinkActive) =
             kIONetworkLinkValid OR kIONetworkLinkActive
          then Some (True, w)
          else if LinkStatus AND kIONetworkLinkActive \<noteq> 0 \<or> LinkStatus AND kIONetworkLinkValid \<noteq> 0
          then do {
            w \<leftarrow> log_name a w;
            (_, w) \<leftarrow> add_note io c a w;
            (_, w) \<leftarrow> add_note io s a w;
            Some (False, w)
          } else Some (True, w)
        })"

definition validate_speed :: "iokit \<Rightarrow> nat \<Rightarrow> nat \<Rightarrow> device_world \<Rightarrow> device_world option" where
  "validate_speed io a c w =
     (case ik_property io c ''kIOLinkSpeed'' of
        Some ioLinkSpeed \<Rightarrow> do {
          v \<leftarrow> cf_number ioLinkSpeed;
          update_nic a (\<lambda>n. n\<lparr>ni_details := (ni_details n)\<lparr>dn_LinkSpeed := v\<rparr>\<rparr>) w
        }
      | None \<Rightarrow> do {
          w \<leftarrow> log_name a w;
          update_nic a (\<lambda>n. n\<lparr>ni_details := (ni_details n)\<lparr>dn_LinkSpeed := 0\<rparr>\<rparr>) w
        })"

definition validate_medium :: "iokit \<Rightarrow> nat \<Rightarrow> nat \<Rightarrow> nat \<Rightarrow> device_world \<Rightarrow> device_world option" where
  "validate_medium io a s c w = do {
     isWireless \<leftarrow> IsWirelessInterface io s;
     w \<leftarrow> update_nic a (\<lambda>n. n\<lparr>ni_details := (ni_details n)\<lparr>dn_MediumType :=
       if isWireless then ik_medium_wifi io else ik_medium_ethernet io\<rparr>\<rparr>) w;
     mediumType \<leftarrow> active_medium_type io c;
     w \<leftarrow> (case mediumType of
             None \<Rightarrow> Some w
           | Some t \<Rightarrow> update_nic a (\<lambda>n. n\<lparr>ni_details := (ni_details n)\<lparr>dn_MediumType := t\<rparr>\<rparr>) w);
     log_name a w
   }"

definition validate_mtu :: "iokit \<Rightarrow> nat \<Rightarrow> nat \<Rightarrow> nat \<Rightarrow> device_world \<Rightarrow> (bool \<times> device_world) option"
  where
  "validate_mtu io a s c w =
     (case (case ik_property io c ''kIOMaxPacketSize'' of
              Some v \<Rightarrow> Some v | None \<Rightarrow> ik_property io s ''kIOMaxTransferUnit'') of
        Some mtu \<Rightarrow> do {
          v \<leftarrow> cf_number mtu;
          w \<leftarrow> update_nic a (\<lambda>n. n\<lparr>ni_details := (ni_details n)\<lparr>dn_MTU := ucast v\<rparr>\<rparr>) w;
          Some (True, w)
        }
      | None \<Rightarrow> do {
          w \<leftarrow> log_name a w;
          w \<leftarrow> discard_nic a (io_release s (io_release c w));
          Some (False, w)
        })"

definition validate_controller :: "iokit \<Rightarrow> nat \<Rightarrow> nat \<Rightarrow> device_world \<Rightarrow> (bool \<times> device_world) option"
  where
  "validate_controller io a s w =
     (case ik_parent io s of
        None \<Rightarrow> do {
          w \<leftarrow> log_name a w;
          w \<leftarrow> discard_nic a (io_release s w);
          Some (False, w)
        }
      | Some c \<Rightarrow> do {
          let w = io_retain c w;
          case ik_property io c ''kIOMACAddress'' of
            None \<Rightarrow> do {
              w \<leftarrow> log_name a w;
              w \<leftarrow> discard_nic a (io_release c w);
              Some (False, w)
            }
          | Some macAddressAsData \<Rightarrow> do {
              mac \<leftarrow> (case macAddressAsData of RegData d \<Rightarrow> if length d \<le> 6 then Some d else None
                      | _ \<Rightarrow> None);
              w \<leftarrow> update_nic a (\<lambda>n. n\<lparr>ni_details := (ni_details n)\<lparr>dn_macAddress := mac_of_bytes
                (mac @ drop (length mac) (mac_bytes (dn_macAddress (ni_details n))))\<rparr>\<rparr>) w;
              (go, w) \<leftarrow> validate_link io a s c w;
              if \<not> go then Some (False, w)
              else do {
                w \<leftarrow> validate_speed io a c w;
                w \<leftarrow> validate_medium io a s c w;
                (go, w) \<leftarrow> validate_mtu io a s c w;
                if \<not> go then Some (False, w) else Some (True, io_release c w)
              }
            }
        })"

text \<open>The check of the interface flags.\<close>

abbreviation (input) IFF_UP_DARWIN :: u64 where "IFF_UP_DARWIN \<equiv> 1"
abbreviation (input) IFF_BROADCAST_DARWIN :: u64 where "IFF_BROADCAST_DARWIN \<equiv> 2"

definition validate_flags :: "iokit \<Rightarrow> nat \<Rightarrow> nat \<Rightarrow> device_world \<Rightarrow> (bool \<times> device_world) option" where
  "validate_flags io a s w =
     (case ik_property io s ''kIOInterfaceFlags'' of
        None \<Rightarrow> do {
          w \<leftarrow> log_name a w;
          w \<leftarrow> discard_nic a (io_release s w);
          Some (False, w)
        }
      | Some CFFlags \<Rightarrow> do {
          v \<leftarrow> cf_number CFFlags;
          let flags = (ucast (ucast v :: u32) :: u64);
          w \<leftarrow> update_nic a (\<lambda>n. n\<lparr>ni_details := (ni_details n)\<lparr>dn_flags := flags\<rparr>\<rparr>) w;
          if flags AND (IFF_UP_DARWIN OR IFF_BROADCAST_DARWIN) = 0 \<or> flags AND IFF_LOOPBACK \<noteq> 0
          then do {
            w \<leftarrow> log_name a w;
            (_, w) \<leftarrow> add_note io s a w;
            Some (False, io_release s w)
          } else Some (True, w)
        })"

definition validate_type :: "iokit \<Rightarrow> nat \<Rightarrow> nat \<Rightarrow> device_world \<Rightarrow> device_world option" where
  "validate_type io a s w = do {
     wireless \<leftarrow> IsWirelessInterface io s;
     update_nic a (\<lambda>n. n\<lparr>ni_details := (ni_details n)\<lparr>
       dn_interfaceType := if wireless then NetworkInterfaceTypeIEEE80211 else NetworkInterfaceTypeEthernet,
       dn_ifType := if wireless then 71 else 6\<rparr>\<rparr>) w
   }"

text \<open>The notifications of the interface and of its controller.\<close>

definition validate_notify :: "iokit \<Rightarrow> nat \<Rightarrow> nat \<Rightarrow> device_world \<Rightarrow> (bool \<times> device_world) option" where
  "validate_notify io a s w = do {
     (registered, w) \<leftarrow> add_note io s a w;
     if \<not> registered then do {
       w \<leftarrow> log_name a w;
       w \<leftarrow> discard_nic a (io_release s w);
       Some (False, w)
     }
     else case ik_parent io s of
       None \<Rightarrow> do {
         w \<leftarrow> log_name a w;
         w \<leftarrow> discard_nic a (io_release s w);
         Some (False, w)
       }
     | Some c \<Rightarrow> do {
         (registered, w) \<leftarrow> add_note io c a (io_retain c w);
         if \<not> registered then do {
           w \<leftarrow> log_name a w;
           w \<leftarrow> discard_nic a (io_release s w);
           Some (False, w)
         } else Some (True, io_release c w)
       }
   }"

definition validate_thread :: "iokit \<Rightarrow> nat \<Rightarrow> nat \<Rightarrow> device_world \<Rightarrow> device_world option" where
  "validate_thread io a s w =
     (if ik_attr_init io \<and> ik_attr_detach io \<and> ik_thread io then do {
        let t = dw_next w;
        w \<leftarrow> update_nic a (\<lambda>n. n\<lparr>ni_thread := t\<rparr>) w;
        Some (w\<lparr>dw_next := t + 1, dw_threads := dw_threads w @ [(t, a)]\<rparr>)
      } else do {
        w \<leftarrow> log_name a w;
        discard_nic a (io_release s w)
      })"

definition validateInterface :: "iokit \<Rightarrow> nat \<Rightarrow> nat \<Rightarrow> device_world \<Rightarrow> device_world option" where
  "validateInterface io a s w = do {
     (go, w) \<leftarrow> validate_controller io a s w;
     if \<not> go then Some w
     else do {
       (go, w) \<leftarrow> validate_flags io a s w;
       if \<not> go then Some w
       else do {
         w \<leftarrow> validate_type io a s w;
         (go, w) \<leftarrow> validate_notify io a s w;
         if \<not> go then Some w else validate_thread io a s w
       }
     }
   }"

text \<open>
  The start of \<open>lltdLoop\<close>: the socket, the address with its 16 bytes for the name, and the
  receive buffer.  The result is whether the loop is reached.
\<close>

definition lltdLoop_open :: "iokit \<Rightarrow> nat \<Rightarrow> device_world \<Rightarrow> (bool \<times> device_world) option" where
  "lltdLoop_open io a w = do {
     w \<leftarrow> update_nic a (\<lambda>n. n\<lparr>ni_details := (ni_details n)\<lparr>dn_socket := ik_socket io\<rparr>\<rparr>) w;
     if ik_socket io < 0 then do { w \<leftarrow> log_name a w; Some (False, w) }
     else do {
       let w = w\<lparr>dw_sockets := ik_socket io # dw_sockets w\<rparr>;
       w \<leftarrow> log_name a w;
       n \<leftarrow> nic_at w a;
       if 16 \<le> length (dn_deviceName (ni_details n)) then None
       else if \<not> ik_bind io then Some (False, w)
       else do {
         w \<leftarrow> update_nic a (\<lambda>n. n\<lparr>ni_seeList := []\<rparr>) w;
         let (buffer, w) = alloc_block io w;
         w \<leftarrow> update_nic a (\<lambda>n. n\<lparr>ni_recvBuffer := buffer\<rparr>) w;
         if buffer = None
         then Some (False, w\<lparr>dw_sockets := remove1 (ik_socket io) (dw_sockets w)\<rparr>)
         else Some (True, w)
       }
     }
   }"

datatype io_message = ServiceIsTerminated | DeviceWillPowerOff | ServicePropertyChange
  | DeviceWillPowerOn | OtherMessage

definition pthread_cancel :: "nat \<Rightarrow> device_world \<Rightarrow> device_world" where
  "pthread_cancel t w = w\<lparr>dw_threads := filter (\<lambda>x. fst x \<noteq> t) (dw_threads w)\<rparr>"

definition release_note :: "nat \<Rightarrow> device_world \<Rightarrow> device_world" where
  "release_note k w = w\<lparr>dw_notes := filter (\<lambda>x. nt_id x \<noteq> k) (dw_notes w)\<rparr>"

text \<open>The loop over the probes: it counts, so a list shorter than its count ends in a null pointer.\<close>

fun free_see_list :: "nat \<Rightarrow> nat list \<Rightarrow> device_world \<Rightarrow> device_world option" where
  "free_see_list 0 ps w = Some w"
| "free_see_list (Suc k) [] w = None"
| "free_see_list (Suc k) (p # ps) w = do { w \<leftarrow> free_block p w; free_see_list k ps w }"

definition clean_see_list :: "nat \<Rightarrow> device_world \<Rightarrow> device_world option" where
  "clean_see_list a w = do {
     n \<leftarrow> nic_at w a;
     w \<leftarrow> (if ni_seeList n = [] then Some w else free_see_list (ni_seeListCount n) (ni_seeList n) w);
     update_nic a (\<lambda>n. n\<lparr>ni_seeList := []\<rparr>) w
   }"

definition free_recv_buffer :: "nat \<Rightarrow> device_world \<Rightarrow> device_world option" where
  "free_recv_buffer a w = do {
     n \<leftarrow> nic_at w a;
     case ni_recvBuffer n of
       None \<Rightarrow> Some w
     | Some b \<Rightarrow> do { w \<leftarrow> free_block b w; update_nic a (\<lambda>n. n\<lparr>ni_recvBuffer := None\<rparr>) w }
   }"

definition deviceDisappeared ::
    "iokit \<Rightarrow> nat \<Rightarrow> nat \<Rightarrow> io_message \<Rightarrow> device_world \<Rightarrow> device_world option" where
  "deviceDisappeared io a s messageType w =
     (case messageType of
        ServiceIsTerminated \<Rightarrow> do {
          w \<leftarrow> log_name a w;
          n \<leftarrow> nic_at w a;
          w \<leftarrow> free_block (ni_name n) (pthread_cancel (ni_thread n) w);
          w \<leftarrow> free_recv_buffer a (release_note (ni_notification n) w);
          w \<leftarrow> clean_see_list a w;
          w \<leftarrow> free_blocks (ni_machines n) w;
          free_block a w
        }
      | DeviceWillPowerOff \<Rightarrow> do {
          w \<leftarrow> log_name a w;
          w \<leftarrow> free_recv_buffer a w;
          w \<leftarrow> clean_see_list a w;
          n \<leftarrow> nic_at w a;
          Some (pthread_cancel (ni_thread n) w)
        }
      | ServicePropertyChange \<Rightarrow> do {
          w \<leftarrow> log_name a w;
          n \<leftarrow> nic_at w a;
          w \<leftarrow> free_recv_buffer a (pthread_cancel (ni_thread n) w);
          w \<leftarrow> clean_see_list a (release_note (ni_notification n) w);
          validateInterface io a s
            (w\<lparr>dw_sockets := remove1 (dn_socket (ni_details n)) (dw_sockets w)\<rparr>)
        }
      | DeviceWillPowerOn \<Rightarrow> do {
          w \<leftarrow> log_name a w;
          n \<leftarrow> nic_at w a;
          w \<leftarrow> free_block (ni_name n) w;
          validateInterface io a s (release_note (ni_notification n) w)
        }
      | OtherMessage \<Rightarrow> Some w)"

text \<open>
  The blocks of \<open>init_automata_mapping\<close>, \<open>init_automata_session\<close>, \<open>init_automata_enumeration\<close> and
  \<open>session_table_create\<close>, in the order they are allocated: only the mapping state and the
  table may be missing.
\<close>

definition alloc_machines :: "iokit \<Rightarrow> device_world \<Rightarrow> (nat list \<times> device_world) option" where
  "alloc_machines io w =
     (let (mapping, w) = alloc_block io w; (mstate, w) = alloc_block io w;
          (session, w) = alloc_block io w; (enumeration, w) = alloc_block io w;
          (band, w) = alloc_block io w; (table, w) = alloc_block io w
      in if mapping = None \<or> session = None \<or> enumeration = None \<or> band = None then None
         else Some (map the (filter (\<lambda>b. b \<noteq> None)
           [mstate, mapping, session, band, enumeration, table]), w))"

definition appear_one :: "iokit \<Rightarrow> nat \<Rightarrow> device_world \<Rightarrow> device_world option" where
  "appear_one io s w =
     (let (p, w) = alloc_block io w in
      case p of
        None \<Rightarrow> None
      | Some a \<Rightarrow> do {
          (machines, w) \<leftarrow> alloc_machines io w;
          deviceName \<leftarrow> (case ik_bsd_name io s 0 of Some x \<Rightarrow> Some x | None \<Rightarrow> ik_bsd_name io s 1);
          let (name, w) = alloc_block io w;
          name \<leftarrow> name;
          let n = \<lparr>ni_details = \<lparr>dn_deviceName = deviceName, dn_ifType = 0,
                dn_interfaceType = NetworkInterfaceTypeBond, dn_flags = 0, dn_MediumType = 0, dn_MTU = 0,
                dn_LinkSpeed = 0, dn_socket = 0, dn_macAddress = zero_mac\<rparr>,
              ni_name = name, ni_linkStatus = 0, ni_notification = 0, ni_thread = 0, ni_seeList = [],
              ni_seeListCount = 0, ni_recvBuffer = None, ni_machines = machines\<rparr>;
          w \<leftarrow> validateInterface io a s (put_nic a n w);
          Some (io_release s w)
        })"

fun deviceAppeared :: "iokit \<Rightarrow> nat list \<Rightarrow> device_world \<Rightarrow> device_world option" where
  "deviceAppeared io [] w = Some w"
| "deviceAppeared io (s # ss) w = do {
     w \<leftarrow> appear_one io s (io_retain s w);
     deviceAppeared io ss w
   }"

text \<open>
  The lock against a second daemon: \<open>lockFd\<close> is what \<open>open\<close> returned.  The result is the
  descriptor that stays open, or -1.
\<close>

definition acquireInstanceLock :: "int \<Rightarrow> bool \<Rightarrow> int \<times> int list" where
  "acquireInstanceLock lockFd locked =
     (if lockFd < 0 then (-1, []) else if \<not> locked then (-1, []) else (lockFd, [lockFd]))"

end
