(* ===== verification/LltdDarwinDeviceProps.thy ===== *)
theory LltdDarwinDeviceProps
  imports LltdDarwinDevice
begin

unbundle bit_operations_syntax

text \<open>
  The properties of the life of a macOS interface: which interfaces get a listener, that a
  whole life gives back every block but leaves a notification with a dangling pointer, and
  that switching an interface on again uses its freed name.
\<close>

section \<open>What the steps leave alone\<close>

named_theorems device_simps "effects of the primitive steps on the device world"

lemma io_simps [simp]:
  "dw_threads (io_retain s w) = dw_threads w" "dw_threads (io_release s w) = dw_threads w"
  "dw_live (io_retain s w) = dw_live w" "dw_live (io_release s w) = dw_live w"
  "dw_nics (io_retain s w) = dw_nics w" "dw_nics (io_release s w) = dw_nics w"
  "dw_notes (io_retain s w) = dw_notes w" "dw_notes (io_release s w) = dw_notes w"
  "dw_next (io_retain s w) = dw_next w" "dw_next (io_release s w) = dw_next w"
  "dw_sockets (io_retain s w) = dw_sockets w" "dw_sockets (io_release s w) = dw_sockets w"
  "nic_at (io_retain s w) = nic_at w" "nic_at (io_release s w) = nic_at w"
  by (simp_all add: io_retain_def io_release_def nic_at_def fun_eq_iff)


lemma log_name_same: "log_name a w = Some w' \<Longrightarrow> w' = w"
  by (auto simp: log_name_def bind_eq_Some_conv split: if_splits)



section \<open>Which interfaces are served\<close>

text \<open>
  What the code asks of the link: both bits, or neither of them.
\<close>

definition link_passes :: "iokit \<Rightarrow> nat \<Rightarrow> bool" where
  "link_passes io c \<longleftrightarrow> (\<exists>v. ik_property io c ''kIOLinkStatus'' = Some (RegNumber v) \<and>
     (v AND 3 = 3 \<or> v AND 3 = 0))"

definition flags_pass :: "iokit \<Rightarrow> nat \<Rightarrow> bool" where
  "flags_pass io s \<longleftrightarrow> (\<exists>v. ik_property io s ''kIOInterfaceFlags'' = Some (RegNumber v) \<and>
     v AND 3 \<noteq> 0 \<and> v AND 8 = 0)"


definition notes_pass :: "iokit \<Rightarrow> nat \<Rightarrow> bool" where
  "notes_pass io s \<longleftrightarrow> ik_add_note io s \<and> (\<exists>c. ik_parent io s = Some c \<and> ik_add_note io c)"

definition thread_passes :: "iokit \<Rightarrow> bool" where
  "thread_passes io \<longleftrightarrow> ik_attr_init io \<and> ik_attr_detach io \<and> ik_thread io"

lemma and3:
  fixes x :: u32 and y :: u64
  shows "unat (x AND 3) = unat x mod 4" "unat (y AND 3) = unat y mod 4"
proof -
  have "x AND 3 = take_bit 2 x" "y AND 3 = take_bit 2 y"
    by (simp_all add: take_bit_eq_mask mask_eq_exp_minus_1)
  then show "unat (x AND 3) = unat x mod 4" "unat (y AND 3) = unat y mod 4"
    by (simp_all add: unsigned_take_bit_eq take_bit_eq_mod unat_mod)
qed

lemma link_bits:
  fixes v :: u64
  shows "(ucast v :: u32) AND 3 = 3 \<longleftrightarrow> v AND 3 = 3"
    "(ucast v :: u32) AND 2 = 0 \<and> (ucast v :: u32) AND 1 = 0 \<longleftrightarrow> v AND 3 = 0"
proof -
  have low: "(ucast v :: u32) AND 3 = k \<longleftrightarrow> unat v mod 4 = unat k" for k
    by (simp add: word_unat_eq_iff and3 unat_ucast_mod mod_mod_cancel)
  then show "(ucast v :: u32) AND 3 = 3 \<longleftrightarrow> v AND 3 = 3"
    by (simp add: word_unat_eq_iff [of "v AND 3"] and3)
  have "u AND 3 = (u AND 2) OR (u AND 1)" for u :: u32 by (simp flip: bit.conj_disj_distrib)
  then have "(ucast v :: u32) AND 2 = 0 \<and> (ucast v :: u32) AND 1 = 0 \<longleftrightarrow> (ucast v :: u32) AND 3 = 0"
    by (auto simp: or_eq_0_iff)
  also have "\<dots> \<longleftrightarrow> v AND 3 = 0" using low by (simp add: word_unat_eq_iff [of "v AND 3"] and3)
  finally show "(ucast v :: u32) AND 2 = 0 \<and> (ucast v :: u32) AND 1 = 0 \<longleftrightarrow> v AND 3 = 0" .
qed

lemma flag_bits:
  fixes v :: u64
  shows "(ucast (ucast v :: u32) :: u64) AND 3 = v AND 3" "(ucast (ucast v :: u32) :: u64) AND 8 = v AND 8"
proof -
  have "(ucast (ucast v :: u32) :: u64) AND mask 4 = v AND mask 4"
    by (rule bit_word_eqI) (auto simp: bit_simps)
  then have low: "(ucast (ucast v :: u32) :: u64) AND 15 = v AND 15" by (simp add: mask_eq_exp_minus_1)
  have "x AND 3 = (x AND 15) AND 3" "x AND 8 = (x AND 15) AND 8" for x :: u64
    by (simp_all add: and.assoc)
  with low show "(ucast (ucast v :: u32) :: u64) AND 3 = v AND 3"
    "(ucast (ucast v :: u32) :: u64) AND 8 = v AND 8" by metis+
qed












section \<open>Switching an interface on again\<close>

definition name_dead :: "nat \<Rightarrow> device_world \<Rightarrow> bool" where
  "name_dead a w \<longleftrightarrow> (\<forall>n. nic_at w a = Some n \<longrightarrow> ni_name n \<notin> dw_live w)"

lemma log_name_dead: "name_dead a w \<Longrightarrow> log_name a w = None"
  by (cases "nic_at w a") (auto simp: name_dead_def log_name_def)

lemma update_nic_dead:
  assumes "name_dead a w" "update_nic a f w = Some w'" "\<And>n. ni_name (f n) = ni_name n"
  shows "name_dead a w'"
  using assms by (auto simp: name_dead_def update_nic_def put_nic_def nic_at_def split: if_splits)

lemma validate_link_dead:
  assumes "name_dead a w" "validate_link io a s c w = Some (go, w')"
  shows "go \<and> name_dead a w'"
proof (cases "ik_property io c ''kIOLinkStatus''")
  case None
  with assms show ?thesis by (simp add: validate_link_def log_name_dead)
next
  case (Some r)
  with assms obtain v w1 where v: "cf_number r = Some v"
    "update_nic a (\<lambda>n. n\<lparr>ni_linkStatus := scast (ucast v :: u32)\<rparr>) w = Some w1"
    by (auto simp: validate_link_def bind_eq_Some_conv Let_def)
  then have "name_dead a w1" using update_nic_dead [OF assms(1) v(2)] by simp
  with assms(2) Some v show ?thesis
    by (auto simp: validate_link_def Let_def log_name_dead split: if_splits)
qed

lemma validate_speed_dead:
  assumes "name_dead a w" "validate_speed io a c w = Some w'"
  shows "name_dead a w'"
proof (cases "ik_property io c ''kIOLinkSpeed''")
  case None
  with assms show ?thesis by (simp add: validate_speed_def log_name_dead)
next
  case (Some r)
  with assms(2) obtain v where "update_nic a (\<lambda>n. n\<lparr>ni_details := (ni_details n)\<lparr>dn_LinkSpeed := v\<rparr>\<rparr>) w = Some w'"
    by (auto simp: validate_speed_def bind_eq_Some_conv)
  then show ?thesis by (rule update_nic_dead [OF assms(1)]) simp
qed

lemma validate_medium_dead:
  assumes "name_dead a w"
  shows "validate_medium io a s c w = None"
proof (rule ccontr)
  assume "validate_medium io a s c w \<noteq> None"
  then obtain w' where "validate_medium io a s c w = Some w'" by blast
  then obtain wl w1 m w2 where 1: "update_nic a (\<lambda>n. n\<lparr>ni_details := (ni_details n)\<lparr>dn_MediumType :=
       if wl then ik_medium_wifi io else ik_medium_ethernet io\<rparr>\<rparr>) w = Some w1"
    and 2: "(case m of None \<Rightarrow> Some w1
       | Some t \<Rightarrow> update_nic a (\<lambda>n. n\<lparr>ni_details := (ni_details n)\<lparr>dn_MediumType := t\<rparr>\<rparr>) w1) = Some w2"
    and 3: "log_name a w2 = Some w'"
    by (auto simp: validate_medium_def bind_eq_Some_conv)
  have d1: "name_dead a w1" by (rule update_nic_dead [OF assms 1]) simp
  have "name_dead a w2"
  proof (cases m)
    case None
    with 2 d1 show ?thesis by simp
  next
    case (Some t)
    with 2 have "update_nic a (\<lambda>n. n\<lparr>ni_details := (ni_details n)\<lparr>dn_MediumType := t\<rparr>\<rparr>) w1 = Some w2" by simp
    then show ?thesis by (rule update_nic_dead [OF d1]) simp
  qed
  with 3 show False by (simp add: log_name_dead)
qed

lemma name_dead_io [simp]:
  "name_dead a (io_retain s w) = name_dead a w" "name_dead a (io_release s w) = name_dead a w"
  by (simp_all add: name_dead_def)

lemma validate_controller_dead:
  assumes "name_dead a w"
  shows "validate_controller io a s w = None"
proof (rule ccontr)
  assume "validate_controller io a s w \<noteq> None"
  then obtain go w' where run: "validate_controller io a s w = Some (go, w')" by auto
  obtain c where c: "ik_parent io s = Some c"
    using run assms by (cases "ik_parent io s") (auto simp: validate_controller_def log_name_dead)
  obtain r where r: "ik_property io c ''kIOMACAddress'' = Some r"
    using run assms c
    by (cases "ik_property io c ''kIOMACAddress''") (auto simp: validate_controller_def log_name_dead)
  from run c r obtain mac w1 go1 w2 where
    1: "update_nic a (\<lambda>n. n\<lparr>ni_details := (ni_details n)\<lparr>dn_macAddress := mac_of_bytes
          (mac @ drop (length mac) (mac_bytes (dn_macAddress (ni_details n))))\<rparr>\<rparr>) (io_retain c w) = Some w1"
      "validate_link io a s c w1 = Some (go1, w2)"
    and rest: "go1 \<Longrightarrow> \<exists>w3. validate_speed io a c w2 = Some w3 \<and> validate_medium io a s c w3 \<noteq> None"
    by (fastforce simp: validate_controller_def bind_eq_Some_conv)
  have "name_dead a w1" by (rule update_nic_dead [OF _ 1(1)]) (simp_all add: assms)
  then have "go1" "name_dead a w2" using validate_link_dead [OF _ 1(2)] by simp_all
  with rest obtain w3 where "validate_speed io a c w2 = Some w3" "validate_medium io a s c w3 \<noteq> None"
    by blast
  then show False using validate_medium_dead [OF validate_speed_dead [OF \<open>name_dead a w2\<close>]] by simp
qed

text \<open>
  C32.  Whatever the state and whatever IOKit says, the handler of \<open>kIOMessageDeviceWillPowerOn\<close> has
  no defined outcome: it frees the device name and then validates the interface again, which
  reads the name, or frees it a second time.
\<close>

theorem power_on_undefined:
  "deviceDisappeared io a s DeviceWillPowerOn w = None"
proof (rule ccontr)
  assume "deviceDisappeared io a s DeviceWillPowerOn w \<noteq> None"
  then obtain n w1 where n: "nic_at w a = Some n" "free_block (ni_name n) w = Some w1"
    and run: "validateInterface io a s (release_note (ni_notification n) w1) \<noteq> None"
    by (auto simp: deviceDisappeared_def bind_eq_Some_conv dest!: log_name_same)
  have "name_dead a (release_note (ni_notification n) w1)"
    using n by (auto simp: name_dead_def nic_at_def free_block_def release_note_def split: if_splits)
  with run show False by (simp add: validateInterface_def validate_controller_dead)
qed

section \<open>A whole life\<close>

text \<open>A service everything works for, with controller \<open>c\<close> and the given name.\<close>

definition service_ready :: "iokit \<Rightarrow> nat \<Rightarrow> nat \<Rightarrow> string \<Rightarrow> bool" where
  "service_ready io s c name \<longleftrightarrow> (\<forall>k. ik_malloc io k) \<and> ik_parent io s = Some c \<and>
     (\<exists>mac. ik_property io c ''kIOMACAddress'' = Some (RegData mac) \<and> length mac \<le> 6) \<and>
     (\<exists>v. ik_property io c ''kIOLinkStatus'' = Some (RegNumber v) \<and> v AND 3 = 3) \<and>
     (\<exists>v. ik_property io c ''kIOLinkSpeed'' = Some (RegNumber v)) \<and>
     (\<exists>v. ik_property io c ''kIOMaxPacketSize'' = Some (RegNumber v)) \<and>
     IsWirelessInterface io s \<noteq> None \<and> active_medium_type io c \<noteq> None \<and>
     flags_pass io s \<and> notes_pass io s \<and> thread_passes io \<and>
     ik_bsd_name io s 0 = Some name \<and> length name < 16 \<and> 0 \<le> ik_socket io \<and> ik_bind io"

text \<open>What validation keeps of an interface, and of the rest of the world.\<close>

definition nic_core :: "nic \<Rightarrow> nat \<times> nat list \<times> nat list \<times> nat option \<times> string" where
  "nic_core n = (ni_name n, ni_machines n, ni_seeList n, ni_recvBuffer n, dn_deviceName (ni_details n))"

definition keeps_world :: "device_world \<Rightarrow> device_world \<Rightarrow> bool" where
  "keeps_world w w' \<longleftrightarrow> dw_next w' = dw_next w \<and> dw_live w' = dw_live w \<and> dw_notes w' = dw_notes w \<and>
     dw_threads w' = dw_threads w \<and> dw_sockets w' = dw_sockets w"

text \<open>The interface \<open>a\<close> is alive, with its name, and these blocks.\<close>

definition nic_alive :: "nat \<Rightarrow> nat \<times> nat list \<times> nat list \<times> nat option \<times> string \<Rightarrow> device_world \<Rightarrow> bool"
  where
  "nic_alive a core w \<longleftrightarrow> (\<exists>n. nic_at w a = Some n \<and> nic_core n = core \<and> ni_name n \<in> dw_live w)"

lemma keeps_world_refl [simp]: "keeps_world w w"
  by (simp add: keeps_world_def)

lemma keeps_world_trans: "keeps_world w w' \<Longrightarrow> keeps_world w' w'' \<Longrightarrow> keeps_world w w''"
  by (simp add: keeps_world_def)

lemma keeps_world_io [simp]:
  "keeps_world w (io_retain s w') = keeps_world w w'" "keeps_world w (io_release s w') = keeps_world w w'"
  "keeps_world (io_retain s w) w' = keeps_world w w'" "keeps_world (io_release s w) w' = keeps_world w w'"
  by (simp_all add: keeps_world_def)

lemma nic_alive_io [simp]:
  "nic_alive a core (io_retain s w) = nic_alive a core w"
  "nic_alive a core (io_release s w) = nic_alive a core w"
  by (simp_all add: nic_alive_def)

lemma log_name_alive: "nic_alive a core w \<Longrightarrow> log_name a w = Some w"
  by (auto simp: nic_alive_def log_name_def)

lemma update_nic_alive:
  assumes "nic_alive a core w" "\<And>n. nic_core (f n) = nic_core n"
  obtains w' where "update_nic a f w = Some w'" "keeps_world w w'" "nic_alive a core w'"
proof -
  obtain n where n: "nic_at w a = Some n" "nic_core n = core" "ni_name n \<in> dw_live w"
    using assms(1) by (auto simp: nic_alive_def)
  have "ni_name (f n) = ni_name n" using assms(2) [of n] by (simp add: nic_core_def)
  with n assms(2) show ?thesis
    by (intro that [of "put_nic a (f n) w"])
      (auto simp: update_nic_def keeps_world_def put_nic_def nic_alive_def nic_at_def split: if_splits)
qed

lemma validate_controller_runs:
  assumes ready: "service_ready io s c name" and alive: "nic_alive a core w"
  obtains w' where "validate_controller io a s w = Some (True, w')" "keeps_world w w'" "nic_alive a core w'"
proof -
  obtain mac v sp mtu wl med where io: "ik_parent io s = Some c"
    "ik_property io c ''kIOMACAddress'' = Some (RegData mac)" "length mac \<le> 6"
    "ik_property io c ''kIOLinkStatus'' = Some (RegNumber v)" "v AND 3 = 3"
    "ik_property io c ''kIOLinkSpeed'' = Some (RegNumber sp)"
    "ik_property io c ''kIOMaxPacketSize'' = Some (RegNumber mtu)"
    "IsWirelessInterface io s = Some wl" "active_medium_type io c = Some med"
    using ready by (auto simp: service_ready_def)
  have alive0: "nic_alive a core (io_retain c w)" using alive by simp
  obtain w1 where 1: "update_nic a (\<lambda>n. n\<lparr>ni_details := (ni_details n)\<lparr>dn_macAddress := mac_of_bytes
      (mac @ drop (length mac) (mac_bytes (dn_macAddress (ni_details n))))\<rparr>\<rparr>) (io_retain c w) = Some w1"
    "keeps_world (io_retain c w) w1" "nic_alive a core w1"
    by (rule update_nic_alive [OF alive0, rotated], rule that, assumption+, simp add: nic_core_def)
  obtain w2 where 2: "update_nic a (\<lambda>n. n\<lparr>ni_linkStatus := scast (ucast v :: u32)\<rparr>) w1 = Some w2"
    "keeps_world w1 w2" "nic_alive a core w2"
    by (rule update_nic_alive [OF 1(3), rotated], rule that, assumption+, simp add: nic_core_def)
  have link: "validate_link io a s c w1 = Some (True, w2)"
    using io(4,5) 2(1) link_bits(1) [of v] by (simp add: validate_link_def cf_number_def Let_def)
  obtain w3 where 3: "update_nic a (\<lambda>n. n\<lparr>ni_details := (ni_details n)\<lparr>dn_LinkSpeed := sp\<rparr>\<rparr>) w2 = Some w3"
    "keeps_world w2 w3" "nic_alive a core w3"
    by (rule update_nic_alive [OF 2(3), rotated], rule that, assumption+, simp add: nic_core_def)
  have speed: "validate_speed io a c w2 = Some w3"
    using io(6) 3(1) by (simp add: validate_speed_def cf_number_def)
  obtain w4 where 4: "update_nic a (\<lambda>n. n\<lparr>ni_details := (ni_details n)\<lparr>dn_MediumType :=
      if wl then ik_medium_wifi io else ik_medium_ethernet io\<rparr>\<rparr>) w3 = Some w4"
    "keeps_world w3 w4" "nic_alive a core w4"
    by (rule update_nic_alive [OF 3(3), rotated], rule that, assumption+, simp add: nic_core_def)
  obtain w5 where 5: "(case med of None \<Rightarrow> Some w4
      | Some t \<Rightarrow> update_nic a (\<lambda>n. n\<lparr>ni_details := (ni_details n)\<lparr>dn_MediumType := t\<rparr>\<rparr>) w4) = Some w5"
    "keeps_world w4 w5" "nic_alive a core w5"
  proof (cases med)
    case None
    then show ?thesis using 4(3) by (intro that [of w4]) simp_all
  next
    case (Some t)
    obtain w' where "update_nic a (\<lambda>n. n\<lparr>ni_details := (ni_details n)\<lparr>dn_MediumType := t\<rparr>\<rparr>) w4 = Some w'"
      "keeps_world w4 w'" "nic_alive a core w'"
      by (rule update_nic_alive [OF 4(3), rotated], rule that, assumption+, simp add: nic_core_def)
    with Some show ?thesis by (intro that [of w']) simp_all
  qed
  have medium: "validate_medium io a s c w3 = Some w5"
    using io(8,9) 4(1) 5(1) log_name_alive [OF 5(3)] by (simp add: validate_medium_def)
  obtain w6 where 6: "update_nic a (\<lambda>n. n\<lparr>ni_details := (ni_details n)\<lparr>dn_MTU := ucast mtu\<rparr>\<rparr>) w5 = Some w6"
    "keeps_world w5 w6" "nic_alive a core w6"
    by (rule update_nic_alive [OF 5(3), rotated], rule that, assumption+, simp add: nic_core_def)
  have mtu: "validate_mtu io a s c w5 = Some (True, w6)"
    using io(7) 6(1) by (simp add: validate_mtu_def cf_number_def)
  have "validate_controller io a s w = Some (True, io_release c w6)"
    using io(1,2,3) 1(1) link speed medium mtu by (simp add: validate_controller_def)
  moreover have "keeps_world w w6"
    using 1(2) 2(2) 3(2) 4(2) 5(2) 6(2) by (simp add: keeps_world_def)
  ultimately show ?thesis using that 6(3) by simp
qed

lemma validate_flags_runs:
  assumes ready: "service_ready io s c name" and alive: "nic_alive a core w"
  obtains w' where "validate_flags io a s w = Some (True, w')" "keeps_world w w'" "nic_alive a core w'"
proof -
  obtain v where v: "ik_property io s ''kIOInterfaceFlags'' = Some (RegNumber v)" "v AND 3 \<noteq> 0" "v AND 8 = 0"
    using ready by (auto simp: service_ready_def flags_pass_def)
  obtain w1 where 1: "update_nic a (\<lambda>n. n\<lparr>ni_details := (ni_details n)\<lparr>dn_flags :=
      (ucast (ucast v :: u32) :: u64)\<rparr>\<rparr>) w = Some w1" "keeps_world w w1" "nic_alive a core w1"
    by (rule update_nic_alive [OF alive, rotated], rule that, assumption+, simp add: nic_core_def)
  have "validate_flags io a s w = Some (True, w1)"
    using v 1(1) flag_bits [of v] by (simp add: validate_flags_def cf_number_def Let_def)
  with 1 show ?thesis using that by blast
qed

lemma validate_type_runs:
  assumes ready: "service_ready io s c name" and alive: "nic_alive a core w"
  obtains w' where "validate_type io a s w = Some w'" "keeps_world w w'" "nic_alive a core w'"
proof -
  obtain wl where wl: "IsWirelessInterface io s = Some wl" using ready by (auto simp: service_ready_def)
  obtain w1 where "update_nic a (\<lambda>n. n\<lparr>ni_details := (ni_details n)\<lparr>
      dn_interfaceType := if wl then NetworkInterfaceTypeIEEE80211 else NetworkInterfaceTypeEthernet,
      dn_ifType := if wl then 71 else 6\<rparr>\<rparr>) w = Some w1" "keeps_world w w1" "nic_alive a core w1"
    by (rule update_nic_alive [OF alive, rotated], rule that, assumption+, simp add: nic_core_def)
  with wl show ?thesis using that by (simp add: validate_type_def)
qed

text \<open>After the last two stages: the two notifications, the thread, and what the interface knows of them.\<close>

lemma validate_end_runs:
  assumes ready: "service_ready io s c name" and alive: "nic_alive a core w"
  obtains w1 w' n where "validate_notify io a s w = Some (True, w1)" "validate_thread io a s w1 = Some w'"
    "nic_at w' a = Some n" "nic_core n = core" "ni_notification n = dw_next w + 1"
    "ni_thread n = dw_next w + 2" "dw_next w' = dw_next w + 3" "dw_live w' = dw_live w"
    "dw_notes w' = dw_notes w @ [\<lparr>nt_id = dw_next w, nt_service = s, nt_ref = a\<rparr>,
       \<lparr>nt_id = dw_next w + 1, nt_service = c, nt_ref = a\<rparr>]"
    "dw_threads w' = dw_threads w @ [(dw_next w + 2, a)]" "dw_sockets w' = dw_sockets w"
proof -
  obtain n where n: "a \<in> dw_live w" "dw_nics w a = Some n" "nic_core n = core"
    using alive by (auto simp: nic_alive_def nic_at_def split: if_splits)
  have io: "ik_add_note io s" "ik_add_note io c" "ik_parent io s = Some c" "ik_attr_init io"
    "ik_attr_detach io" "ik_thread io"
    using ready by (auto simp: service_ready_def notes_pass_def thread_passes_def)
  define k where "k = dw_next w"
  let ?n = "n\<lparr>ni_notification := k + 1\<rparr>"
  let ?notes = "dw_notes w @ [\<lparr>nt_id = k, nt_service = s, nt_ref = a\<rparr>, \<lparr>nt_id = k + 1, nt_service = c, nt_ref = a\<rparr>]"
  obtain w1 where 1: "validate_notify io a s w = Some (True, w1)" "dw_live w1 = dw_live w"
    "dw_nics w1 a = Some ?n" "dw_next w1 = k + 2" "dw_notes w1 = ?notes" "dw_threads w1 = dw_threads w"
    "dw_sockets w1 = dw_sockets w"
    using n io that
    by (simp add: validate_notify_def add_note_def update_nic_def nic_at_def put_nic_def Let_def k_def
        io_retain_def io_release_def)
  obtain w' where "validate_thread io a s w1 = Some w'" "dw_live w' = dw_live w"
    "dw_nics w' a = Some (?n\<lparr>ni_thread := k + 2\<rparr>)" "dw_next w' = k + 3" "dw_notes w' = ?notes"
    "dw_threads w' = dw_threads w @ [(k + 2, a)]" "dw_sockets w' = dw_sockets w"
    using n(1) io 1 by (simp add: validate_thread_def update_nic_def nic_at_def put_nic_def Let_def)
  with 1(1) n show ?thesis
    by (intro that [of w1 w' "?n\<lparr>ni_thread := k + 2\<rparr>"]) (simp_all add: nic_at_def nic_core_def k_def)
qed

lemma validateInterface_runs:
  assumes ready: "service_ready io s c name" and alive: "nic_alive a core w"
  obtains w' n where "validateInterface io a s w = Some w'"
    "nic_at w' a = Some n" "nic_core n = core" "ni_notification n = dw_next w + 1"
    "ni_thread n = dw_next w + 2" "dw_next w' = dw_next w + 3" "dw_live w' = dw_live w"
    "dw_notes w' = dw_notes w @ [\<lparr>nt_id = dw_next w, nt_service = s, nt_ref = a\<rparr>,
       \<lparr>nt_id = dw_next w + 1, nt_service = c, nt_ref = a\<rparr>]"
    "dw_threads w' = dw_threads w @ [(dw_next w + 2, a)]" "dw_sockets w' = dw_sockets w"
proof -
  obtain w1 where 1: "validate_controller io a s w = Some (True, w1)" "keeps_world w w1" "nic_alive a core w1"
    by (rule validate_controller_runs [OF ready alive])
  obtain w2 where 2: "validate_flags io a s w1 = Some (True, w2)" "keeps_world w1 w2" "nic_alive a core w2"
    by (rule validate_flags_runs [OF ready 1(3)])
  obtain w3 where 3: "validate_type io a s w2 = Some w3" "keeps_world w2 w3" "nic_alive a core w3"
    by (rule validate_type_runs [OF ready 2(3)])
  have keeps: "keeps_world w w3" using 1(2) 2(2) 3(2) by (simp add: keeps_world_def)
  show ?thesis
    by (rule validate_end_runs [OF ready 3(3)], rule that,
        simp add: validateInterface_def 1(1) 2(1) 3(1), assumption, assumption)
      (use keeps in \<open>simp_all add: keeps_world_def\<close>)
qed

text \<open>Numbers that were not handed out yet.\<close>

definition device_fresh :: "device_world \<Rightarrow> bool" where
  "device_fresh w \<longleftrightarrow> (\<forall>b \<in> dw_live w. b < dw_next w) \<and> (\<forall>x \<in> set (dw_threads w). fst x < dw_next w) \<and>
     (\<forall>x \<in> set (dw_notes w). nt_id x < dw_next w)"

lemma appear_one_runs:
  fixes w :: device_world
  assumes ready: "service_ready io s c name"
  defines "k \<equiv> dw_next w"
  obtains w' n where "appear_one io s w = Some w'" "nic_at w' k = Some n"
    "nic_core n = (k + 7, [k + 2, k + 1, k + 3, k + 5, k + 4, k + 6], [], None, name)"
    "ni_notification n = k + 9" "ni_thread n = k + 10" "dw_next w' = k + 11"
    "dw_live w' = dw_live w \<union> {k, k + 1, k + 2, k + 3, k + 4, k + 5, k + 6, k + 7}"
    "dw_notes w' = dw_notes w @ [\<lparr>nt_id = k + 8, nt_service = s, nt_ref = k\<rparr>,
       \<lparr>nt_id = k + 9, nt_service = c, nt_ref = k\<rparr>]"
    "dw_threads w' = dw_threads w @ [(k + 10, k)]" "dw_sockets w' = dw_sockets w"
proof -
  have io: "\<And>i. ik_malloc io i" "ik_bsd_name io s 0 = Some name" using ready by (simp_all add: service_ready_def)
  let ?live = "insert (k + 7) (insert (k + 6) (insert (k + 5) (insert (k + 4) (insert (k + 3)
    (insert (k + 2) (insert (k + 1) (insert k (dw_live w))))))))"
  let ?core = "(k + 7, [k + 2, k + 1, k + 3, k + 5, k + 4, k + 6], [], None, name)"
  define n0 where "n0 = \<lparr>ni_details = \<lparr>dn_deviceName = name, dn_ifType = 0,
      dn_interfaceType = NetworkInterfaceTypeBond, dn_flags = 0, dn_MediumType = 0, dn_MTU = 0,
      dn_LinkSpeed = 0, dn_socket = 0, dn_macAddress = zero_mac\<rparr>,
    ni_name = k + 7, ni_linkStatus = 0, ni_notification = 0, ni_thread = 0, ni_seeList = [],
    ni_seeListCount = 0, ni_recvBuffer = None, ni_machines = [k + 2, k + 1, k + 3, k + 5, k + 4, k + 6]\<rparr>"
  define wb where "wb = put_nic k n0 (w\<lparr>dw_next := k + 8, dw_live := ?live\<rparr>)"
  have "appear_one io s w = do { w \<leftarrow> validateInterface io k s wb; Some (io_release s w) }"
    unfolding wb_def n0_def
    by (simp add: appear_one_def alloc_machines_def alloc_block_def io k_def eval_nat_numeral)
  moreover have "nic_alive k ?core wb"
    by (simp add: nic_alive_def wb_def n0_def nic_at_def put_nic_def nic_core_def)
  then obtain w' n where "validateInterface io k s wb = Some w'" "nic_at w' k = Some n" "nic_core n = ?core"
    "ni_notification n = dw_next wb + 1" "ni_thread n = dw_next wb + 2" "dw_next w' = dw_next wb + 3"
    "dw_live w' = dw_live wb"
    "dw_notes w' = dw_notes wb @ [\<lparr>nt_id = dw_next wb, nt_service = s, nt_ref = k\<rparr>,
       \<lparr>nt_id = dw_next wb + 1, nt_service = c, nt_ref = k\<rparr>]"
    "dw_threads w' = dw_threads wb @ [(dw_next wb + 2, k)]" "dw_sockets w' = dw_sockets wb"
    by (rule validateInterface_runs [OF ready])
  ultimately show ?thesis
    by (intro that [of "io_release s w'" n]) (auto simp: wb_def put_nic_def)
qed

lemma lltdLoop_open_runs:
  assumes ready: "service_ready io s c name" and n: "nic_at w a = Some n" "ni_name n \<in> dw_live w"
    "dn_deviceName (ni_details n) = name"
  obtains w' n' where "lltdLoop_open io a w = Some (True, w')" "nic_at w' a = Some n'"
    "ni_name n' = ni_name n" "ni_machines n' = ni_machines n" "ni_notification n' = ni_notification n"
    "ni_thread n' = ni_thread n" "ni_seeList n' = []" "ni_recvBuffer n' = Some (dw_next w)"
    "dw_live w' = insert (dw_next w) (dw_live w)" "dw_notes w' = dw_notes w"
    "dw_threads w' = dw_threads w" "dw_sockets w' = ik_socket io # dw_sockets w"
proof -
  have a: "a \<in> dw_live w" "dw_nics w a = Some n" using n(1) by (auto simp: nic_at_def split: if_splits)
  have io: "ik_malloc io (dw_next w)" "\<not> ik_socket io < 0" "ik_bind io" "length name < 16"
    using ready by (auto simp: service_ready_def)
  let ?n = "n\<lparr>ni_details := (ni_details n)\<lparr>dn_socket := ik_socket io\<rparr>, ni_seeList := [],
    ni_recvBuffer := Some (dw_next w)\<rparr>"
  obtain w' where "lltdLoop_open io a w = Some (True, w')" "dw_nics w' a = Some ?n"
    "dw_live w' = insert (dw_next w) (dw_live w)" "dw_notes w' = dw_notes w"
    "dw_threads w' = dw_threads w" "dw_sockets w' = ik_socket io # dw_sockets w"
    using that a n(2,3) io
    by (simp add: lltdLoop_open_def update_nic_def nic_at_def put_nic_def log_name_def alloc_block_def Let_def)
  with a(1) show ?thesis by (intro that [of w' ?n]) (simp_all add: nic_at_def)
qed

lemma terminated_runs:
  assumes n: "nic_at w a = Some n" "ni_name n \<in> dw_live w" "ni_seeList n = []" "ni_recvBuffer n = Some b"
    and blocks: "distinct (a # ni_name n # b # ni_machines n)" "set (b # ni_machines n) \<subseteq> dw_live w"
  obtains w' where "deviceDisappeared io a s ServiceIsTerminated w = Some w'"
    "dw_live w' = dw_live w - set (a # ni_name n # b # ni_machines n)"
    "dw_threads w' = filter (\<lambda>x. fst x \<noteq> ni_thread n) (dw_threads w)"
    "dw_notes w' = filter (\<lambda>x. nt_id x \<noteq> ni_notification n) (dw_notes w)" "dw_sockets w' = dw_sockets w"
proof -
  have a: "a \<in> dw_live w" "dw_nics w a = Some n" using n(1) by (auto simp: nic_at_def split: if_splits)
  have frees: "distinct bs \<Longrightarrow> set bs \<subseteq> dw_live v \<Longrightarrow>
      free_blocks bs v = Some (v\<lparr>dw_live := dw_live v - set bs\<rparr>)" for bs v
  proof (induction bs arbitrary: v)
    case (Cons b bs)
    then have "set bs \<subseteq> dw_live (v\<lparr>dw_live := dw_live v - {b}\<rparr>)" by auto
    with Cons show ?case by (simp add: free_block_def Diff_insert2 [of "dw_live v" b "set bs"])
  qed simp
  let ?n = "n\<lparr>ni_recvBuffer := None, ni_seeList := []\<rparr>"
  define v where "v = put_nic a ?n (w\<lparr>dw_threads := filter (\<lambda>x. fst x \<noteq> ni_thread n) (dw_threads w),
    dw_notes := filter (\<lambda>x. nt_id x \<noteq> ni_notification n) (dw_notes w),
    dw_live := dw_live w - {ni_name n} - {b}\<rparr>)"
  have "deviceDisappeared io a s ServiceIsTerminated w = Option.bind (free_blocks (ni_machines n) v) (free_block a)"
    using a n blocks
    by (simp add: deviceDisappeared_def log_name_def nic_at_def free_block_def pthread_cancel_def
        release_note_def free_recv_buffer_def clean_see_list_def update_nic_def put_nic_def v_def)
  also have "free_blocks (ni_machines n) v = Some (v\<lparr>dw_live := dw_live v - set (ni_machines n)\<rparr>)"
    by (rule frees) (use blocks in \<open>auto simp: v_def put_nic_def\<close>)
  finally have "deviceDisappeared io a s ServiceIsTerminated w =
      Some (v\<lparr>dw_live := dw_live v - set (ni_machines n) - {a}\<rparr>)"
    using a blocks by (simp add: free_block_def v_def put_nic_def)
  then show ?thesis by (rule that) (auto simp: v_def put_nic_def)
qed

lemma device_life_runs:
  assumes ready: "service_ready io s c name" and fresh: "device_fresh w"
  obtains a t w1 w2 w3 x where "appear_one io s w = Some w1" "dw_threads w1 = dw_threads w @ [(t, a)]"
    "lltdLoop_open io a w1 = Some (True, w2)" "deviceDisappeared io a s ServiceIsTerminated w2 = Some w3"
    "dw_live w3 = dw_live w" "dw_threads w3 = dw_threads w" "dw_sockets w3 = ik_socket io # dw_sockets w"
    "dw_notes w3 = dw_notes w @ [x]" "nt_service x = s" "nt_ref x = a" "a \<notin> dw_live w3"
    "x \<in> set (dw_notes w2)"
proof -
  define k where "k = dw_next w"
  obtain w1 n where 1: "appear_one io s w = Some w1" "nic_at w1 k = Some n"
    "nic_core n = (k + 7, [k + 2, k + 1, k + 3, k + 5, k + 4, k + 6], [], None, name)"
    "ni_notification n = k + 9" "ni_thread n = k + 10" "dw_next w1 = k + 11"
    "dw_live w1 = dw_live w \<union> {k, k + 1, k + 2, k + 3, k + 4, k + 5, k + 6, k + 7}"
    "dw_notes w1 = dw_notes w @ [\<lparr>nt_id = k + 8, nt_service = s, nt_ref = k\<rparr>,
       \<lparr>nt_id = k + 9, nt_service = c, nt_ref = k\<rparr>]"
    "dw_threads w1 = dw_threads w @ [(k + 10, k)]" "dw_sockets w1 = dw_sockets w"
    unfolding k_def by (rule appear_one_runs [OF ready])
  have core: "ni_name n = k + 7" "ni_machines n = [k + 2, k + 1, k + 3, k + 5, k + 4, k + 6]"
    "dn_deviceName (ni_details n) = name" "ni_name n \<in> dw_live w1"
    using 1(3,7) by (simp_all add: nic_core_def)
  obtain w2 n2 where 2: "lltdLoop_open io k w1 = Some (True, w2)" "nic_at w2 k = Some n2"
    "ni_name n2 = ni_name n" "ni_machines n2 = ni_machines n" "ni_notification n2 = ni_notification n"
    "ni_thread n2 = ni_thread n" "ni_seeList n2 = []" "ni_recvBuffer n2 = Some (dw_next w1)"
    "dw_live w2 = insert (dw_next w1) (dw_live w1)" "dw_notes w2 = dw_notes w1"
    "dw_threads w2 = dw_threads w1" "dw_sockets w2 = ik_socket io # dw_sockets w1"
    by (rule lltdLoop_open_runs [OF ready 1(2) core(4,3)])
  have blocks: "distinct (k # ni_name n2 # dw_next w1 # ni_machines n2)"
    "set (dw_next w1 # ni_machines n2) \<subseteq> dw_live w2" "ni_name n2 \<in> dw_live w2"
    using 1(6,7) 2(3,4,9) core(1,2) by simp_all
  obtain w3 where 3: "deviceDisappeared io k s ServiceIsTerminated w2 = Some w3"
    "dw_live w3 = dw_live w2 - set (k # ni_name n2 # dw_next w1 # ni_machines n2)"
    "dw_threads w3 = filter (\<lambda>x. fst x \<noteq> ni_thread n2) (dw_threads w2)"
    "dw_notes w3 = filter (\<lambda>x. nt_id x \<noteq> ni_notification n2) (dw_notes w2)" "dw_sockets w3 = dw_sockets w2"
    by (rule terminated_runs [OF 2(2) blocks(3) 2(7,8) blocks(1,2)])
  have old: "b \<in> dw_live w \<Longrightarrow> b < k" "x \<in> set (dw_threads w) \<Longrightarrow> fst x < k"
    "y \<in> set (dw_notes w) \<Longrightarrow> nt_id y < k" for b x y
    using fresh by (auto simp: device_fresh_def k_def)
  have live: "dw_live w3 = dw_live w"
    using 1(6,7) 2(3,4,9) 3(2) core(1,2) by (auto dest: old(1))
  have threads: "dw_threads w3 = dw_threads w"
    using 1(5,9) 2(6,11) 3(3) by (auto simp: filter_id_conv dest: old(2))
  have regs: "dw_notes w3 = dw_notes w @ [\<lparr>nt_id = k + 8, nt_service = s, nt_ref = k\<rparr>]"
    using 1(4,8) 2(5,10) 3(4) by (auto simp: filter_id_conv dest: old(3))
  have dead: "k \<notin> dw_live w3" using live old(1) [of k] by auto
  show ?thesis
    by (rule that [of w1 "k + 10" k w2 w3 "\<lparr>nt_id = k + 8, nt_service = s, nt_ref = k\<rparr>"])
      (use 1(1,9,10) 2(1,12) 3(1,5) 1(8) 2(10) live threads regs dead in simp_all)
qed

lemma dead_message: "a \<notin> dw_live w \<Longrightarrow> deviceDisappeared io a s m w = None \<longleftrightarrow> m \<noteq> OtherMessage"
  by (cases m) (simp_all add: deviceDisappeared_def log_name_def nic_at_def)

text \<open>
  C33.  When IOKit announces a service for which everything works, and then terminates it, the
  daemon gives back every block it allocated and ends the listener thread, but its socket stays
  open, and the notification on the interface stays registered: the pointer in it is dangling,
  because the one on the controller overwrote it, and the next message it delivers has no
  defined outcome, whichever of the messages the handler knows it is.
\<close>

theorem device_life_balanced:
  assumes ready: "service_ready io s c name" and fresh: "device_fresh w"
  shows "\<exists>a t w1 w2 w3 x. appear_one io s w = Some w1 \<and> dw_threads w1 = dw_threads w @ [(t, a)] \<and>
    lltdLoop_open io a w1 = Some (True, w2) \<and>
    deviceDisappeared io a s ServiceIsTerminated w2 = Some w3 \<and>
    dw_live w3 = dw_live w \<and> dw_threads w3 = dw_threads w \<and>
    dw_sockets w3 = ik_socket io # dw_sockets w \<and>
    dw_notes w3 = dw_notes w @ [x] \<and> nt_service x = s \<and> nt_ref x = a \<and>
    (\<forall>m. deviceDisappeared io a s m w3 = None \<longleftrightarrow> m \<noteq> OtherMessage)"
proof -
  obtain a t w1 w2 w3 x where "appear_one io s w = Some w1" "dw_threads w1 = dw_threads w @ [(t, a)]"
    "lltdLoop_open io a w1 = Some (True, w2)" "deviceDisappeared io a s ServiceIsTerminated w2 = Some w3"
    "dw_live w3 = dw_live w" "dw_threads w3 = dw_threads w" "dw_sockets w3 = ik_socket io # dw_sockets w"
    "dw_notes w3 = dw_notes w @ [x]" "nt_service x = s" "nt_ref x = a" "a \<notin> dw_live w3"
    "x \<in> set (dw_notes w2)"
    by (rule device_life_runs [OF ready fresh])
  moreover from dead_message [OF this(11)]
  have "\<forall>m. deviceDisappeared io a s m w3 = None \<longleftrightarrow> m \<noteq> OtherMessage" by blast
  ultimately show ?thesis
    by (intro exI [of _ a] exI [of _ t] exI [of _ w1] exI [of _ w2] exI [of _ w3] exI [of _ x]) simp
qed

section \<open>Validation always ends\<close>















text \<open>What the comments of the source ask of an interface.\<close>

definition fit_to_serve :: "iokit \<Rightarrow> nat \<Rightarrow> bool" where
  "fit_to_serve io s \<longleftrightarrow>
     (\<exists>c. ik_parent io s = Some c \<and> ik_property io c ''kIOMACAddress'' \<noteq> None \<and>
        (\<exists>v. ik_property io c ''kIOLinkStatus'' = Some (RegNumber v) \<and> v AND 3 = 3) \<and>
        (ik_property io c ''kIOMaxPacketSize'' \<noteq> None \<or> ik_property io s ''kIOMaxTransferUnit'' \<noteq> None) \<and>
        ik_add_note io s \<and> ik_add_note io c) \<and>
     (\<exists>v. ik_property io s ''kIOInterfaceFlags'' = Some (RegNumber v) \<and> v AND 3 = 3 \<and> v AND 8 = 0) \<and>
     ik_attr_init io \<and> ik_attr_detach io \<and> ik_thread io"


section \<open>A concrete machine\<close>

text \<open>Service 1 is an Ethernet interface, service 2 its controller.\<close>

definition demo_io :: iokit where
  "demo_io = \<lparr>ik_malloc = (\<lambda>k. True), ik_parent = (\<lambda>s. if s = 1 then Some 2 else None),
     ik_conforms = (\<lambda>s c. False),
     ik_property = (\<lambda>s key. if s = 2 then map_of [(''kIOMACAddress'', RegData [2, 0, 0, 0, 0, 1]),
         (''kIOLinkStatus'', RegNumber 3), (''kIOLinkSpeed'', RegNumber 1000000000),
         (''kIOMaxPacketSize'', RegNumber 1514)] key
       else if s = 1 then map_of [(''kIOInterfaceFlags'', RegNumber 3)] key else None),
     ik_bsd_name = (\<lambda>s i. Some ''en0''), ik_add_note = (\<lambda>s. True), ik_medium_wifi = 0x80,
     ik_medium_ethernet = 0x20, ik_attr_init = True, ik_attr_detach = True, ik_thread = True,
     ik_socket = 4, ik_bind = True\<rparr>"

definition device_world0 :: device_world where
  "device_world0 = \<lparr>dw_next = 1, dw_live = {}, dw_nics = Map.empty, dw_notes = [], dw_threads = [],
     dw_refs = (\<lambda>s. 0), dw_sockets = []\<rparr>"

lemma demo_ready: "service_ready demo_io 1 2 ''en0''"
proof -
  have "IsWirelessInterface demo_io 1 \<noteq> None" "active_medium_type demo_io 2 \<noteq> None"
    by (simp_all add: IsWirelessInterface_def active_medium_type_def CopyCFPropertyRecursive.simps demo_io_def)
  then show ?thesis
    by (simp add: service_ready_def flags_pass_def notes_pass_def thread_passes_def)
      (simp add: demo_io_def)
qed

theorem device_life_balanced_witness:
  "\<exists>a t w1 w2 w3 x. appear_one demo_io 1 device_world0 = Some w1 \<and>
    dw_threads w1 = dw_threads device_world0 @ [(t, a)] \<and>
    lltdLoop_open demo_io a w1 = Some (True, w2) \<and>
    deviceDisappeared demo_io a 1 ServiceIsTerminated w2 = Some w3 \<and>
    dw_live w3 = dw_live device_world0 \<and> dw_threads w3 = dw_threads device_world0 \<and>
    dw_sockets w3 = ik_socket demo_io # dw_sockets device_world0 \<and>
    dw_notes w3 = dw_notes device_world0 @ [x] \<and> nt_service x = 1 \<and> nt_ref x = a \<and>
    (\<forall>m. deviceDisappeared demo_io a 1 m w3 = None \<longleftrightarrow> m \<noteq> OtherMessage)"
  by (rule device_life_balanced [OF demo_ready]) (simp add: device_fresh_def device_world0_def)




lemma demo_fit_to_serve: "fit_to_serve demo_io 1"
  by (simp add: fit_to_serve_def) (simp add: demo_io_def)

text \<open>A link that is neither valid nor active gets a listener as well.\<close>

lemma dead_link_passes:
  "ik_property io c ''kIOLinkStatus'' = Some (RegNumber 0) \<Longrightarrow> link_passes io c"
  by (simp add: link_passes_def)

end
