(* ===== verification/LltdDarwinMain.thy ===== *)
theory LltdDarwinMain
  imports LltdDarwinDeviceProps
begin

text \<open>
  The main of os/darwin/daemon/darwin-main.c: the instance lock, the first scan of the
  services, and the run loop, which calls \<open>deviceAppeared\<close> for new services and
  \<open>deviceDisappeared\<close> for messages to registered notifications, with the pointer the
  notification was registered with; a listener thread opens its socket at any time in
  between.  What IOKit delivers is a sequence of events.
\<close>

section \<open>The run loop\<close>

text \<open>
  Beside the devices, the state of a run holds the threads that have begun: each runs the
  start of \<open>lltdLoop\<close> once.
\<close>

datatype darwin_event = Appeared "nat list" | ThreadStarts nat nat | IOMessage interest io_message

type_synonym run_state = "nat list \<times> device_world"

fun darwin_event_step :: "iokit \<Rightarrow> darwin_event \<Rightarrow> run_state \<Rightarrow> run_state option" where
  "darwin_event_step io (Appeared services) (begun, w) =
     map_option (Pair begun) (deviceAppeared io services w)"
| "darwin_event_step io (ThreadStarts t a) (begun, w) =
     map_option (\<lambda>(reached, w). (t # begun, w)) (lltdLoop_open io a w)"
| "darwin_event_step io (IOMessage x m) (begun, w) =
     map_option (Pair begun) (deviceDisappeared io (nt_ref x) (nt_service x) m w)"

text \<open>IOKit calls a notification only while it is registered; a thread begins once it exists.\<close>

fun event_possible :: "darwin_event \<Rightarrow> run_state \<Rightarrow> bool" where
  "event_possible (Appeared services) (begun, w) = True"
| "event_possible (ThreadStarts t a) (begun, w) = ((t, a) \<in> set (dw_threads w) \<and> t \<notin> set begun)"
| "event_possible (IOMessage x m) (begun, w) = (x \<in> set (dw_notes w))"

inductive run_loop :: "iokit \<Rightarrow> run_state \<Rightarrow> run_state \<Rightarrow> bool" for io s0 where
  run_init: "run_loop io s0 s0"
| run_event: "run_loop io s0 s \<Longrightarrow> event_possible ev s \<Longrightarrow> darwin_event_step io ev s = Some s' \<Longrightarrow>
    run_loop io s0 s'"

inductive_cases run_loopE: "run_loop io s0 s"

text \<open>A state in which an event IOKit may deliver has no defined outcome.\<close>

definition run_loop_faults :: "iokit \<Rightarrow> darwin_event \<Rightarrow> run_state \<Rightarrow> bool" where
  "run_loop_faults io ev s \<longleftrightarrow> event_possible ev s \<and> darwin_event_step io ev s = None"

text \<open>
  \<open>main\<close> up to the run loop: whether it gets there, and the world then.  \<open>services\<close> is what the
  iterator holds, nothing if the notification could not be added.  Without the run loop
  ending, \<open>main\<close> does not return; it returns \<open>EXIT_FAILURE\<close> in every other case.
\<close>

definition darwin_main ::
    "iokit \<Rightarrow> int \<Rightarrow> bool \<Rightarrow> bool \<Rightarrow> nat list \<Rightarrow> device_world \<Rightarrow> (bool \<times> device_world) option" where
  "darwin_main io lockFd locked master_port services w =
     (if fst (acquireInstanceLock lockFd locked) < 0 then Some (False, w)
      else if \<not> master_port then Some (False, w)
      else do {
        w \<leftarrow> deviceAppeared io services w;
        Some (True, w)
      })"

section \<open>Properties\<close>

lemma run_loop_trans:
  assumes "run_loop io s1 s2" "run_loop io s0 s1"
  shows "run_loop io s0 s2"
  using assms by (induction rule: run_loop.induct) (auto intro: run_event)

lemma device_fresh_retain: "device_fresh w \<Longrightarrow> device_fresh (io_retain s w)"
  by (simp add: device_fresh_def io_retain_def)

text \<open>
  C34.  When the daemon holds its lock and finds a service that works, its run loop can reach
  a state in which a notification is still registered with a pointer to a record that was
  freed: the thread of the interface starts, the service is terminated, and any further
  message of the kinds the handler knows has no defined outcome.
\<close>

theorem darwin_run_loop_dangles:
  assumes ready: "service_ready io s c name" and fresh: "device_fresh w" and lock: "0 \<le> lockFd"
  shows "\<exists>w1 w2 begun x. darwin_main io lockFd True True [s] w = Some (True, w1) \<and>
    run_loop io ([], w1) (begun, w2) \<and> x \<in> set (dw_notes w2) \<and> nt_ref x \<notin> dw_live w2 \<and>
    (\<forall>m. run_loop_faults io (IOMessage x m) (begun, w2) \<longleftrightarrow> m \<noteq> OtherMessage)"
proof -
  obtain a t w1 w2 w3 x where life: "appear_one io s (io_retain s w) = Some w1"
    "dw_threads w1 = dw_threads (io_retain s w) @ [(t, a)]" "lltdLoop_open io a w1 = Some (True, w2)"
    "deviceDisappeared io a s ServiceIsTerminated w2 = Some w3" "dw_live w3 = dw_live (io_retain s w)"
    "dw_threads w3 = dw_threads (io_retain s w)" "dw_sockets w3 = ik_socket io # dw_sockets (io_retain s w)"
    "dw_notes w3 = dw_notes (io_retain s w) @ [x]" "nt_service x = s" "nt_ref x = a" "a \<notin> dw_live w3"
    "x \<in> set (dw_notes w2)"
    by (rule device_life_runs [OF ready device_fresh_retain [OF fresh]])
  have "run_loop io ([], w1) ([t], w2)"
    by (rule run_event [OF run_init, where ev = "ThreadStarts t a"]) (simp_all add: life(2,3))
  then have "run_loop io ([], w1) ([t], w3)"
    by (rule run_event [where ev = "IOMessage x ServiceIsTerminated"]) (simp_all add: life(4,9,10,12))
  moreover have "darwin_main io lockFd True True [s] w = Some (True, w1)"
    using lock life(1) by (simp add: darwin_main_def acquireInstanceLock_def)
  moreover have "run_loop_faults io (IOMessage x m) ([t], w3) \<longleftrightarrow> m \<noteq> OtherMessage" for m
    using dead_message [OF life(11), of io s m] life(8-10)
    by (auto simp: run_loop_faults_def deviceDisappeared_def)
  ultimately show ?thesis using life(8,10,11)
    by (intro exI [of _ w1] exI [of _ w3] exI [of _ "[t]"] exI [of _ x]) simp
qed

theorem darwin_run_loop_dangles_witness:
  "\<exists>w1 w2 begun x. darwin_main demo_io 3 True True [1] device_world0 = Some (True, w1) \<and>
    run_loop demo_io ([], w1) (begun, w2) \<and> x \<in> set (dw_notes w2) \<and> nt_ref x \<notin> dw_live w2 \<and>
    (\<forall>m. run_loop_faults demo_io (IOMessage x m) (begun, w2) \<longleftrightarrow> m \<noteq> OtherMessage)"
proof -
  have "device_fresh device_world0" by (simp add: device_fresh_def device_world0_def)
  from darwin_run_loop_dangles [OF demo_ready this, where lockFd = 3] show ?thesis by simp
qed

text \<open>Without the lock nothing is touched.\<close>

lemma darwin_single_instance: "darwin_main io lockFd False master_port services w = Some (False, w)"
  by (simp add: darwin_main_def acquireInstanceLock_def)

end
