(* ===== verification/LltdDaemons.thy ===== *)
theory LltdDaemons
  imports LltdInterfaces
begin

text \<open>
  The mains of the daemons that serve every interface with a thread of its own:
  os/linux/daemon/linux-embedded-main.c, os/esxi/daemon/esxi-main.c,
  os/freebsd/daemon/freebsd-main.c and os/beos/daemon/beos-shared.c (with the interface
  lists of haiku-main.c and beos-legacy-main.c).  What they allocate, open, start, join,
  close and free, from the list of interfaces to the exit code.

  The number of live blocks is the one of \<^typ>\<open>world\<close>; descriptors are a log.  What the
  threads do to their machines until \<open>exitFlag\<close> is set is a parameter, \<open>work\<close>; LltdLoops
  has the loops themselves.  \<open>pthread_create\<close> number \<open>k\<close> succeeds when \<open>spawn k\<close>; its result
  is not tested, so a thread that was not created is joined all the same, which is
  undefined.
\<close>

section \<open>What a daemon owns\<close>

record 'm slot =
  sl_iface :: linux_interface
  sl_machines :: 'm
  sl_thread :: bool

record 'm daemon =
  dm_world :: world
  dm_fds :: "fd_event list"
  dm_slots :: "'m slot list"

text \<open>
  How \<open>main\<close> ends: with 1 before any thread was started, with what was allocated then, or with
  0 after all ended.
\<close>

datatype 'd main_exit = Exit1 world | Exit0 'd

definition free_if :: "bool \<Rightarrow> world \<Rightarrow> world" where
  "free_if p w = (if p then lltd_port_free w else w)"

definition freeAutomata :: "'x automata option \<Rightarrow> world \<Rightarrow> world" where
  "freeAutomata autom w =
     (case autom of None \<Rightarrow> w | Some a \<Rightarrow> lltd_port_free (free_if (extra a \<noteq> None) w))"

text \<open>The machines of one interface: the embedded daemon has no enumeration machine.\<close>

type_synonym machines2 = "mapping_state automata \<times> unit automata"
type_synonym machines3 = "mapping_state automata \<times> unit automata \<times> band_state automata"

definition init_machines2 :: "port \<Rightarrow> world \<Rightarrow> (machines2 \<times> world) option" where
  "init_machines2 P w = do {
     (m, w) \<leftarrow> init_automata_mapping P w;
     (s, w) \<leftarrow> init_automata_session P w;
     Some ((m, s), w)
   }"

definition init_machines3 :: "port \<Rightarrow> world \<Rightarrow> (machines3 \<times> world) option" where
  "init_machines3 P w = do {
     (m, w) \<leftarrow> init_automata_mapping P w;
     (s, w) \<leftarrow> init_automata_session P w;
     (e, w) \<leftarrow> init_automata_enumeration P w;
     Some ((m, s, e), w)
   }"

definition free_machines2 :: "machines2 \<Rightarrow> world \<Rightarrow> world" where
  "free_machines2 = (\<lambda>(m, s) w. freeAutomata (Some s) (freeAutomata (Some m) w))"

definition free_machines3 :: "machines3 \<Rightarrow> world \<Rightarrow> world" where
  "free_machines3 = (\<lambda>(m, s, e) w.
     freeAutomata (Some e) (freeAutomata (Some s) (freeAutomata (Some m) w)))"

section \<open>Starting and stopping\<close>

text \<open>
  The blocks \<open>fillInterfaceDetails\<close> leaves behind are the copy of the name, when it could be
  made, and the receive buffer; a failed call keeps the name in the slot.
\<close>

definition note_fill ::
    "bool \<Rightarrow> nat option \<Rightarrow> fd_event list \<Rightarrow> 'm daemon \<Rightarrow> 'm daemon" where
  "note_fill copied buffer fds d =
     d\<lparr>dm_fds := dm_fds d @ fds, dm_world := (dm_world d)\<lparr>w_live := w_live (dm_world d) +
       (if copied then 1 else 0) + (if buffer \<noteq> None then 1 else 0)\<rparr>\<rparr>"

text \<open>
  The loop over the names.  \<open>cur\<close> is what the next free slot holds: zeros, or what a failed
  \<open>fillInterfaceDetails\<close> left in it.
\<close>

fun start_slots ::
    "bool \<Rightarrow> (linux_interface \<Rightarrow> string \<Rightarrow> fill_result) \<Rightarrow> (string \<Rightarrow> bool) \<Rightarrow>
     (world \<Rightarrow> ('m \<times> world) option) \<Rightarrow> (nat \<Rightarrow> bool) \<Rightarrow> string list \<Rightarrow> linux_interface \<Rightarrow>
     'm daemon \<Rightarrow> 'm daemon option" where
  "start_slots free_names fill copied machines spawn [] cur d = Some d"
| "start_slots free_names fill copied machines spawn (name # names) cur d =
     (let (ok, iface, buffer, fds) = fill cur name;
          d = note_fill (copied name) buffer fds d in
      if \<not> ok then
        start_slots free_names fill copied machines spawn names iface
          (d\<lparr>dm_world := free_if free_names (dm_world d)\<rparr>)
      else do {
        (m, w) \<leftarrow> machines (dm_world d);
        let slot = \<lparr>sl_iface = iface, sl_machines = m, sl_thread = spawn (length (dm_slots d))\<rparr>;
        start_slots free_names fill copied machines spawn names blank_linux
          (d\<lparr>dm_world := free_if free_names w, dm_slots := dm_slots d @ [slot]\<rparr>)
      })"

fun stop_slots ::
    "('m \<Rightarrow> world \<Rightarrow> world) \<Rightarrow> (nat \<Rightarrow> 'm \<Rightarrow> 'm) \<Rightarrow> nat \<Rightarrow> 'm slot list \<Rightarrow> 'm daemon \<Rightarrow>
     'm daemon option" where
  "stop_slots free_machines work k [] d = Some d"
| "stop_slots free_machines work k (s # ss) d =
     (if \<not> sl_thread s then None
      else
        let w = lltd_port_free (lltd_port_free (dm_world d));
            w = free_machines (work k (sl_machines s)) w in
        stop_slots free_machines work (k + 1) ss
          (d\<lparr>dm_fds := dm_fds d @ [FdClose (ln_socket (sl_iface s))], dm_world := w\<rparr>))"

section \<open>The mains\<close>

text \<open>A list of names as a heap object: the array and the names.\<close>

definition own_names :: "string list \<Rightarrow> world \<Rightarrow> world" where
  "own_names names w = w\<lparr>w_live := w_live w + 1 + int (length names)\<rparr>"

text \<open>
  The body the mains of the embedded, ESXi and FreeBSD daemons share.  \<open>sz\<close> is the size of a
  context.  An empty list has no names; an array that was grown before every copy failed is
  not counted.
\<close>

definition serve_names ::
    "port \<Rightarrow> nat \<Rightarrow> (linux_interface \<Rightarrow> string \<Rightarrow> fill_result) \<Rightarrow> (string \<Rightarrow> bool) \<Rightarrow>
     (world \<Rightarrow> ('m \<times> world) option) \<Rightarrow> ('m \<Rightarrow> world \<Rightarrow> world) \<Rightarrow> (nat \<Rightarrow> bool) \<Rightarrow>
     (nat \<Rightarrow> 'm \<Rightarrow> 'm) \<Rightarrow> string list option \<Rightarrow> world \<Rightarrow> 'm daemon main_exit option" where
  "serve_names P sz fill copied machines free_machines spawn work listed w =
     (case listed of
        None \<Rightarrow> Some (Exit1 w)
      | Some names \<Rightarrow>
          if names = [] then Some (Exit1 w)
          else
            let (ok, w) = lltd_port_malloc P (sz * length names) (own_names names w) in
            if \<not> ok then Some (Exit1 w)
            else do {
              d \<leftarrow> start_slots True fill copied machines spawn names blank_linux
                \<lparr>dm_world = w, dm_fds = [], dm_slots = []\<rparr>;
              let d = d\<lparr>dm_world := lltd_port_free (dm_world d)\<rparr>;
              d \<leftarrow> stop_slots free_machines work 0 (dm_slots d) d;
              Some (Exit0 (d\<lparr>dm_world := lltd_port_free (dm_world d)\<rparr>))
            })"

text \<open>The options of the embedded daemon; the last \<open>-i\<close> wins.\<close>

fun only_interface :: "string list \<Rightarrow> string option \<Rightarrow> string option" where
  "only_interface [] only = only"
| "only_interface [a] only = only"
| "only_interface (a # b # args) only =
     (if a = ''-i'' \<or> a = ''--interface'' then only_interface args (Some b)
      else only_interface (b # args) only)"

definition embedded_main ::
    "port \<Rightarrow> nat \<Rightarrow> (string \<Rightarrow> packet_env) \<Rightarrow> (nat \<Rightarrow> bool) \<Rightarrow> (nat \<Rightarrow> machines2 \<Rightarrow> machines2) \<Rightarrow>
     string list \<Rightarrow> string option \<Rightarrow> (nat \<Rightarrow> bool) \<Rightarrow> if_entry list option \<Rightarrow> world \<Rightarrow>
     machines2 daemon main_exit option" where
  "embedded_main P sz sys spawn work argv env ok ifaddr w =
     serve_names P sz (\<lambda>cur name. embedded_fillInterfaceDetails (sys name) cur name)
       (\<lambda>name. pe_strdup (sys name)) (init_machines2 P) free_machines2 spawn work
       (embedded_listInterfaces ok ifaddr (only_interface (tl argv) env)) w"

definition esxi_main ::
    "port \<Rightarrow> nat \<Rightarrow> (string \<Rightarrow> packet_env) \<Rightarrow> (nat \<Rightarrow> bool) \<Rightarrow> (nat \<Rightarrow> machines3 \<Rightarrow> machines3) \<Rightarrow>
     (nat \<Rightarrow> bool) \<Rightarrow> if_entry list option \<Rightarrow> world \<Rightarrow> machines3 daemon main_exit option" where
  "esxi_main P sz sys spawn work ok ifaddr w =
     serve_names P sz (\<lambda>cur name. esxi_fillInterfaceDetails (sys name) cur name)
       (\<lambda>name. pe_strdup (sys name)) (init_machines3 P) free_machines3 spawn work
       (esxi_listInterfaces ok ifaddr) w"

definition freebsd_main ::
    "port \<Rightarrow> nat \<Rightarrow> (string \<Rightarrow> bpf_fill_env) \<Rightarrow> (nat \<Rightarrow> bool) \<Rightarrow> (nat \<Rightarrow> machines3 \<Rightarrow> machines3) \<Rightarrow>
     (nat \<Rightarrow> bool) \<Rightarrow> if_entry list option \<Rightarrow> world \<Rightarrow> machines3 daemon main_exit option" where
  "freebsd_main P sz sys spawn work ok ifaddr w =
     serve_names P sz (\<lambda>cur name. freebsd_fillInterfaceDetails (sys name) cur name)
       (\<lambda>name. pe_strdup (sys name)) (init_machines3 P) free_machines3 spawn work
       (freebsd_listInterfaces ok ifaddr) w"

text \<open>
  BeOS and Haiku: the list is an object of its own, freed at the end by the function that
  belongs to it.  The old BeOS lists every name of \<open>SIOCGIFCONF\<close>, whatever the flags.
\<close>

definition haiku_listInterfaces ::
    "bool \<Rightarrow> (nat \<Rightarrow> bool) \<Rightarrow> if_entry list option \<Rightarrow> string list option" where
  "haiku_listInterfaces list_ok ok ifaddr =
     (case ifaddr of None \<Rightarrow> None
      | Some l \<Rightarrow> if \<not> list_ok then None else Some (collect_names (\<lambda>n. True) ok 0 l []))"

fun legacy_names :: "(nat \<Rightarrow> bool) \<Rightarrow> nat \<Rightarrow> string list \<Rightarrow> string list \<Rightarrow> string list" where
  "legacy_names ok k [] names = names"
| "legacy_names ok k (entry # rest) names =
     (if entry = '''' then legacy_names ok k rest names
      else if \<not> ok k then legacy_names ok (k + 1) rest names
      else if \<not> ok (k + 1) then legacy_names ok (k + 2) rest names
      else legacy_names ok (k + 2) rest (names @ [entry]))"

definition legacy_listInterfaces ::
    "int \<Rightarrow> bool \<Rightarrow> (nat \<Rightarrow> bool) \<Rightarrow> string list option \<Rightarrow> string list option" where
  "legacy_listInterfaces sock list_ok ok ifconf =
     (if sock < 0 then None
      else case ifconf of None \<Rightarrow> None
      | Some reqs \<Rightarrow> if \<not> list_ok then None else Some (legacy_names ok 0 reqs []))"

definition own_list :: "string list \<Rightarrow> world \<Rightarrow> world" where
  "own_list names w = w\<lparr>w_live := w_live w + 2 + int (length names)\<rparr>"

definition freeInterfaceList :: "string list \<Rightarrow> world \<Rightarrow> world" where
  "freeInterfaceList names w =
     lltd_port_free (lltd_port_free (foldl (\<lambda>w n. lltd_port_free w) w names))"

definition runBeosResponder ::
    "port \<Rightarrow> nat \<Rightarrow> (string \<Rightarrow> packet_env) \<Rightarrow> (nat \<Rightarrow> bool) \<Rightarrow> (nat \<Rightarrow> machines3 \<Rightarrow> machines3) \<Rightarrow>
     string list option \<Rightarrow> world \<Rightarrow> machines3 daemon main_exit option" where
  "runBeosResponder P sz sys spawn work listed w =
     (case listed of
        None \<Rightarrow> Some (Exit1 w)
      | Some names \<Rightarrow>
          if names = [] then Some (Exit1 (freeInterfaceList names (own_list names w)))
          else
            let (ok, w) = lltd_port_malloc P (sz * length names) (own_list names w) in
            if \<not> ok then Some (Exit1 (freeInterfaceList names w))
            else do {
              d \<leftarrow> start_slots False (\<lambda>cur name. beos_fillInterfaceDetails (sys name) cur name)
                (\<lambda>name. pe_strdup (sys name)) (init_machines3 P) spawn names blank_linux
                \<lparr>dm_world = w, dm_fds = [], dm_slots = []\<rparr>;
              d \<leftarrow> stop_slots free_machines3 work 0 (dm_slots d) d;
              Some (Exit0 (d\<lparr>dm_world := freeInterfaceList names (lltd_port_free (dm_world d))\<rparr>))
            })"

end
