(* ===== verification/LltdDaemonProps.thy ===== *)
theory LltdDaemonProps
  imports LltdDaemons
begin

text \<open>
  What the daemons leave behind: a contract for \<open>fillInterfaceDetails\<close> and one for the machines
  of an interface, the accounting of blocks and descriptors that follows from them for every
  daemon of LltdDaemons, and its properties.
\<close>

section \<open>Counting descriptors\<close>

definition fd_balance :: "fd_event list \<Rightarrow> int \<Rightarrow> int" where
  "fd_balance es fd = int (length (filter ((=) (FdOpen fd)) es)) - int (length (filter ((=) (FdClose fd)) es))"

lemma fd_balance_simps [simp]:
  "fd_balance [] fd = 0"
  "fd_balance (FdOpen b # es) fd = fd_balance es fd + (if b = fd then 1 else 0)"
  "fd_balance (FdClose b # es) fd = fd_balance es fd - (if b = fd then 1 else 0)"
  "fd_balance (es @ es') fd = fd_balance es fd + fd_balance es' fd"
  by (auto simp: fd_balance_def)

lemma live_free_if [simp]:
  "w_live (free_if p w) = w_live w - (if p then 1 else 0)" "w_live (lltd_port_free w) = w_live w - 1"
  by (simp_all add: free_if_def lltd_port_free_def)

section \<open>Contracts\<close>

text \<open>
  An interface that was opened keeps its name, a buffer and one descriptor; one that was not
  keeps no descriptor.  What the slot held before does not matter.
\<close>

locale interface_filler =
  fixes fill :: "linux_interface \<Rightarrow> string \<Rightarrow> fill_result"
    and copied :: "string \<Rightarrow> bool"
    and opened :: "string \<Rightarrow> bool"
  assumes fill_ok: "fill cur name = (True, iface, buffer, fds) \<Longrightarrow>
      opened name \<and> copied name \<and> buffer \<noteq> None \<and> ln_deviceName iface = name \<and>
      fd_balance fds fd = (if ln_socket iface = fd then 1 else 0)"
    and fill_failed: "fill cur name = (False, iface, buffer, fds) \<Longrightarrow>
      \<not> opened name \<and> buffer = None \<and> fd_balance fds fd = 0"

locale machine_set =
  fixes enough :: bool
    and machines :: "world \<Rightarrow> ('m \<times> world) option"
    and free_machines :: "'m \<Rightarrow> world \<Rightarrow> world"
    and blocks :: "'m \<Rightarrow> int"
    and fresh :: "'m \<Rightarrow> bool"
  assumes machines_run: "enough \<Longrightarrow>
      \<exists>m w'. machines w = Some (m, w') \<and> fresh m \<and> w_live w' = w_live w + blocks m"
    and machines_freed: "w_live (free_machines m w) = w_live w - blocks m"

text \<open>What the slots hold: the name, the buffer and the machines of each.\<close>

definition slot_blocks :: "('m \<Rightarrow> int) \<Rightarrow> 'm slot list \<Rightarrow> int" where
  "slot_blocks blocks ss = sum_list (map (\<lambda>s. 2 + blocks (sl_machines s)) ss)"

definition slot_fds :: "'m slot list \<Rightarrow> int \<Rightarrow> int" where
  "slot_fds ss fd = int (length (filter (\<lambda>s. ln_socket (sl_iface s) = fd) ss))"

definition leaked :: "(string \<Rightarrow> bool) \<Rightarrow> (string \<Rightarrow> bool) \<Rightarrow> string list \<Rightarrow> int" where
  "leaked copied opened names = int (length (filter (\<lambda>n. copied n \<and> \<not> opened n) names))"

lemma slot_sums [simp]:
  "slot_blocks blocks [] = 0" "slot_blocks blocks (s # ss) = 2 + blocks (sl_machines s) + slot_blocks blocks ss"
  "slot_fds [] fd = 0" "slot_fds (s # ss) fd = (if ln_socket (sl_iface s) = fd then 1 else 0) + slot_fds ss fd"
  "leaked copied opened [] = 0"
  "leaked copied opened (n # names) = (if copied n \<and> \<not> opened n then 1 else 0) + leaked copied opened names"
  by (simp_all add: slot_blocks_def slot_fds_def leaked_def)

context machine_set begin

lemma stop_runs:
  assumes "\<forall>s \<in> set ss. sl_thread s" "\<And>k m. blocks (work k m) = blocks m"
  shows "\<exists>d'. stop_slots free_machines work k ss d = Some d' \<and> dm_slots d' = dm_slots d \<and>
    (\<forall>fd. fd_balance (dm_fds d') fd = fd_balance (dm_fds d) fd - slot_fds ss fd) \<and>
    w_live (dm_world d') = w_live (dm_world d) - slot_blocks blocks ss"
  using assms(1)
proof (induction ss arbitrary: k d)
  case (Cons s ss)
  let ?d = "d\<lparr>dm_fds := dm_fds d @ [FdClose (ln_socket (sl_iface s))],
    dm_world := free_machines (work k (sl_machines s)) (lltd_port_free (lltd_port_free (dm_world d)))\<rparr>"
  have "w_live (dm_world ?d) = w_live (dm_world d) - 2 - blocks (sl_machines s)"
    by (simp add: machines_freed assms(2) lltd_port_free_def)
  with Cons.IH [of "k + 1" ?d] Cons.prems show ?case by (auto simp: Let_def)
qed simp

end

locale daemon_parts = interface_filler fill copied opened + machine_set enough machines free_machines blocks fresh
  for fill copied opened enough machines free_machines blocks fresh
begin

lemma start_runs:
  assumes "enough" "\<forall>k. spawn k"
  shows "\<exists>d' new. start_slots fn fill copied machines spawn names cur d = Some d' \<and>
    dm_slots d' = dm_slots d @ new \<and> map (\<lambda>s. ln_deviceName (sl_iface s)) new = filter opened names \<and>
    (\<forall>s \<in> set new. sl_thread s \<and> fresh (sl_machines s)) \<and>
    (\<forall>fd. fd_balance (dm_fds d') fd = fd_balance (dm_fds d) fd + slot_fds new fd) \<and>
    w_live (dm_world d') = w_live (dm_world d) + slot_blocks blocks new + leaked copied opened names -
      (if fn then int (length names) else 0)"
proof (induction names arbitrary: cur d)
  case (Cons name names)
  obtain ok iface buffer fds where fill: "fill cur name = (ok, iface, buffer, fds)" by (metis prod_cases4)
  define d1 where "d1 = note_fill (copied name) buffer fds d"
  have d1: "dm_slots d1 = dm_slots d" "dm_fds d1 = dm_fds d @ fds"
    "w_live (dm_world d1) = w_live (dm_world d) + (if copied name then 1 else 0) + (if buffer \<noteq> None then 1 else 0)"
    by (simp_all add: d1_def note_fill_def)
  show ?case
  proof (cases ok)
    case False
    from fill False have "fill cur name = (False, iface, buffer, fds)" by simp
    note f = fill_failed [OF this]
    let ?d = "d1\<lparr>dm_world := free_if fn (dm_world d1)\<rparr>"
    obtain d' new where r: "start_slots fn fill copied machines spawn names iface ?d = Some d'"
      "dm_slots d' = dm_slots ?d @ new" "map (\<lambda>s. ln_deviceName (sl_iface s)) new = filter opened names"
      "\<forall>s \<in> set new. sl_thread s \<and> fresh (sl_machines s)"
      "\<forall>fd. fd_balance (dm_fds d') fd = fd_balance (dm_fds ?d) fd + slot_fds new fd"
      "w_live (dm_world d') = w_live (dm_world ?d) + slot_blocks blocks new + leaked copied opened names -
        (if fn then int (length names) else 0)"
      using Cons.IH [of iface ?d] by blast
    have "start_slots fn fill copied machines spawn (name # names) cur d = Some d'"
      using r(1) by (simp add: fill False d1_def [symmetric])
    with r(2-) d1 f show ?thesis
      by (intro exI [of _ d'] exI [of _ new]) (simp del: start_slots.simps)
  next
    case True
    from fill True have "fill cur name = (True, iface, buffer, fds)" by simp
    note f = fill_ok [OF this]
    obtain m w where m: "machines (dm_world d1) = Some (m, w)" "fresh m"
      "w_live w = w_live (dm_world d1) + blocks m"
      using machines_run [OF assms(1)] by blast
    define s where "s = \<lparr>sl_iface = iface, sl_machines = m, sl_thread = spawn (length (dm_slots d1))\<rparr>"
    let ?d = "d1\<lparr>dm_world := free_if fn w, dm_slots := dm_slots d1 @ [s]\<rparr>"
    obtain d' new where r: "start_slots fn fill copied machines spawn names blank_linux ?d = Some d'"
      "dm_slots d' = dm_slots ?d @ new" "map (\<lambda>s. ln_deviceName (sl_iface s)) new = filter opened names"
      "\<forall>s \<in> set new. sl_thread s \<and> fresh (sl_machines s)"
      "\<forall>fd. fd_balance (dm_fds d') fd = fd_balance (dm_fds ?d) fd + slot_fds new fd"
      "w_live (dm_world d') = w_live (dm_world ?d) + slot_blocks blocks new + leaked copied opened names -
        (if fn then int (length names) else 0)"
      using Cons.IH [of blank_linux ?d] by blast
    have "start_slots fn fill copied machines spawn (name # names) cur d = Some d'"
      using r(1) by (simp add: fill True d1_def [symmetric] m(1) s_def)
    with r(2-) d1 f m(2,3) spec [OF assms(2), of "length (dm_slots d)"] show ?thesis
      by (intro exI [of _ d'] exI [of _ "s # new"])
        (simp del: start_slots.simps add: s_def)
  qed
qed simp

lemma serve_runs:
  assumes "enough" "\<forall>k n. p_malloc P k n" "\<forall>k. spawn k" "\<And>k m. blocks (work k m) = blocks m" "names \<noteq> []"
  shows "\<exists>d. serve_names P sz fill copied machines free_machines spawn work (Some names) w = Some (Exit0 d) \<and>
    map (\<lambda>s. ln_deviceName (sl_iface s)) (dm_slots d) = filter opened names \<and>
    (\<forall>s \<in> set (dm_slots d). fresh (sl_machines s)) \<and> (\<forall>fd. fd_balance (dm_fds d) fd = 0) \<and>
    w_live (dm_world d) = w_live w + leaked copied opened names"
proof -
  obtain w1 where w1: "lltd_port_malloc P (sz * length names) (own_names names w) = (True, w1)"
    "w_live w1 = w_live w + 2 + int (length names)"
    using assms(2) by (simp add: lltd_port_malloc_def Let_def own_names_def)
  let ?d0 = "\<lparr>dm_world = w1, dm_fds = [], dm_slots = []\<rparr>"
  obtain d1 new where 1: "start_slots True fill copied machines spawn names blank_linux ?d0 = Some d1"
    "dm_slots d1 = new" "map (\<lambda>s. ln_deviceName (sl_iface s)) new = filter opened names"
    "\<forall>s \<in> set new. sl_thread s \<and> fresh (sl_machines s)" "\<forall>fd. fd_balance (dm_fds d1) fd = slot_fds new fd"
    "w_live (dm_world d1) = w_live w1 + slot_blocks blocks new + leaked copied opened names - int (length names)"
    using start_runs [OF assms(1,3), of True names blank_linux ?d0] by auto
  let ?d2 = "d1\<lparr>dm_world := lltd_port_free (dm_world d1)\<rparr>"
  obtain d3 where 3: "stop_slots free_machines work 0 new ?d2 = Some d3" "dm_slots d3 = new"
    "\<forall>fd. fd_balance (dm_fds d3) fd = fd_balance (dm_fds d1) fd - slot_fds new fd"
    "w_live (dm_world d3) = w_live (dm_world d1) - 1 - slot_blocks blocks new"
    using stop_runs [of new work 0 ?d2] assms(4) 1(2,4) by (auto simp: lltd_port_free_def)
  show ?thesis
    using assms(5) w1 1 3
    by (intro exI [of _ "d3\<lparr>dm_world := lltd_port_free (dm_world d3)\<rparr>"])
      (simp add: serve_names_def lltd_port_free_def)
qed

end

section \<open>The daemons keep the contracts\<close>

definition packet_opens :: "packet_env \<Rightarrow> bool" where
  "packet_opens sys \<longleftrightarrow> pe_strdup sys \<and> pe_ifindex sys \<noteq> 0 \<and> 0 \<le> pe_socket sys \<and> pe_bind sys \<and>
     pe_malloc sys (unat (case pe_mtu sys of Some m \<Rightarrow> m | None \<Rightarrow> 1500))"

definition bpf_opens :: "bpf_fill_env \<Rightarrow> bool" where
  "bpf_opens sys \<longleftrightarrow> pe_strdup sys \<and> 0 \<le> openBpfDevice (pe_bpf sys) \<and> pe_setif sys \<and>
     pe_malloc sys (unat (if 0 \<le> pe_socket sys then case pe_mtu sys of Some m \<Rightarrow> m | None \<Rightarrow> 1500 else 1500) +
       pe_bpf_hdr_size sys)"

definition automata_blocks :: "'x automata \<Rightarrow> int" where
  "automata_blocks a = 1 + (if extra a = None then 0 else 1)"

definition blocks2 :: "machines2 \<Rightarrow> int" where
  "blocks2 = (\<lambda>(m, s). automata_blocks m + automata_blocks s)"

definition blocks3 :: "machines3 \<Rightarrow> int" where
  "blocks3 = (\<lambda>(m, s, e). automata_blocks m + automata_blocks s + automata_blocks e)"

text \<open>The machines in the states their constructors give them, on which the receive loops can run.\<close>

definition fresh2 :: "machines2 \<Rightarrow> bool" where
  "fresh2 = (\<lambda>(m, s). mapping_in Quiescent m \<and> session_in Nascent s)"

definition fresh3 :: "machines3 \<Rightarrow> bool" where
  "fresh3 = (\<lambda>(m, s, e). mapping_in Quiescent m \<and> session_in Nascent s \<and> enum_in EnumQuiescent e)"

lemma fresh2_loop_ok: "fresh2 (m, s) \<Longrightarrow> loop_ok \<lparr>lc_mapping = m, lc_session = s, lc_states = []\<rparr>"
  by (auto simp: fresh2_def loop_ok_def states_ok_def)

lemma fresh3_full_ok:
  "fresh3 (lc_mapping c, lc_session c, lc_enumeration c) \<Longrightarrow> lc_states c = [] \<Longrightarrow> full_ok c"
  by (auto simp: fresh3_def full_ok_def loop_ok_def states_ok_def)

lemma live_freeAutomata: "w_live (freeAutomata (Some a) w) = w_live w - automata_blocks a"
  by (simp add: freeAutomata_def automata_blocks_def)

lemma init_mapping_runs:
  assumes "\<forall>k n. p_malloc P k n"
  shows "\<exists>m w'. init_automata_mapping P w = Some (m, w') \<and> mapping_in Quiescent m \<and>
    w_live w' = w_live w + automata_blocks m"
  using assms
  by (simp add: init_automata_mapping_def lltd_port_malloc_def Let_def case_prod_beta mapping_in_def
      automata_blocks_def lltd_monotonic_seconds_def lltd_port_monotonic_seconds_def)

lemma init_session_runs:
  assumes "\<forall>k n. p_malloc P k n"
  shows "\<exists>s w'. init_automata_session P w = Some (s, w') \<and> session_in Nascent s \<and>
    w_live w' = w_live w + automata_blocks s"
  using assms
  by (simp add: init_automata_session_def lltd_port_malloc_def Let_def case_prod_beta session_in_def
      automata_blocks_def lltd_monotonic_seconds_def lltd_port_monotonic_seconds_def)

lemma init_enumeration_runs:
  assumes "\<forall>k n. p_malloc P k n"
  shows "\<exists>e w'. init_automata_enumeration P w = Some (e, w') \<and> enum_in EnumQuiescent e \<and>
    w_live w' = w_live w + automata_blocks e"
  using assms
  by (simp add: init_automata_enumeration_def lltd_port_malloc_def Let_def case_prod_beta enum_in_def
      automata_blocks_def lltd_monotonic_seconds_def lltd_port_monotonic_seconds_def)

lemma init_machines2_runs:
  assumes "\<forall>k n. p_malloc P k n"
  shows "\<exists>ms w'. init_machines2 P w = Some (ms, w') \<and> fresh2 ms \<and> w_live w' = w_live w + blocks2 ms"
proof -
  obtain m w1 where m: "init_automata_mapping P w = Some (m, w1)" "mapping_in Quiescent m"
    "w_live w1 = w_live w + automata_blocks m" using init_mapping_runs [OF assms] by blast
  obtain s w2 where s: "init_automata_session P w1 = Some (s, w2)" "session_in Nascent s"
    "w_live w2 = w_live w1 + automata_blocks s" using init_session_runs [OF assms] by blast
  from m s show ?thesis
    by (intro exI [of _ "(m, s)"] exI [of _ w2])
      (simp add: init_machines2_def fresh2_def blocks2_def)
qed

lemma init_machines3_runs:
  assumes "\<forall>k n. p_malloc P k n"
  shows "\<exists>ms w'. init_machines3 P w = Some (ms, w') \<and> fresh3 ms \<and> w_live w' = w_live w + blocks3 ms"
proof -
  obtain m w1 where m: "init_automata_mapping P w = Some (m, w1)" "mapping_in Quiescent m"
    "w_live w1 = w_live w + automata_blocks m" using init_mapping_runs [OF assms] by blast
  obtain s w2 where s: "init_automata_session P w1 = Some (s, w2)" "session_in Nascent s"
    "w_live w2 = w_live w1 + automata_blocks s" using init_session_runs [OF assms] by blast
  obtain e w3 where e: "init_automata_enumeration P w2 = Some (e, w3)" "enum_in EnumQuiescent e"
    "w_live w3 = w_live w2 + automata_blocks e" using init_enumeration_runs [OF assms] by blast
  from m s e show ?thesis
    by (intro exI [of _ "(m, s, e)"] exI [of _ w3])
      (simp add: init_machines3_def fresh3_def blocks3_def)
qed

text \<open>Memory is enough when no allocation fails.\<close>

interpretation two: machine_set "\<forall>k n. p_malloc P k n" "init_machines2 P" free_machines2 blocks2 fresh2
  for P
  by unfold_locales
    (rule init_machines2_runs, assumption, simp add: free_machines2_def case_prod_beta live_freeAutomata blocks2_def)

interpretation three: machine_set "\<forall>k n. p_malloc P k n" "init_machines3 P" free_machines3 blocks3 fresh3
  for P
  by unfold_locales
    (rule init_machines3_runs, assumption, simp add: free_machines3_def case_prod_beta live_freeAutomata blocks3_def)

interpretation embedded: daemon_parts "\<lambda>cur name. embedded_fillInterfaceDetails (sys name) cur name"
  "\<lambda>name. pe_strdup (sys name)" "\<lambda>name. packet_opens (sys name)" "\<forall>k n. p_malloc P k n"
  "init_machines2 P" free_machines2 blocks2 fresh2 for P sys
  by unfold_locales
    (auto simp: embedded_fillInterfaceDetails_def packet_opens_def Let_def split: if_splits option.splits)

interpretation esxi: daemon_parts "\<lambda>cur name. esxi_fillInterfaceDetails (sys name) cur name"
  "\<lambda>name. pe_strdup (sys name)" "\<lambda>name. packet_opens (sys name)" "\<forall>k n. p_malloc P k n"
  "init_machines3 P" free_machines3 blocks3 fresh3 for P sys
  by unfold_locales
    (auto simp: esxi_fillInterfaceDetails_def packet_opens_def Let_def split: if_splits option.splits)

interpretation beos: daemon_parts "\<lambda>cur name. beos_fillInterfaceDetails (sys name) cur name"
  "\<lambda>name. pe_strdup (sys name)" "\<lambda>name. packet_opens (sys name)" "\<forall>k n. p_malloc P k n"
  "init_machines3 P" free_machines3 blocks3 fresh3 for P sys
  by unfold_locales
    (auto simp: beos_fillInterfaceDetails_def packet_opens_def Let_def split: if_splits option.splits)

interpretation freebsd: daemon_parts "\<lambda>cur name. freebsd_fillInterfaceDetails (sys name) cur name"
  "\<lambda>name. pe_strdup (sys name)" "\<lambda>name. bpf_opens (sys name)" "\<forall>k n. p_malloc P k n"
  "init_machines3 P" free_machines3 blocks3 fresh3 for P sys
  by unfold_locales
    (auto simp: freebsd_fillInterfaceDetails_def bpf_opens_def Let_def split: if_splits option.splits)

section \<open>Properties\<close>

text \<open>
  C36.  The embedded daemon, when it lists an interface, memory suffices and every thread is
  created, serves exactly the interfaces it can open, each with fresh machines; at the end every descriptor it opened is closed, and of its blocks only the copies of
  the names of interfaces that could not be opened are left.
\<close>

theorem embedded_daemon_ends:
  assumes "\<forall>k n. p_malloc P k n" "\<forall>k. spawn k" "\<forall>k ms. blocks2 (work k ms) = blocks2 ms"
    and "embedded_listInterfaces ok ifaddr (only_interface (tl argv) env) = Some names" "names \<noteq> []"
  shows "\<exists>d. embedded_main P sz sys spawn work argv env ok ifaddr w = Some (Exit0 d) \<and>
    map (\<lambda>s. ln_deviceName (sl_iface s)) (dm_slots d) = filter (\<lambda>n. packet_opens (sys n)) names \<and>
    (\<forall>s \<in> set (dm_slots d). fresh2 (sl_machines s)) \<and> (\<forall>fd. fd_balance (dm_fds d) fd = 0) \<and>
    w_live (dm_world d) = w_live w +
      int (length (filter (\<lambda>n. pe_strdup (sys n) \<and> \<not> packet_opens (sys n)) names))"
proof -
  have "blocks2 (work k ms) = blocks2 ms" for k ms using assms(3) by blast
  from embedded.serve_runs [OF assms(1,1,2) this assms(5), where sz = sz and sys = sys and w = w] assms(4)
  show ?thesis by (simp add: embedded_main_def leaked_def)
qed

definition demo_two :: "if_entry list" where
  "demo_two = [\<lparr>ife_name = Some ''eth0'', ife_flags = 1\<rparr>, \<lparr>ife_name = Some ''eth1'', ife_flags = 1\<rparr>]"

definition demo_sys :: "string \<Rightarrow> packet_env" where
  "demo_sys n = (if n = ''eth1'' then demo_packet_env\<lparr>pe_bind := False\<rparr> else demo_packet_env)"

lemma demo_two_listed:
  "embedded_listInterfaces (\<lambda>k. True) (Some demo_two) (only_interface (tl [''lltd'']) None) = Some [''eth0'', ''eth1'']"
  "haiku_listInterfaces True (\<lambda>k. True) (Some demo_two) = Some [''eth0'', ''eth1'']"
  by code_simp+

lemma demo_sys_simps:
  "packet_opens (demo_sys ''eth0'')" "\<not> packet_opens (demo_sys ''eth1'')" "pe_strdup (demo_sys n)"
  by (simp_all add: packet_opens_def demo_sys_def demo_packet_env_def)

theorem embedded_daemon_ends_witness:
  "\<exists>d. embedded_main (linux_port demo_linux_env (\<lambda>i. demo_linux)) 64 demo_sys (\<lambda>k. True) (\<lambda>k ms. ms)
      [''lltd''] None (\<lambda>k. True) (Some demo_two) world0 = Some (Exit0 d) \<and>
    map (\<lambda>s. ln_deviceName (sl_iface s)) (dm_slots d) = [''eth0''] \<and> w_live (dm_world d) = 1"
proof -
  have "\<forall>k n. p_malloc (linux_port demo_linux_env (\<lambda>i. demo_linux)) k n"
    by (simp add: linux_port_def demo_linux_env_def)
  from embedded_daemon_ends [OF this _ _ demo_two_listed(1), where spawn = "\<lambda>k. True"
      and work = "\<lambda>k ms. ms" and sz = 64 and sys = demo_sys and w = world0]
  show ?thesis by (auto simp: demo_sys_simps world0_def)
qed

text \<open>
  The FreeBSD daemon does the same with BPF devices: the socket it opens for the
  queries and the device are closed on every path.
\<close>

theorem freebsd_daemon_ends:
  assumes "\<forall>k n. p_malloc P k n" "\<forall>k. spawn k" "\<forall>k ms. blocks3 (work k ms) = blocks3 ms"
    and "freebsd_listInterfaces ok ifaddr = Some names" "names \<noteq> []"
  shows "\<exists>d. freebsd_main P sz sys spawn work ok ifaddr w = Some (Exit0 d) \<and>
    map (\<lambda>s. ln_deviceName (sl_iface s)) (dm_slots d) = filter (\<lambda>n. bpf_opens (sys n)) names \<and>
    (\<forall>s \<in> set (dm_slots d). fresh3 (sl_machines s)) \<and> (\<forall>fd. fd_balance (dm_fds d) fd = 0) \<and>
    w_live (dm_world d) = w_live w +
      int (length (filter (\<lambda>n. pe_strdup (sys n) \<and> \<not> bpf_opens (sys n)) names))"
proof -
  have "blocks3 (work k ms) = blocks3 ms" for k ms using assms(3) by blast
  from freebsd.serve_runs [OF assms(1,1,2) this assms(5), where sz = sz and sys = sys and w = w] assms(4)
  show ?thesis by (simp add: freebsd_main_def leaked_def)
qed

definition demo_bpf_sys :: "string \<Rightarrow> bpf_fill_env" where
  "demo_bpf_sys n = \<lparr>pe_strdup = True, pe_ifindex = 2, pe_socket = 9, pe_bind = True, pe_mtu = Some 1500,
     pe_hwaddr = None, pe_flags = None, pe_malloc = (\<lambda>n. True), pe_bpf = (\<lambda>i. if i = 3 then 7 else - 1),
     pe_setif = (n \<noteq> ''eth1''), pe_bpf_hdr_size = 18\<rparr>"

lemma demo_bpf_opens: "bpf_opens (demo_bpf_sys n) \<longleftrightarrow> n \<noteq> ''eth1''"
proof -
  have "openBpfDevice (\<lambda>i. if i = 3 then 7 else - 1) = 7" by code_simp
  then show ?thesis by (simp add: bpf_opens_def demo_bpf_sys_def)
qed

lemma demo_two_freebsd: "freebsd_listInterfaces (\<lambda>k. True) (Some demo_two) = Some [''eth0'', ''eth1'']"
  by code_simp

lemma demo_linux_malloc: "\<forall>k n. p_malloc (linux_port demo_linux_env (\<lambda>i. demo_linux)) k n"
  by (simp add: linux_port_def demo_linux_env_def)

theorem freebsd_daemon_ends_witness:
  "\<exists>d. freebsd_main (linux_port demo_linux_env (\<lambda>i. demo_linux)) 64 demo_bpf_sys (\<lambda>k. True) (\<lambda>k ms. ms)
      (\<lambda>k. True) (Some demo_two) world0 = Some (Exit0 d) \<and>
    map (\<lambda>s. ln_deviceName (sl_iface s)) (dm_slots d) = [''eth0''] \<and> fd_balance (dm_fds d) 7 = 0"
  using freebsd_daemon_ends [OF demo_linux_malloc _ _ demo_two_freebsd, where spawn = "\<lambda>k. True"
      and work = "\<lambda>k ms. ms" and sz = 64 and sys = demo_bpf_sys and w = world0]
  by (auto simp: demo_bpf_opens)

lemma live_freeInterfaceList: "w_live (freeInterfaceList names w) = w_live w - 2 - int (length names)"
proof -
  have "w_live (foldl (\<lambda>w n. lltd_port_free w) w names) = w_live w - int (length names)" for w
    by (induction names arbitrary: w) simp_all
  then show ?thesis by (simp add: freeInterfaceList_def)
qed

text \<open>
  The BeOS and Haiku daemon also frees its list of names; the copies of the names of
  interfaces that could not be opened are left as well.
\<close>

theorem beos_daemon_ends:
  assumes "\<forall>k n. p_malloc P k n" "\<forall>k. spawn k" "\<forall>k ms. blocks3 (work k ms) = blocks3 ms"
    and "haiku_listInterfaces list_ok ok ifaddr = Some names" "names \<noteq> []"
  shows "\<exists>d. runBeosResponder P sz sys spawn work (haiku_listInterfaces list_ok ok ifaddr) w = Some (Exit0 d) \<and>
    map (\<lambda>s. ln_deviceName (sl_iface s)) (dm_slots d) = filter (\<lambda>n. packet_opens (sys n)) names \<and>
    (\<forall>s \<in> set (dm_slots d). fresh3 (sl_machines s)) \<and> (\<forall>fd. fd_balance (dm_fds d) fd = 0) \<and>
    w_live (dm_world d) = w_live w +
      int (length (filter (\<lambda>n. pe_strdup (sys n) \<and> \<not> packet_opens (sys n)) names))"
proof -
  have work: "blocks3 (work k ms) = blocks3 ms" for k ms using assms(3) by blast
  obtain w1 where w1: "lltd_port_malloc P (sz * length names) (own_list names w) = (True, w1)"
    "w_live w1 = w_live w + 3 + int (length names)"
    using assms(1) by (simp add: lltd_port_malloc_def Let_def own_list_def)
  let ?d0 = "\<lparr>dm_world = w1, dm_fds = [], dm_slots = []\<rparr> :: machines3 daemon"
  obtain d1 new where 1: "start_slots False (\<lambda>cur name. beos_fillInterfaceDetails (sys name) cur name)
      (\<lambda>name. pe_strdup (sys name)) (init_machines3 P) spawn names blank_linux ?d0 = Some d1"
    "dm_slots d1 = new"
    "map (\<lambda>s. ln_deviceName (sl_iface s)) new = filter (\<lambda>n. packet_opens (sys n)) names"
    "\<forall>s \<in> set new. sl_thread s \<and> fresh3 (sl_machines s)" "\<forall>fd. fd_balance (dm_fds d1) fd = slot_fds new fd"
    "w_live (dm_world d1) = w_live w1 + slot_blocks blocks3 new +
      leaked (\<lambda>n. pe_strdup (sys n)) (\<lambda>n. packet_opens (sys n)) names"
    using beos.start_runs [OF assms(1,2), of False sys names blank_linux ?d0] by auto
  obtain d2 where 2: "stop_slots free_machines3 work 0 new d1 = Some d2" "dm_slots d2 = new"
    "\<forall>fd. fd_balance (dm_fds d2) fd = fd_balance (dm_fds d1) fd - slot_fds new fd"
    "w_live (dm_world d2) = w_live (dm_world d1) - slot_blocks blocks3 new"
    using three.stop_runs [of new work 0 d1] work 1(2,4) by auto
  show ?thesis
    using assms(4,5) w1 1 2
    by (intro exI [of _ "d2\<lparr>dm_world := freeInterfaceList names (lltd_port_free (dm_world d2))\<rparr>"])
      (simp add: runBeosResponder_def live_freeInterfaceList leaked_def)
qed

theorem beos_daemon_ends_witness:
  "\<exists>d. runBeosResponder (linux_port demo_linux_env (\<lambda>i. demo_linux)) 64 demo_sys (\<lambda>k. True) (\<lambda>k ms. ms)
      (haiku_listInterfaces True (\<lambda>k. True) (Some demo_two)) world0 = Some (Exit0 d) \<and>
    map (\<lambda>s. ln_deviceName (sl_iface s)) (dm_slots d) = [''eth0''] \<and> w_live (dm_world d) = 1"
  using beos_daemon_ends [OF demo_linux_malloc _ _ demo_two_listed(2), where spawn = "\<lambda>k. True"
      and work = "\<lambda>k ms. ms" and sz = 64 and sys = demo_sys and w = world0]
  by (auto simp: demo_sys_simps world0_def)

end
