(* ===== verification/LltdSystemd.thy ===== *)
theory LltdSystemd
  imports LltdDaemonProps
begin

text \<open>
  The daemon of os/linux/daemon/linux-main.c: what it asks D-Bus (hostnamed and
  NetworkManager), the devices it binds, and its main.  The answers of the bus, the addresses
  \<open>realloc\<close> returns and what the threads do to their machines are parameters; the reply, the
  error and the bus are objects of the library and are not counted.
\<close>

section \<open>D-Bus\<close>

record bus_env =
  be_string :: "string \<Rightarrow> string \<Rightarrow> string \<Rightarrow> string \<Rightarrow> string option"
  be_u32 :: "string \<Rightarrow> string \<Rightarrow> string \<Rightarrow> string \<Rightarrow> u32 option"
  be_machine_id :: "string option"
  be_devices :: "string option list option"
  be_grow :: "nat \<Rightarrow> nat option"

definition NM_BUS_NAME :: string where "NM_BUS_NAME = ''org.freedesktop.NetworkManager''"
definition NM_DEVICE_INTERFACE :: string where
  "NM_DEVICE_INTERFACE = ''org.freedesktop.NetworkManager.Device''"
definition NM_ACTIVE_CONNECTION_INTERFACE :: string where
  "NM_ACTIVE_CONNECTION_INTERFACE = ''org.freedesktop.NetworkManager.Connection.Active''"
abbreviation (input) NM_DEVICE_TYPE_ETHERNET :: u32 where "NM_DEVICE_TYPE_ETHERNET \<equiv> 1"
abbreviation (input) NM_DEVICE_TYPE_WIFI :: u32 where "NM_DEVICE_TYPE_WIFI \<equiv> 2"
definition HOSTNAME1 :: string where "HOSTNAME1 = ''org.freedesktop.hostname1''"
definition HOSTNAME1_PATH :: string where "HOSTNAME1_PATH = ''/org/freedesktop/hostname1''"
abbreviation (input) SD_ID128_STRING_MAX :: nat where "SD_ID128_STRING_MAX \<equiv> 33"

text \<open>A string the library allocated, or none.\<close>

definition take_if :: "bool \<Rightarrow> world \<Rightarrow> world" where
  "take_if p w = w\<lparr>w_live := w_live w + (if p then 1 else 0)\<rparr>"

definition copyBusPropertyString ::
    "bus_env \<Rightarrow> string \<Rightarrow> string \<Rightarrow> string \<Rightarrow> string \<Rightarrow> world \<Rightarrow> string option \<times> world" where
  "copyBusPropertyString B service path interface property w =
     (let v = be_string B service path interface property in (v, take_if (v \<noteq> None) w))"

definition getBusPropertyU32 :: "bus_env \<Rightarrow> string \<Rightarrow> string \<Rightarrow> string \<Rightarrow> string \<Rightarrow> u32" where
  "getBusPropertyU32 B service path interface property =
     (case be_u32 B service path interface property of None \<Rightarrow> 0 | Some v \<Rightarrow> v)"

section \<open>The host\<close>

record host_info =
  hi_hostname :: "string option"
  hi_iconName :: "string option"
  hi_uuid :: "string option"

definition free_host :: "host_info \<Rightarrow> world \<Rightarrow> world" where
  "free_host h w =
     free_if (hi_uuid h \<noteq> None) (free_if (hi_iconName h \<noteq> None) (free_if (hi_hostname h \<noteq> None) w))"

definition loadHostInfo :: "bus_env \<Rightarrow> port \<Rightarrow> host_info \<Rightarrow> world \<Rightarrow> host_info \<times> world" where
  "loadHostInfo B P h w =
     (let w = free_host h w;
          (pretty, w) = copyBusPropertyString B HOSTNAME1 HOSTNAME1_PATH HOSTNAME1 ''PrettyHostname'' w;
          (fallback, w) = copyBusPropertyString B HOSTNAME1 HOSTNAME1_PATH HOSTNAME1 ''Hostname'' w;
          hostname = (if pretty \<noteq> None then pretty else fallback);
          w = free_if (pretty \<noteq> None \<and> fallback \<noteq> None) w;
          (icon, w) = copyBusPropertyString B HOSTNAME1 HOSTNAME1_PATH HOSTNAME1 ''IconName'' w;
          (uuid, w) = (case be_machine_id B of
             None \<Rightarrow> (None, w)
           | Some machine_id \<Rightarrow>
               (let (ok, w) = lltd_port_malloc P SD_ID128_STRING_MAX w in (if ok then Some machine_id else None, w)))
      in (\<lparr>hi_hostname = hostname, hi_iconName = icon, hi_uuid = uuid\<rparr>, w))"

section \<open>The devices\<close>

definition getActiveConnectionUuid :: "bus_env \<Rightarrow> string \<Rightarrow> world \<Rightarrow> string option \<times> world" where
  "getActiveConnectionUuid B device_path w =
     (let (active_path, w) = copyBusPropertyString B NM_BUS_NAME device_path NM_DEVICE_INTERFACE ''ActiveConnection'' w in
      case active_path of
        None \<Rightarrow> (None, w)
      | Some path \<Rightarrow>
          if path = ''/'' then (None, lltd_port_free w)
          else
            let (uuid, w) = copyBusPropertyString B NM_BUS_NAME path NM_ACTIVE_CONNECTION_INTERFACE ''Uuid'' w
            in (uuid, lltd_port_free w))"

text \<open>The result, the name and the connection.\<close>

definition shouldBindDevice ::
    "bus_env \<Rightarrow> string \<Rightarrow> world \<Rightarrow> (bool \<times> string option \<times> string option) \<times> world" where
  "shouldBindDevice B device_path w =
     (let (ifname, w) = copyBusPropertyString B NM_BUS_NAME device_path NM_DEVICE_INTERFACE ''Interface'' w in
      if ifname = None \<or> ifname = Some '''' then ((False, ifname, None), w)
      else
        let device_type = getBusPropertyU32 B NM_BUS_NAME device_path NM_DEVICE_INTERFACE ''DeviceType'' in
        if device_type \<noteq> NM_DEVICE_TYPE_ETHERNET \<and> device_type \<noteq> NM_DEVICE_TYPE_WIFI
        then ((False, ifname, None), w)
        else
          let (uuid, w) = getActiveConnectionUuid B device_path w in ((True, ifname, uuid), w))"

text \<open>
  A context of the array: beside the slot, the address its thread was given and the
  connection.  \<open>bd_base\<close> is the address of the array, none when it was never allocated.
\<close>

record bus_slot = "machines3 slot" +
  sl_arg :: nat
  sl_connectionUuid :: "string option"

record bus_daemon =
  bd_world :: world
  bd_fds :: "fd_event list"
  bd_base :: "nat option"
  bd_calls :: nat
  bd_slots :: "bus_slot list"

text \<open>Opening one device whose context has just been added to the array and zeroed.\<close>

definition bind_device ::
    "port \<Rightarrow> nat \<Rightarrow> (string \<Rightarrow> packet_env) \<Rightarrow> (nat \<Rightarrow> bool) \<Rightarrow> nat \<Rightarrow> string \<Rightarrow> string option \<Rightarrow> bus_daemon \<Rightarrow>
     bus_daemon option" where
  "bind_device P sz sys spawn base ifname uuid d =
     (let (ok, iface, buffer, fds) = linux_fillInterfaceDetails (sys ifname) blank_linux ifname;
          w = take_if (buffer \<noteq> None) (take_if (pe_strdup (sys ifname)) (bd_world d));
          d = d\<lparr>bd_fds := bd_fds d @ fds\<rparr> in
      if \<not> ok then
        Some (d\<lparr>bd_world := free_if (uuid \<noteq> None) (lltd_port_free (free_if (pe_strdup (sys ifname)) w))\<rparr>)
      else do {
        (ms, w) \<leftarrow> init_machines3 P w;
        let n = length (bd_slots d);
        let s = \<lparr>sl_iface = iface, sl_machines = ms, sl_thread = spawn n, sl_arg = base + sz * n,
          sl_connectionUuid = uuid\<rparr>;
        Some (d\<lparr>bd_world := lltd_port_free w, bd_slots := bd_slots d @ [s]\<rparr>)
      })"

text \<open>
  \<open>realloc\<close> frees the array when it returns another address; a thread that was started before
  keeps running on a context of the freed array, so that step has no outcome.
\<close>

fun bus_devices ::
    "bus_env \<Rightarrow> port \<Rightarrow> nat \<Rightarrow> (string \<Rightarrow> packet_env) \<Rightarrow> (nat \<Rightarrow> bool) \<Rightarrow> string option list \<Rightarrow> bus_daemon \<Rightarrow>
     bus_daemon option" where
  "bus_devices B P sz sys spawn [] d = Some d"
| "bus_devices B P sz sys spawn (None # paths) d = bus_devices B P sz sys spawn paths d"
| "bus_devices B P sz sys spawn (Some device_path # paths) d =
     (let ((wanted, ifname, uuid), w) = shouldBindDevice B device_path (bd_world d);
          discard = free_if (uuid \<noteq> None) (free_if (ifname \<noteq> None) w) in
      if \<not> wanted then bus_devices B P sz sys spawn paths (d\<lparr>bd_world := discard\<rparr>)
      else case be_grow B (bd_calls d) of
        None \<Rightarrow> Some (d\<lparr>bd_world := discard\<rparr>)
      | Some expanded \<Rightarrow>
          if bd_base d \<noteq> Some expanded \<and> list_ex sl_thread (bd_slots d) then None
          else do {
            d \<leftarrow> bind_device P sz sys spawn expanded (the ifname) uuid
              (d\<lparr>bd_base := Some expanded, bd_calls := bd_calls d + 1, bd_world := take_if (bd_base d = None) w\<rparr>);
            bus_devices B P sz sys spawn paths d
          })"

fun bus_stop :: "(nat \<Rightarrow> machines3 \<Rightarrow> machines3) \<Rightarrow> nat \<Rightarrow> bus_slot list \<Rightarrow> bus_daemon \<Rightarrow> bus_daemon option" where
  "bus_stop work k [] d = Some d"
| "bus_stop work k (s # ss) d =
     (if \<not> sl_thread s then None
      else
        let sock = ln_socket (sl_iface s);
            w = lltd_port_free (lltd_port_free (bd_world d));
            w = free_if (sl_connectionUuid s \<noteq> None) w;
            w = free_machines3 (work k (sl_machines s)) w in
        bus_stop work (k + 1) ss
          (d\<lparr>bd_fds := bd_fds d @ (if 0 \<le> sock then [FdClose sock] else []), bd_world := w\<rparr>))"

definition systemd_main ::
    "bus_env \<Rightarrow> port \<Rightarrow> nat \<Rightarrow> (string \<Rightarrow> packet_env) \<Rightarrow> (nat \<Rightarrow> bool) \<Rightarrow> (nat \<Rightarrow> machines3 \<Rightarrow> machines3) \<Rightarrow>
     bool \<Rightarrow> world \<Rightarrow> (host_info \<times> bus_daemon) main_exit option" where
  "systemd_main B P sz sys spawn work bus_ok w =
     (if \<not> bus_ok then Some (Exit1 w)
      else
        let (h, w) = loadHostInfo B P \<lparr>hi_hostname = None, hi_iconName = None, hi_uuid = None\<rparr> w in
        case be_devices B of
          None \<Rightarrow> Some (Exit1 w)
        | Some paths \<Rightarrow> do {
            d \<leftarrow> bus_devices B P sz sys spawn paths
              \<lparr>bd_world = w, bd_fds = [], bd_base = None, bd_calls = 0, bd_slots = []\<rparr>;
            if bd_base d = None then Some (Exit1 (bd_world d))
            else do {
              d \<leftarrow> bus_stop work 0 (bd_slots d) d;
              Some (Exit0 (h, d\<lparr>bd_world := free_host h (lltd_port_free (bd_world d))\<rparr>))
            }
          })"

end
