(* ===== verification/LltdSystemdProps.thy ===== *)
theory LltdSystemdProps
  imports LltdSystemd
begin

text \<open>
  The systemd daemon gives back what it takes: the accounting of its blocks and descriptors
  device by device, the addresses its threads run on, and the property of its main.
\<close>

section \<open>What the bus offers\<close>

definition bindable :: "bus_env \<Rightarrow> string option \<Rightarrow> string option" where
  "bindable B path =
     (case path of None \<Rightarrow> None
      | Some p \<Rightarrow>
          let dev = getBusPropertyU32 B NM_BUS_NAME p NM_DEVICE_INTERFACE ''DeviceType'' in
          case be_string B NM_BUS_NAME p NM_DEVICE_INTERFACE ''Interface'' of
            None \<Rightarrow> None
          | Some n \<Rightarrow> if n \<noteq> '''' \<and> (dev = NM_DEVICE_TYPE_ETHERNET \<or> dev = NM_DEVICE_TYPE_WIFI) then Some n else None)"

definition bindable_names :: "bus_env \<Rightarrow> string option list \<Rightarrow> string list" where
  "bindable_names B paths = List.map_filter (bindable B) paths"

lemma bindable_names_simps [simp]:
  "bindable_names B [] = []"
  "bindable_names B (p # ps) =
     (case bindable B p of None \<Rightarrow> bindable_names B ps | Some n \<Rightarrow> n # bindable_names B ps)"
  by (simp_all add: bindable_names_def List.map_filter_simps split: option.split)

lemma live_take_if [simp]: "w_live (take_if p w) = w_live w + (if p then 1 else 0)"
  by (simp add: take_if_def)

lemma live_active_uuid:
  "getActiveConnectionUuid B p w = (uuid, w') \<Longrightarrow> w_live w' = w_live w + (if uuid \<noteq> None then 1 else 0)"
  by (auto simp: getActiveConnectionUuid_def copyBusPropertyString_def Let_def split: option.splits if_splits)

lemma shouldBind_cases:
  assumes "shouldBindDevice B p w = ((wanted, ifname, uuid), w')"
  shows "w_live w' = w_live w + (if ifname \<noteq> None then 1 else 0) + (if uuid \<noteq> None then 1 else 0) \<and>
    (if wanted then ifname \<noteq> None \<and> bindable B (Some p) = ifname
     else bindable B (Some p) = None)"
proof -
  obtain u v where u: "getActiveConnectionUuid B p (take_if True w) = (u, v)" by fastforce
  then show ?thesis
    using assms live_active_uuid [OF u]
    by (cases "be_string B NM_BUS_NAME p NM_DEVICE_INTERFACE ''Interface''")
      (auto simp: shouldBindDevice_def copyBusPropertyString_def Let_def bindable_def split: if_splits)
qed

interpretation linux_fill: interface_filler "\<lambda>cur name. linux_fillInterfaceDetails (sys name) cur name"
  "\<lambda>name. pe_strdup (sys name)" "\<lambda>name. packet_opens (sys name)" for sys
  by unfold_locales
    (auto simp: linux_fillInterfaceDetails_def packet_opens_def Let_def split: if_splits option.splits)

section \<open>Device by device\<close>

text \<open>The blocks and descriptors of the contexts, with the array they live in.\<close>

definition bus_held :: "bus_daemon \<Rightarrow> int" where
  "bus_held d = (if bd_base d = None then 0 else 1) +
     sum_list (map (\<lambda>s. 2 + blocks3 (sl_machines s) + (if sl_connectionUuid s = None then 0 else 1)) (bd_slots d))"

definition bus_fds :: "bus_slot list \<Rightarrow> int \<Rightarrow> int" where
  "bus_fds ss fd = int (length (filter (\<lambda>s. ln_socket (sl_iface s) = fd) ss))"

definition bus_slot_ok :: "bus_slot \<Rightarrow> bool" where
  "bus_slot_ok s \<longleftrightarrow> sl_thread s \<and> fresh3 (sl_machines s) \<and> 0 \<le> ln_socket (sl_iface s)"

definition bus_names :: "bus_daemon \<Rightarrow> string list" where
  "bus_names d = map (\<lambda>s. ln_deviceName (sl_iface s)) (bd_slots d)"

text \<open>What a step from \<open>d\<close> to \<open>d'\<close> leaves as it was: all that is not held is balanced.\<close>

definition balanced :: "bus_daemon \<Rightarrow> bus_daemon \<Rightarrow> bool" where
  "balanced d d' \<longleftrightarrow> w_live (bd_world d') - bus_held d' = w_live (bd_world d) - bus_held d \<and>
     (\<forall>fd. fd_balance (bd_fds d') fd - bus_fds (bd_slots d') fd = fd_balance (bd_fds d) fd - bus_fds (bd_slots d) fd) \<and>
     ((\<forall>s \<in> set (bd_slots d). bus_slot_ok s) \<longrightarrow> (\<forall>s \<in> set (bd_slots d'). bus_slot_ok s))"

lemma balanced_trans: "balanced d d' \<Longrightarrow> balanced d' d'' \<Longrightarrow> balanced d d''"
  unfolding balanced_def by (intro conjI; elim conjE) (simp, simp, iprover)

lemma bind_device_runs:
  assumes "\<forall>k n. p_malloc P k n" "\<forall>k. spawn k"
  obtains d' where "bind_device P sz sys spawn base ifname uuid d = Some d'"
    "bd_base d' = bd_base d" "bd_calls d' = bd_calls d"
    "balanced (d\<lparr>bd_world := free_if (uuid \<noteq> None) (lltd_port_free (bd_world d))\<rparr>) d'"
    "bus_names d' = bus_names d @ (if packet_opens (sys ifname) then [ifname] else [])"
    "map sl_arg (bd_slots d') = map sl_arg (bd_slots d) @
       (if packet_opens (sys ifname) then [base + sz * length (bd_slots d)] else [])"
    "list_ex sl_thread (bd_slots d') \<longleftrightarrow> list_ex sl_thread (bd_slots d) \<or> packet_opens (sys ifname)"
proof -
  obtain ok iface buffer fds where fill:
    "linux_fillInterfaceDetails (sys ifname) blank_linux ifname = (ok, iface, buffer, fds)" by (metis prod_cases4)
  show ?thesis
  proof (cases ok)
    case False
    from fill False have f: "linux_fillInterfaceDetails (sys ifname) blank_linux ifname = (False, iface, buffer, fds)"
      by simp
    note 1 = linux_fill.fill_failed [of sys, OF f]
    let ?w = "take_if (buffer \<noteq> None) (take_if (pe_strdup (sys ifname)) (bd_world d))"
    show ?thesis
      by (rule that [of "d\<lparr>bd_fds := bd_fds d @ fds, bd_world :=
            free_if (uuid \<noteq> None) (lltd_port_free (free_if (pe_strdup (sys ifname)) ?w))\<rparr>"])
        (use 1 in \<open>simp_all add: bind_device_def f balanced_def bus_held_def bus_names_def\<close>)
  next
    case True
    from fill True have f: "linux_fillInterfaceDetails (sys ifname) blank_linux ifname = (True, iface, buffer, fds)"
      by simp
    note 1 = linux_fill.fill_ok [of sys, OF f]
    have sock: "0 \<le> ln_socket iface" using linux_fill_cases [OF f] by simp
    let ?w = "take_if (buffer \<noteq> None) (take_if (pe_strdup (sys ifname)) (bd_world d))"
    obtain ms w where ms: "init_machines3 P ?w = Some (ms, w)" "fresh3 ms" "w_live w = w_live ?w + blocks3 ms"
      using init_machines3_runs [OF assms(1)] by blast
    let ?s = "\<lparr>sl_iface = iface, sl_machines = ms, sl_thread = spawn (length (bd_slots d)),
      sl_arg = base + sz * length (bd_slots d), sl_connectionUuid = uuid\<rparr>"
    show ?thesis
      by (rule that [of "d\<lparr>bd_fds := bd_fds d @ fds, bd_world := lltd_port_free w, bd_slots := bd_slots d @ [?s]\<rparr>"])
        (use 1 sock ms spec [OF assms(2), of "length (bd_slots d)"] in \<open>simp_all add: bind_device_def f balanced_def bus_held_def bus_names_def
          bus_fds_def bus_slot_ok_def\<close>)
  qed
qed

text \<open>The array and the addresses, as the model of \<open>loadInterfaces\<close> in LltdInterfaces has them.\<close>

definition load_of :: "bus_daemon \<Rightarrow> load_state" where
  "load_of d = \<lparr>ld_base = bd_base d, ld_count = length (bd_slots d), ld_threads = map sl_arg (bd_slots d),
     ld_calls = bd_calls d\<rparr>"

lemma world_irrelevant [simp]:
  "load_of (d\<lparr>bd_world := w\<rparr>) = load_of d" "bus_names (d\<lparr>bd_world := w\<rparr>) = bus_names d"
  by (simp_all add: load_of_def bus_names_def)

abbreviation (input) load_input :: "(string \<Rightarrow> packet_env) \<Rightarrow> string list \<Rightarrow> (bool \<times> bool) list" where
  "load_input sys names \<equiv> map (\<lambda>n. (True, packet_opens (sys n))) names"

lemma load_input_Cons:
  "load_devices sz grow (load_input sys (n # names)) s =
     (case grow (ld_calls s) of None \<Rightarrow> s
      | Some a \<Rightarrow> load_devices sz grow (load_input sys names)
         \<lparr>ld_base = Some a, ld_count = ld_count s + (if packet_opens (sys n) then 1 else 0),
          ld_threads = ld_threads s @ (if packet_opens (sys n) then [a + sz * ld_count s] else []),
          ld_calls = ld_calls s + 1\<rparr>)"
  by (cases s) (simp add: Let_def split: option.split)

definition bus_ran ::
    "bus_env \<Rightarrow> nat \<Rightarrow> (string \<Rightarrow> packet_env) \<Rightarrow> string option list \<Rightarrow> bus_daemon \<Rightarrow> bus_daemon \<Rightarrow> bool" where
  "bus_ran B sz sys paths d d' \<longleftrightarrow> balanced d d' \<and>
     load_of d' = load_devices sz (be_grow B) (load_input sys (bindable_names B paths)) (load_of d) \<and>
     ((\<forall>k. be_grow B k \<noteq> None) \<longrightarrow>
       bus_names d' = bus_names d @ filter (\<lambda>n. packet_opens (sys n)) (bindable_names B paths) \<and>
       (bd_base d' = None \<longleftrightarrow> bd_base d = None \<and> bindable_names B paths = []))"

lemma bus_ran_world: "bus_ran B sz sys paths (d\<lparr>bd_world := w\<rparr>) d' \<Longrightarrow> balanced d (d\<lparr>bd_world := w\<rparr>) \<Longrightarrow>
    bindable B p = None \<Longrightarrow> bus_ran B sz sys (p # paths) d d'"
  by (auto simp: bus_ran_def dest: balanced_trans)

text \<open>The array could not grow, or grew and the device was handled: one step of the walk.\<close>

lemma bus_ran_stop:
  assumes "be_grow B (bd_calls d) = None" "bindable B path = Some n" "balanced d (d\<lparr>bd_world := w\<rparr>)"
  shows "bus_ran B sz sys (path # paths) d (d\<lparr>bd_world := w\<rparr>)"
proof -
  have "load_of d = load_devices sz (be_grow B) (load_input sys (n # bindable_names B paths)) (load_of d)"
    unfolding load_input_Cons using assms(1) by (simp add: load_of_def)
  moreover have "\<not> (\<forall>k. be_grow B k \<noteq> None)" using assms(1) by blast
  ultimately show ?thesis
    using assms unfolding bus_ran_def by (auto simp del: load_devices.simps not_None_eq)
qed

lemma bus_ran_bind:
  assumes grown: "be_grow B (bd_calls d) = Some a" and n: "bindable B path = Some n"
    and d1: "bd_base d1 = Some a" "bd_calls d1 = bd_calls d + 1" "balanced d d1"
      "bus_names d1 = bus_names d @ (if packet_opens (sys n) then [n] else [])"
      "map sl_arg (bd_slots d1) = map sl_arg (bd_slots d) @
         (if packet_opens (sys n) then [a + sz * length (bd_slots d)] else [])"
    and rest: "bus_ran B sz sys paths d1 d'"
  shows "bus_ran B sz sys (path # paths) d d'"
proof -
  have "length (bd_slots d1) = length (map sl_arg (bd_slots d1))" by simp
  then have l1: "load_of d1 = \<lparr>ld_base = Some a, ld_count = length (bd_slots d) + (if packet_opens (sys n) then 1 else 0),
      ld_threads = map sl_arg (bd_slots d) @ (if packet_opens (sys n) then [a + sz * length (bd_slots d)] else []),
      ld_calls = bd_calls d + 1\<rparr>"
    unfolding d1(5) load_of_def using d1(1,2) by simp
  have "load_of d' = load_devices sz (be_grow B) (load_input sys (n # bindable_names B paths)) (load_of d)"
    unfolding load_input_Cons using rest by (simp add: bus_ran_def l1) (simp add: load_of_def grown)
  moreover have "balanced d d'" using balanced_trans [OF d1(3)] rest by (simp add: bus_ran_def)
  ultimately show ?thesis
    using n rest d1(1,4) by (auto simp: bus_ran_def bus_names_def simp del: load_devices.simps)
qed

text \<open>
  Whether \<open>realloc\<close> moves the array while the thread of one of its contexts runs: the devices are
  given by whether they can be opened, the state by the number of calls so far, the address,
  and whether a thread runs.
\<close>

fun array_moved :: "(nat \<Rightarrow> nat option) \<Rightarrow> nat \<Rightarrow> nat option \<Rightarrow> bool \<Rightarrow> bool list \<Rightarrow> bool" where
  "array_moved grow k base running [] \<longleftrightarrow> False"
| "array_moved grow k base running (opens # rest) \<longleftrightarrow>
     (case grow k of
        None \<Rightarrow> False
      | Some a \<Rightarrow> running \<and> base \<noteq> Some a \<or> array_moved grow (k + 1) (Some a) (running \<or> opens) rest)"

abbreviation (input) bus_moved ::
    "bus_env \<Rightarrow> (string \<Rightarrow> packet_env) \<Rightarrow> string option list \<Rightarrow> bus_daemon \<Rightarrow> bool" where
  "bus_moved B sys paths d \<equiv> array_moved (be_grow B) (bd_calls d) (bd_base d)
     (list_ex sl_thread (bd_slots d)) (map (\<lambda>n. packet_opens (sys n)) (bindable_names B paths))"

lemma bus_devices_runs:
  assumes "\<forall>k n. p_malloc P k n" "\<forall>k. spawn k"
  shows "if bus_moved B sys paths d then bus_devices B P sz sys spawn paths d = None
    else \<exists>d'. bus_devices B P sz sys spawn paths d = Some d' \<and> bus_ran B sz sys paths d d'"
proof (induction paths arbitrary: d)
  case Nil
  then show ?case by (simp add: bus_ran_def balanced_def)
next
  case (Cons path paths)
  show ?case
  proof (cases path)
    case None
    have "bindable_names B (None # paths) = bindable_names B paths" by (simp add: bindable_def)
    then have "bus_ran B sz sys (None # paths) d = bus_ran B sz sys paths d"
      by (simp add: bus_ran_def fun_eq_iff del: bindable_names_simps)
    then show ?thesis using Cons.IH [of d] None by (simp add: bindable_def)
  next
    case path: (Some p)
    obtain wanted ifname uuid w where sb: "shouldBindDevice B p (bd_world d) = ((wanted, ifname, uuid), w)"
      by (metis prod_cases3 surj_pair)
    note b = shouldBind_cases [OF sb]
    let ?discard = "d\<lparr>bd_world := free_if (uuid \<noteq> None) (free_if (ifname \<noteq> None) w)\<rparr>"
    have kept: "balanced d ?discard" using b by (simp add: balanced_def bus_held_def)
    consider "\<not> wanted" | "wanted" "be_grow B (bd_calls d) = None"
      | a where "wanted" "be_grow B (bd_calls d) = Some a" "bd_base d \<noteq> Some a" "list_ex sl_thread (bd_slots d)"
      | a where "wanted" "be_grow B (bd_calls d) = Some a" "\<not> (bd_base d \<noteq> Some a \<and> list_ex sl_thread (bd_slots d))"
      by (cases "be_grow B (bd_calls d)") auto
    then show ?thesis
    proof cases
      case 1
      with b path have none: "bindable B path = None" by simp
      show ?thesis
      proof (cases "bus_moved B sys paths ?discard")
        case True
        with Cons.IH [of ?discard] 1 none path show ?thesis by (simp add: sb)
      next
        case False
        with Cons.IH [of ?discard] obtain d' where d': "bus_devices B P sz sys spawn paths ?discard = Some d'"
          "bus_ran B sz sys paths ?discard d'" by auto
        with 1 False none path bus_ran_world [OF d'(2) kept] show ?thesis by (simp add: sb)
      qed
    next
      case 2
      with b obtain n where "bindable B path = Some n" using path by auto
      with 2 path bus_ran_stop [OF 2(2) this kept] show ?thesis by (simp add: sb)
    next
      case 3
      with b obtain n where "bindable B path = Some n" using path by auto
      with 3 path show ?thesis by (simp add: sb)
    next
      case 4
      with b obtain n where n: "ifname = Some n" "bindable B path = Some n" using path by auto
      let ?d = "d\<lparr>bd_base := Some a, bd_calls := bd_calls d + 1, bd_world := take_if (bd_base d = None) w\<rparr>"
      obtain d1 where d1: "bind_device P sz sys spawn a n uuid ?d = Some d1"
        "bd_base d1 = bd_base ?d" "bd_calls d1 = bd_calls ?d"
        "balanced (?d\<lparr>bd_world := free_if (uuid \<noteq> None) (lltd_port_free (bd_world ?d))\<rparr>) d1"
        "bus_names d1 = bus_names ?d @ (if packet_opens (sys n) then [n] else [])"
        "map sl_arg (bd_slots d1) = map sl_arg (bd_slots ?d) @
           (if packet_opens (sys n) then [a + sz * length (bd_slots ?d)] else [])"
        "list_ex sl_thread (bd_slots d1) \<longleftrightarrow> list_ex sl_thread (bd_slots ?d) \<or> packet_opens (sys n)"
        using bind_device_runs [OF assms, of sz sys a n uuid ?d] by metis
      have "balanced d (?d\<lparr>bd_world := free_if (uuid \<noteq> None) (lltd_port_free (bd_world ?d))\<rparr>)"
        using b n 4(1) by (simp add: balanced_def bus_held_def)
      note bal = balanced_trans [OF this d1(4)]
      have step: "bus_devices B P sz sys spawn (path # paths) d = bus_devices B P sz sys spawn paths d1"
        using 4 n d1(1) path by (auto simp: sb)
      have moved: "bus_moved B sys (path # paths) d \<longleftrightarrow> bus_moved B sys paths d1"
        using 4 n d1(2,3,7) by auto
      show ?thesis
      proof (cases "bus_moved B sys paths d1")
        case True
        with Cons.IH [of d1] step moved show ?thesis by simp
      next
        case False
        with Cons.IH [of d1] obtain d' where d': "bus_devices B P sz sys spawn paths d1 = Some d'"
          "bus_ran B sz sys paths d1 d'" by auto
        have "bus_ran B sz sys (path # paths) d d'"
          by (rule bus_ran_bind [OF 4(2) n(2) _ _ bal _ _ d'(2)]) (use d1 in \<open>simp_all add: bus_names_def\<close>)
        with False d'(1) step moved show ?thesis by simp
      qed
    qed
  qed
qed

lemma bus_stop_runs:
  assumes "\<forall>s \<in> set ss. bus_slot_ok s" "\<And>k m. blocks3 (work k m) = blocks3 m"
  shows "\<exists>d'. bus_stop work k ss d = Some d' \<and> load_of d' = load_of d \<and> bus_names d' = bus_names d \<and>
    (\<forall>fd. fd_balance (bd_fds d') fd = fd_balance (bd_fds d) fd - bus_fds ss fd) \<and>
    w_live (bd_world d') = w_live (bd_world d) - sum_list (map (\<lambda>s. 2 + blocks3 (sl_machines s) +
      (if sl_connectionUuid s = None then 0 else 1)) ss)"
  using assms(1)
proof (induction ss arbitrary: k d)
  case Nil
  then show ?case by (simp add: bus_fds_def)
next
  case (Cons s ss)
  let ?w = "free_if (sl_connectionUuid s \<noteq> None) (lltd_port_free (lltd_port_free (bd_world d)))"
  let ?d = "d\<lparr>bd_fds := bd_fds d @ [FdClose (ln_socket (sl_iface s))],
    bd_world := free_machines3 (work k (sl_machines s)) ?w\<rparr>"
  have "w_live (bd_world ?d) = w_live (bd_world d) - 2 - blocks3 (sl_machines s) -
      (if sl_connectionUuid s = None then 0 else 1)"
    by (simp add: three.machines_freed assms(2))
  moreover have "load_of ?d = load_of d" "bus_names ?d = bus_names d" by (simp_all add: load_of_def bus_names_def)
  ultimately show ?case
    using Cons.IH [of "k + 1" ?d] Cons.prems by (auto simp: Let_def bus_slot_ok_def bus_fds_def)
qed

section \<open>The host information\<close>

definition host_blocks :: "host_info \<Rightarrow> int" where
  "host_blocks h = (if hi_hostname h = None then 0 else 1) + (if hi_iconName h = None then 0 else 1) +
     (if hi_uuid h = None then 0 else 1)"

lemma live_free_host [simp]: "w_live (free_host h w) = w_live w - host_blocks h"
  by (simp add: free_host_def host_blocks_def)

lemma copyBusPropertyString_eq:
  "be_string B service path interface property = v \<Longrightarrow>
   copyBusPropertyString B service path interface property w = (v, take_if (v \<noteq> None) w)"
  by (simp add: copyBusPropertyString_def)

lemma live_loadHostInfo:
  assumes "loadHostInfo B P h w = (h', w')"
  shows "w_live w' - host_blocks h' = w_live w - host_blocks h"
proof -
  obtain pretty fallback icon where b:
    "be_string B HOSTNAME1 HOSTNAME1_PATH HOSTNAME1 ''PrettyHostname'' = pretty"
    "be_string B HOSTNAME1 HOSTNAME1_PATH HOSTNAME1 ''Hostname'' = fallback"
    "be_string B HOSTNAME1 HOSTNAME1_PATH HOSTNAME1 ''IconName'' = icon" by blast
  note c = b [THEN copyBusPropertyString_eq]
  define w1 where "w1 = take_if (icon \<noteq> None) (free_if (pretty \<noteq> None \<and> fallback \<noteq> None)
    (take_if (fallback \<noteq> None) (take_if (pretty \<noteq> None) (free_host h w))))"
  have w1: "w_live w1 = w_live w - host_blocks h + (if pretty = None \<and> fallback = None then 0 else 1) +
      (if icon = None then 0 else 1)"
    unfolding w1_def by simp
  define name where "name = (if pretty \<noteq> None then pretty else fallback)"
  have name: "name = None \<longleftrightarrow> pretty = None \<and> fallback = None" by (auto simp: name_def)
  have "(h', w') = (case (case be_machine_id B of None \<Rightarrow> (None, w1)
      | Some i \<Rightarrow> (let (ok, w) = lltd_port_malloc P SD_ID128_STRING_MAX w1 in (if ok then Some i else None, w))) of
      (uuid, w) \<Rightarrow> (\<lparr>hi_hostname = name, hi_iconName = icon, hi_uuid = uuid\<rparr>, w))"
    unfolding assms [symmetric] loadHostInfo_def Let_def c prod.case w1_def name_def by (rule refl)
  then show ?thesis
    using w1 name by (cases "be_machine_id B")
      (simp_all add: host_blocks_def lltd_port_malloc_def Let_def)
qed

section \<open>Property\<close>

text \<open>
  C35.  The systemd daemon, when NetworkManager answers, memory suffices and every thread is
  created.  If \<open>realloc\<close> moves the array of contexts while the thread of one of them runs, that
  thread goes on with a freed context, and the daemon has no defined outcome.  Otherwise it
  ends with 1 if no device is of a kind it binds, and then leaves the strings of the host; and
  if there is one, it serves the devices it can open, with the array and the addresses of
  \<open>loadInterfaces\<close>, and at its end it has closed every descriptor and freed every block it took.
\<close>

theorem systemd_daemon_ends:
  assumes "\<forall>k n. p_malloc P k n" "\<forall>k. spawn k" "\<forall>k ms. blocks3 (work k ms) = blocks3 ms"
    and "be_devices B = Some paths" "\<forall>k. be_grow B k \<noteq> None"
  shows "if array_moved (be_grow B) 0 None False (map (\<lambda>n. packet_opens (sys n)) (bindable_names B paths))
    then systemd_main B P sz sys spawn work True w = None
    else if bindable_names B paths = [] then
      \<exists>w'. systemd_main B P sz sys spawn work True w = Some (Exit1 w') \<and>
        w_live w' = w_live w + host_blocks (fst (loadHostInfo B P \<lparr>hi_hostname = None, hi_iconName = None, hi_uuid = None\<rparr> w))
    else \<exists>h d. systemd_main B P sz sys spawn work True w = Some (Exit0 (h, d)) \<and>
      bus_names d = filter (\<lambda>n. packet_opens (sys n)) (bindable_names B paths) \<and>
      Some (load_of d) = loadInterfaces sz (be_grow B) (Some (load_input sys (bindable_names B paths))) \<and>
      (\<forall>fd. fd_balance (bd_fds d) fd = 0) \<and> w_live (bd_world d) = w_live w"
proof -
  have work: "blocks3 (work k ms) = blocks3 ms" for k ms using assms(3) by blast
  obtain h w1 where h: "loadHostInfo B P \<lparr>hi_hostname = None, hi_iconName = None, hi_uuid = None\<rparr> w = (h, w1)"
    by fastforce
  then have w1: "w_live w1 = w_live w + host_blocks h"
    using live_loadHostInfo [OF h] by (simp add: host_blocks_def)
  let ?d0 = "\<lparr>bd_world = w1, bd_fds = [], bd_base = None, bd_calls = 0, bd_slots = []\<rparr>"
  note devices = bus_devices_runs [OF assms(1,2), where B = B and sys = sys and paths = paths and d = ?d0 and sz = sz,
      simplified]
  show ?thesis
  proof (cases "array_moved (be_grow B) 0 None False (map (\<lambda>n. packet_opens (sys n)) (bindable_names B paths))")
    case True
    with devices h assms(4) show ?thesis by (simp add: systemd_main_def)
  next
    case still: False
    with devices obtain d1 where d1: "bus_devices B P sz sys spawn paths ?d0 = Some d1" "bus_ran B sz sys paths ?d0 d1"
      by auto
    have facts: "bd_base d1 = None \<longleftrightarrow> bindable_names B paths = []" "\<forall>s \<in> set (bd_slots d1). bus_slot_ok s"
      "bus_names d1 = filter (\<lambda>n. packet_opens (sys n)) (bindable_names B paths)"
      "load_of d1 = load_devices sz (be_grow B) (load_input sys (bindable_names B paths)) (load_of ?d0)"
      "fd_balance (bd_fds d1) fd = bus_fds (bd_slots d1) fd" "w_live (bd_world d1) = w_live w1 + bus_held d1" for fd
      using d1(2) assms(5) by (auto simp: bus_ran_def balanced_def bus_held_def bus_fds_def bus_names_def)
    show ?thesis
    proof (cases "bindable_names B paths = []")
      case True
      then have "bus_held d1 = 0" using facts(1,3) by (simp add: bus_names_def bus_held_def)
      then have "w_live (bd_world d1) = w_live w1" using facts(6) by simp
      then show ?thesis using True still h d1(1) facts(1) assms(4) w1 by (simp add: systemd_main_def)
    next
      case False
      obtain d2 where d2: "bus_stop work 0 (bd_slots d1) d1 = Some d2" "load_of d2 = load_of d1"
        "bus_names d2 = bus_names d1" "\<forall>fd. fd_balance (bd_fds d2) fd = fd_balance (bd_fds d1) fd - bus_fds (bd_slots d1) fd"
        "w_live (bd_world d2) = w_live (bd_world d1) - (bus_held d1 - 1)"
        using bus_stop_runs [of "bd_slots d1" work 0 d1, OF facts(2) work] False facts(1) by (auto simp: bus_held_def)
      have "Some (load_of d2) = loadInterfaces sz (be_grow B) (Some (load_input sys (bindable_names B paths)))"
        unfolding d2(2) facts(4) loadInterfaces_def by (simp add: load_of_def)
      with False still h d1(1) d2 facts w1 assms(4) show ?thesis
        by (simp add: systemd_main_def)
    qed
  qed
qed

definition demo_bus :: bus_env where
  "demo_bus = \<lparr>be_string = (\<lambda>s p i prop. if prop = ''Interface'' then Some (if p = ''1'' then ''eth1'' else ''eth0'')
       else if prop = ''ActiveConnection'' then Some ''/'' else None),
     be_u32 = (\<lambda>s p i prop. Some 1), be_machine_id = Some ''id'',
     be_devices = Some [Some ''0'', None, Some ''1''], be_grow = (\<lambda>k. Some 1000)\<rparr>"

text \<open>The same bus, with an allocator that moves the array every time.\<close>

definition moving_bus :: bus_env where
  "moving_bus = demo_bus\<lparr>be_grow := \<lambda>k. Some (1000 + 4000 * k)\<rparr>"

lemma demo_bus_names:
  "bindable_names demo_bus [Some ''0'', None, Some ''1''] = [''eth0'', ''eth1'']"
  "bindable_names moving_bus [Some ''0'', None, Some ''1''] = [''eth0'', ''eth1'']"
  by (simp_all add: bindable_def demo_bus_def moving_bus_def getBusPropertyU32_def)

theorem systemd_daemon_ends_witness:
  "(\<exists>h d. systemd_main demo_bus (linux_port demo_linux_env (\<lambda>i. demo_linux)) 64 demo_sys (\<lambda>k. True)
      (\<lambda>k ms. ms) True world0 = Some (Exit0 (h, d)) \<and> bus_names d = [''eth0''] \<and> w_live (bd_world d) = 0) \<and>
   systemd_main moving_bus (linux_port demo_linux_env (\<lambda>i. demo_linux)) 64 demo_sys (\<lambda>k. True)
      (\<lambda>k ms. ms) True world0 = None"
proof -
  have bus: "be_devices demo_bus = Some [Some ''0'', None, Some ''1'']" "\<forall>k. be_grow demo_bus k \<noteq> None"
    "be_devices moving_bus = Some [Some ''0'', None, Some ''1'']" "\<forall>k. be_grow moving_bus k \<noteq> None"
    by (simp_all add: demo_bus_def moving_bus_def)
  have moves: "\<not> array_moved (be_grow demo_bus) 0 None False [True, False]"
    "array_moved (be_grow moving_bus) 0 None False [True, False]"
    by (simp_all add: demo_bus_def moving_bus_def)
  note run = systemd_daemon_ends [OF demo_linux_malloc, where spawn = "\<lambda>k. True" and work = "\<lambda>k ms. ms"
      and sz = 64 and sys = demo_sys and w = world0]
  show ?thesis
    using run [OF _ _ bus(1,2), unfolded demo_bus_names] run [OF _ _ bus(3,4), unfolded demo_bus_names] moves
    by (auto simp: demo_sys_simps world0_def simp del: array_moved.simps)
qed

end
