(* ===== verification/LltdWindowsDaemon.thy ===== *)
theory LltdWindowsDaemon
  imports LltdDaemonProps LltdWindowsPort
begin

text \<open>
  The Windows daemons: os/windows/win32-user/windows-shared.c runs one loop over a backend, a
  record of functions (windows-backend.h), of which there are two, windows-backend-ndis.c and
  windows-backend-legacy.c.  A backend has a state of its own, and works on it and on the
  heap; the calls into Windows are parameters.  Also the set-up of the ESP32 entry points
  (os/esp32/daemon/lltd_esp32.c), which the firmware calls.
\<close>

section \<open>The interface of a backend\<close>

text \<open>
  A list of interfaces: \<^term>\<open>None\<close> for the null pointer, otherwise the names, a name being
  null when it could not be copied.
\<close>

type_synonym windows_interface_list = "string option list option"

definition list_count :: "windows_interface_list \<Rightarrow> nat" where
  "list_count l = (case l of None \<Rightarrow> 0 | Some names \<Rightarrow> length names)"

record windows_interface_handle =
  wh_handle :: "nat option"
  wh_macAddress :: ethernet_address_t
  wh_mtu :: u32

definition blank_handle :: windows_interface_handle where
  "blank_handle = \<lparr>wh_handle = None, wh_macAddress = zero_mac, wh_mtu = 0\<rparr>"

text \<open>\<open>receiveFrame\<close> returns its result and what it left in the 2048 bytes of the buffer.\<close>

record 'b windows_backend_ops =
  wb_initialize :: "'b \<times> world \<Rightarrow> bool \<times> 'b \<times> world"
  wb_shutdown :: "'b \<times> world \<Rightarrow> 'b \<times> world"
  wb_listInterfaces :: "'b \<times> world \<Rightarrow> (bool \<times> windows_interface_list) \<times> 'b \<times> world"
  wb_freeInterfaceList :: "windows_interface_list \<Rightarrow> 'b \<times> world \<Rightarrow> 'b \<times> world"
  wb_openInterface :: "string option \<Rightarrow> 'b \<times> world \<Rightarrow> (bool \<times> windows_interface_handle) \<times> 'b \<times> world"
  wb_closeInterface :: "windows_interface_handle \<Rightarrow> 'b \<times> world \<Rightarrow> 'b \<times> world"
  wb_receiveFrame :: "windows_interface_handle \<Rightarrow> nat \<Rightarrow> 'b \<times> world \<Rightarrow> (int \<times> u8 list) \<times> 'b \<times> world"
  wb_sendFrame :: "windows_interface_handle \<Rightarrow> u8 list \<Rightarrow> 'b \<times> world \<Rightarrow> int \<times> 'b \<times> world"

section \<open>The loop over a backend\<close>

type_synonym windows_interface_state = "windows_interface_handle \<times> full_ctx"

fun open_all ::
    "'b windows_backend_ops \<Rightarrow> port \<Rightarrow> string option list \<Rightarrow> windows_interface_state list \<Rightarrow> 'b \<times> world \<Rightarrow>
     (windows_interface_state list \<times> 'b \<times> world) option" where
  "open_all B P [] states bw = Some (states, bw)"
| "open_all B P (name # names) states bw =
     (let ((ok, h), bw) = wb_openInterface B name bw in
      if \<not> ok then open_all B P names states bw
      else do {
        ((m, s, e), w) \<leftarrow> init_machines3 P (snd bw);
        open_all B P names (states @ [(h, \<lparr>lc_mapping = m, lc_session = s, lc_states = [], lc_enumeration = e\<rparr>)])
          (fst bw, w)
      })"

text \<open>One pass of the inner loop: every interface is asked once.\<close>

fun windows_round ::
    "'b windows_backend_ops \<Rightarrow> port \<Rightarrow> windows_interface_state list \<Rightarrow> 'b \<times> world \<Rightarrow>
     (windows_interface_state list \<times> 'b \<times> world) option" where
  "windows_round B P [] bw = Some ([], bw)"
| "windows_round B P ((h, c) # states) bw =
     (let ((bytes, buffer), bw) = wb_receiveFrame B h 2048 bw in
      do {
        (c, bw) \<leftarrow>
          (if bytes \<le> 0 then Some (c, bw)
           else do {
             op \<leftarrow> load_u8 buffer 17;
             (c, w) \<leftarrow> raw_switches P op c (snd bw);
             (c, w) \<leftarrow> raw_enumeration P op c w;
             Some (c, (fst bw, w))
           });
        (states, bw) \<leftarrow> windows_round B P states bw;
        Some ((h, c) # states, bw)
      })"

fun windows_rounds ::
    "'b windows_backend_ops \<Rightarrow> port \<Rightarrow> nat \<Rightarrow> windows_interface_state list \<Rightarrow> 'b \<times> world \<Rightarrow>
     (windows_interface_state list \<times> 'b \<times> world) option" where
  "windows_rounds B P 0 states bw = Some (states, bw)"
| "windows_rounds B P (Suc n) states bw = do {
     (states, bw) \<leftarrow> windows_round B P states bw;
     windows_rounds B P n states bw
   }"

fun close_all ::
    "'b windows_backend_ops \<Rightarrow> windows_interface_state list \<Rightarrow> 'b \<times> world \<Rightarrow> 'b \<times> world" where
  "close_all B [] bw = bw"
| "close_all B ((h, c) # states) bw =
     (let (b, w) = wb_closeInterface B h bw in
      close_all B states (b, free_machines3 (lc_mapping c, lc_session c, lc_enumeration c) w))"

text \<open>
  The result, the states at the end of the loop, and what is left; \<open>rounds\<close> is how often the
  outer loop runs before \<open>exitFlag\<close> is seen, \<open>sz\<close> the size of a state.
\<close>

definition runWindowsBackend ::
    "'b windows_backend_ops option \<Rightarrow> port \<Rightarrow> nat \<Rightarrow> nat \<Rightarrow> 'b \<times> world \<Rightarrow>
     (int \<times> windows_interface_state list \<times> 'b \<times> world) option" where
  "runWindowsBackend backend P sz rounds bw =
     (case backend of
        None \<Rightarrow> Some (1, [], bw)
      | Some B \<Rightarrow>
          let (ok, bw) = wb_initialize B bw in
          if \<not> ok then Some (1, [], bw)
          else
            let ((listed, l), bw) = wb_listInterfaces B bw in
            if \<not> listed \<or> list_count l = 0 then Some (1, [], wb_shutdown B bw)
            else
              let (ok, w) = lltd_port_malloc P (sz * list_count l) (snd bw) in
              if \<not> ok then Some (1, [], wb_shutdown B (wb_freeInterfaceList B l (fst bw, w)))
              else do {
                (states, bw) \<leftarrow> open_all B P (case l of None \<Rightarrow> [] | Some names \<Rightarrow> names) [] (fst bw, w);
                (states, bw) \<leftarrow> windows_rounds B P rounds states bw;
                let bw = close_all B states bw;
                let bw = (fst bw, lltd_port_free (snd bw));
                Some (0, states, wb_shutdown B (wb_freeInterfaceList B l bw))
              })"

section \<open>The NDIS backend\<close>

text \<open>
  An adapter is its type and its name; the first of the two calls of \<open>GetAdaptersAddresses\<close>
  gives the size of the buffer.  The state counts the calls of \<open>WSAStartup\<close> that were not
  undone.
\<close>

record ndis_env =
  nd_startup :: bool
  nd_size :: nat
  nd_adapters :: "(bool \<times> string option) list option"  \<comment> \<open>is a loopback, name\<close>
  nd_malloc :: "nat \<Rightarrow> bool"
  nd_calloc :: "nat \<Rightarrow> bool"
  nd_strdup :: "string \<Rightarrow> bool"

type_synonym ndis_state = int

definition ndisInitialize :: "ndis_env \<Rightarrow> ndis_state \<times> world \<Rightarrow> bool \<times> ndis_state \<times> world" where
  "ndisInitialize nd = (\<lambda>(b, w). if nd_startup nd then (True, b + 1, w) else (False, b, w))"

definition ndisShutdown :: "ndis_state \<times> world \<Rightarrow> ndis_state \<times> world" where
  "ndisShutdown = (\<lambda>(b, w). (b - 1, w))"

fun copy_adapters :: "ndis_env \<Rightarrow> (bool \<times> string option) list \<Rightarrow> string option list" where
  "copy_adapters nd [] = []"
| "copy_adapters nd ((loopback, name) # as) =
     (if loopback then copy_adapters nd as
      else case name of
        None \<Rightarrow> copy_adapters nd as
      | Some n \<Rightarrow> (if nd_strdup nd n then Some n else None) # copy_adapters nd as)"

definition names_blocks :: "string option list \<Rightarrow> int" where
  "names_blocks names = int (length (filter (\<lambda>n. n \<noteq> None) names))"

definition ndisListInterfaces ::
    "ndis_env \<Rightarrow> ndis_state \<times> world \<Rightarrow> (bool \<times> windows_interface_list) \<times> ndis_state \<times> world" where
  "ndisListInterfaces nd = (\<lambda>(b, w).
     if \<not> nd_malloc nd (nd_size nd) then ((False, None), (b, w))
     else case nd_adapters nd of
       None \<Rightarrow> ((False, None), (b, w))
     | Some adapters \<Rightarrow>
         let cnt = length (filter (\<lambda>a. \<not> fst a) adapters) in
         if \<not> nd_calloc nd cnt then ((False, None), (b, w))
         else
           let names = copy_adapters nd adapters;
               w = w\<lparr>w_live := w_live w + 1 + names_blocks names\<rparr> in
           ((0 < length names, Some names), (b, w)))"

definition ndisFreeInterfaceList ::
    "windows_interface_list \<Rightarrow> ndis_state \<times> world \<Rightarrow> ndis_state \<times> world" where
  "ndisFreeInterfaceList l = (\<lambda>(b, w).
     case l of
       None \<Rightarrow> (b, w)
     | Some names \<Rightarrow> (b, lltd_port_free (foldl (\<lambda>w n. free_if (n \<noteq> None) w) w names)))"

definition ndisOpenInterface ::
    "string option \<Rightarrow> ndis_state \<times> world \<Rightarrow> (bool \<times> windows_interface_handle) \<times> ndis_state \<times> world" where
  "ndisOpenInterface name bw = ((True, blank_handle), bw)"

definition ndisCloseInterface ::
    "windows_interface_handle \<Rightarrow> ndis_state \<times> world \<Rightarrow> ndis_state \<times> world" where
  "ndisCloseInterface handle bw = bw"

text \<open>The buffer is not touched; \<open>stale\<close> is what was in it.\<close>

definition ndisReceiveFrame ::
    "u8 list \<Rightarrow> windows_interface_handle \<Rightarrow> nat \<Rightarrow> ndis_state \<times> world \<Rightarrow> (int \<times> u8 list) \<times> ndis_state \<times> world" where
  "ndisReceiveFrame stale handle len bw = ((0, stale), bw)"

definition ndisSendFrame ::
    "windows_interface_handle \<Rightarrow> u8 list \<Rightarrow> ndis_state \<times> world \<Rightarrow> int \<times> ndis_state \<times> world" where
  "ndisSendFrame handle buffer bw = (0, bw)"

definition getWindowsBackendNdis :: "ndis_env \<Rightarrow> u8 list \<Rightarrow> ndis_state windows_backend_ops" where
  "getWindowsBackendNdis nd stale =
     \<lparr>wb_initialize = ndisInitialize nd, wb_shutdown = ndisShutdown,
      wb_listInterfaces = ndisListInterfaces nd, wb_freeInterfaceList = ndisFreeInterfaceList,
      wb_openInterface = ndisOpenInterface, wb_closeInterface = ndisCloseInterface,
      wb_receiveFrame = ndisReceiveFrame stale, wb_sendFrame = ndisSendFrame\<rparr>"

section \<open>The legacy backend\<close>

definition legacyInitialize :: "unit \<times> world \<Rightarrow> bool \<times> unit \<times> world" where
  "legacyInitialize bw = (True, bw)"

definition legacyShutdown :: "unit \<times> world \<Rightarrow> unit \<times> world" where
  "legacyShutdown bw = bw"

definition legacyListInterfaces :: "unit \<times> world \<Rightarrow> (bool \<times> windows_interface_list) \<times> unit \<times> world" where
  "legacyListInterfaces bw = ((False, None), bw)"

definition legacyFreeInterfaceList :: "windows_interface_list \<Rightarrow> unit \<times> world \<Rightarrow> unit \<times> world" where
  "legacyFreeInterfaceList l bw = bw"

definition legacyOpenInterface ::
    "string option \<Rightarrow> unit \<times> world \<Rightarrow> (bool \<times> windows_interface_handle) \<times> unit \<times> world" where
  "legacyOpenInterface name bw = ((True, blank_handle), bw)"

definition legacyCloseInterface :: "windows_interface_handle \<Rightarrow> unit \<times> world \<Rightarrow> unit \<times> world" where
  "legacyCloseInterface handle bw = bw"

definition legacyReceiveFrame ::
    "u8 list \<Rightarrow> windows_interface_handle \<Rightarrow> nat \<Rightarrow> unit \<times> world \<Rightarrow> (int \<times> u8 list) \<times> unit \<times> world" where
  "legacyReceiveFrame stale handle len bw = ((0, stale), bw)"

definition legacySendFrame ::
    "windows_interface_handle \<Rightarrow> u8 list \<Rightarrow> unit \<times> world \<Rightarrow> int \<times> unit \<times> world" where
  "legacySendFrame handle buffer bw = (0, bw)"

definition getWindowsBackendLegacy :: "u8 list \<Rightarrow> unit windows_backend_ops" where
  "getWindowsBackendLegacy stale =
     \<lparr>wb_initialize = legacyInitialize, wb_shutdown = legacyShutdown,
      wb_listInterfaces = legacyListInterfaces, wb_freeInterfaceList = legacyFreeInterfaceList,
      wb_openInterface = legacyOpenInterface, wb_closeInterface = legacyCloseInterface,
      wb_receiveFrame = legacyReceiveFrame stale, wb_sendFrame = legacySendFrame\<rparr>"

text \<open>windows-main.c: the backend depends on the platform it was built for.\<close>

definition windows_main_ndis ::
    "ndis_env \<Rightarrow> u8 list \<Rightarrow> port \<Rightarrow> nat \<Rightarrow> nat \<Rightarrow> world \<Rightarrow>
     (int \<times> windows_interface_state list \<times> ndis_state \<times> world) option" where
  "windows_main_ndis nd stale P sz rounds w =
     runWindowsBackend (Some (getWindowsBackendNdis nd stale)) P sz rounds (0, w)"

definition windows_main_legacy ::
    "u8 list \<Rightarrow> port \<Rightarrow> nat \<Rightarrow> nat \<Rightarrow> world \<Rightarrow> (int \<times> windows_interface_state list \<times> unit \<times> world) option" where
  "windows_main_legacy stale P sz rounds w =
     runWindowsBackend (Some (getWindowsBackendLegacy stale)) P sz rounds ((), w)"

section \<open>The ESP32\<close>

record esp32_ctx =
  es_machines :: full_ctx
  es_icon :: "u8 list"
  es_icon_size :: nat
  es_hostname :: "string option"
  es_uuid :: "string option"

text \<open>A null context is left alone; the size of the icon is written when it is asked for.\<close>

definition lltd_esp32_get_icon :: "u8 list \<Rightarrow> bool \<Rightarrow> u8 list \<times> nat option" where
  "lltd_esp32_get_icon icon want_size = (icon, if want_size then Some (length icon) else None)"

definition lltd_esp32_init ::
    "port \<Rightarrow> u8 list \<Rightarrow> esp32_ctx option \<Rightarrow> world \<Rightarrow> (esp32_ctx option \<times> world) option" where
  "lltd_esp32_init P icon ctx w =
     (case ctx of
        None \<Rightarrow> Some (None, w)
      | Some _ \<Rightarrow> do {
          ((m, s, e), w) \<leftarrow> init_machines3 P w;
          Some (Some \<lparr>es_machines = \<lparr>lc_mapping = m, lc_session = s, lc_states = [], lc_enumeration = e\<rparr>,
            es_icon = icon, es_icon_size = length icon, es_hostname = None, es_uuid = None\<rparr>, w)
        })"

definition lltd_esp32_set_identity ::
    "string option \<Rightarrow> string option \<Rightarrow> esp32_ctx option \<Rightarrow> esp32_ctx option" where
  "lltd_esp32_set_identity hostname uuid ctx =
     map_option (\<lambda>c. c\<lparr>es_hostname := hostname, es_uuid := uuid\<rparr>) ctx"

end
