(* ===== verification/LltdWindowsProps.thy ===== *)
theory LltdWindowsProps
  imports LltdWindowsDaemon
begin

text \<open>
  The contract of a Windows backend and what the loop over it keeps; the two backends of the
  repository keep the contract.
\<close>

section \<open>What moves and what stays\<close>

text \<open>Only the number of live blocks of the heap matters here.\<close>

definition machine_blocks :: "windows_interface_state list \<Rightarrow> int" where
  "machine_blocks ss = sum_list (map (\<lambda>(h, c). blocks3 (lc_mapping c, lc_session c, lc_enumeration c)) ss)"

lemma machine_blocks_simps [simp]:
  "machine_blocks [] = 0"
  "machine_blocks ((h, c) # ss) = blocks3 (lc_mapping c, lc_session c, lc_enumeration c) + machine_blocks ss"
  "machine_blocks (ss @ ss') = machine_blocks ss + machine_blocks ss'"
  by (simp_all add: machine_blocks_def)

text \<open>The switches keep the heap and what the machines own of it.\<close>

lemma switch_once_keeps:
  "switch_once P au i w = Some ((au', timed_out), w') \<Longrightarrow> extra au' = extra au \<and> w_live w' = w_live w"
  by (auto simp: switch_once_def bind_eq_Some_conv Let_def case_prod_beta lltd_monotonic_seconds_def
      lltd_port_monotonic_seconds_def split: if_splits)

lemma switch_session_keeps:
  assumes "switch_state_session P au i w = Some (au', w')"
  shows "extra au' = extra au \<and> w_live w' = w_live w"
proof -
  let ?I = "\<lambda>(((P, au), i), w) y. extra (fst y) = extra au \<and> w_live (snd y) = w_live w"
  have "?I (((P, au), i), w) (au', w')"
    by (rule switch_state_session.raw_induct [where Pa = ?I, OF _ assms])
      (fastforce simp: bind_eq_Some_conv dest!: switch_once_keeps split: if_splits prod.splits)
  then show ?thesis by simp
qed

lemma switch_mapping_keeps:
  assumes "switch_state_mapping P au i w = Some (au', w')"
  shows "extra au' = extra au \<and> w_live w' = w_live w"
proof -
  let ?I = "\<lambda>(((P, au), i), w) y. extra (fst y) = extra au \<and> w_live (snd y) = w_live w"
  have "?I (((P, au), i), w) (au', w')"
    by (rule switch_state_mapping.raw_induct [where Pa = ?I, OF _ assms])
      (fastforce simp: bind_eq_Some_conv dest!: switch_once_keeps split: if_splits prod.splits)
  then show ?thesis by simp
qed

lemma switch_enumeration_keeps:
  "switch_state_enumeration P au i w = Some (au', w') \<Longrightarrow> extra au' = extra au \<and> w_live w' = w_live w"
  by (auto simp: switch_state_enumeration_def bind_eq_Some_conv Let_def case_prod_beta lltd_monotonic_seconds_def
      lltd_port_monotonic_seconds_def split: if_splits)

definition ctx_blocks :: "full_ctx \<Rightarrow> int" where
  "ctx_blocks c = blocks3 (lc_mapping c, lc_session c, lc_enumeration c)"

lemma raw_switches_keep:
  fixes c :: full_ctx
  assumes "raw_switches P op c w = Some (c', w')"
  shows "ctx_blocks c' = ctx_blocks c \<and> w_live w' = w_live w"
  using assms
  by (auto simp: raw_switches_def bind_eq_Some_conv ctx_blocks_def blocks3_def automata_blocks_def
      dest!: switch_mapping_keeps switch_session_keeps)

lemma raw_enumeration_keeps:
  assumes "raw_enumeration P op c w = Some (c', w')"
  shows "ctx_blocks c' = ctx_blocks c \<and> w_live w' = w_live w"
  using assms
  by (auto simp: raw_enumeration_def bind_eq_Some_conv ctx_blocks_def blocks3_def automata_blocks_def
      dest!: switch_enumeration_keeps split: if_splits)

text \<open>One frame of one interface.\<close>

lemma machines_run:
  assumes "full_ok c" "calm_clock P"
  shows "\<exists>c1 w1 c2 w2. raw_switches P op c w = Some (c1, w1) \<and> raw_enumeration P op c1 w1 = Some (c2, w2) \<and>
    full_ok c2 \<and> ctx_blocks c2 = ctx_blocks c \<and> w_live w2 = w_live w"
proof -
  obtain m n q where mn: "mapping_in m (lc_mapping c)" "session_in n (lc_session c)" "states_ok (lc_states c)"
    "enum_in q (lc_enumeration c)"
    using assms(1) by (auto simp: full_ok_def loop_ok_def)
  obtain c1 w1 m' n' where 1: "raw_switches P op c w = Some (c1, w1)" "mapping_in m' (lc_mapping c1)"
    "session_in n' (lc_session c1)" "lc_states c1 = lc_states c" "loop_ctx.more c1 = loop_ctx.more c"
    by (rule raw_switches_runs [OF mn(1,2) assms(2), where op = op and w = w]) blast
  have "lc_enumeration c1 = lc_enumeration c" using 1(5) by (cases c1; cases c) simp
  then have q: "enum_in q (lc_enumeration c1)" using mn(4) by simp
  obtain c2 w2 where 2: "raw_enumeration P op c1 w1 = Some (c2, w2)"
    "enum_in (raw_enum_after q op) (lc_enumeration c2)" "lc_mapping c2 = lc_mapping c1"
    "lc_session c2 = lc_session c1" "lc_states c2 = lc_states c1"
    by (rule raw_enumeration_runs [OF q, where op = op and P = P and w = w1]) blast
  have "full_ok c2" using 1 2 mn(3) by (auto simp: full_ok_def loop_ok_def)
  with 1(1) 2(1) raw_switches_keep [OF 1(1)] raw_enumeration_keeps [OF 2(1)] show ?thesis by simp
qed

section \<open>The contract of a backend\<close>

text \<open>
  \<open>sessions\<close> counts what \<open>initialize\<close> takes, \<open>start\<close> each time, \<open>handles\<close> what opening an
  interface takes, \<open>cost\<close> each time; a silent backend never delivers a frame.
\<close>

locale windows_backend =
  fixes B :: "'b windows_backend_ops"
    and sessions handles :: "'b \<Rightarrow> int"
    and start cost :: int
    and list_blocks :: "windows_interface_list \<Rightarrow> int"
    and silent :: bool
  assumes initialized: "wb_initialize B (b, w) = (ok, b', w') \<Longrightarrow>
      sessions b' = sessions b + (if ok then start else 0) \<and> handles b' = handles b \<and> w_live w' = w_live w"
    and shut_down: "wb_shutdown B (b, w) = (b', w') \<Longrightarrow>
      sessions b' = sessions b - start \<and> handles b' = handles b \<and> w_live w' = w_live w"
    and listed: "wb_listInterfaces B (b, w) = ((ok, l), b', w') \<Longrightarrow>
      sessions b' = sessions b \<and> handles b' = handles b \<and> w_live w' = w_live w + list_blocks l"
    and list_freed: "wb_freeInterfaceList B l (b, w) = (b', w') \<Longrightarrow>
      sessions b' = sessions b \<and> handles b' = handles b \<and> w_live w' = w_live w - list_blocks l"
    and opened: "wb_openInterface B name (b, w) = ((ok, h), b', w') \<Longrightarrow>
      sessions b' = sessions b \<and> handles b' = handles b + (if ok then cost else 0) \<and> w_live w' = w_live w"
    and closed: "wb_closeInterface B h (b, w) = (b', w') \<Longrightarrow>
      sessions b' = sessions b \<and> handles b' = handles b - cost \<and> w_live w' = w_live w"
    and received: "wb_receiveFrame B h 2048 (b, w) = ((bytes, buffer), b', w') \<Longrightarrow>
      sessions b' = sessions b \<and> handles b' = handles b \<and> w_live w' = w_live w \<and>
      (if silent then bytes \<le> 0 else bytes \<le> 0 \<or> 17 < length buffer)"
begin

lemma open_all_runs:
  assumes "\<forall>k n. p_malloc P k n"
  shows "\<exists>new b' w'. open_all B P names states (b, w) = Some (states @ new, b', w') \<and>
    (\<forall>s \<in> set new. fresh3 (lc_mapping (snd s), lc_session (snd s), lc_enumeration (snd s)) \<and> lc_states (snd s) = []) \<and>
    sessions b' = sessions b \<and> handles b' = handles b + cost * int (length new) \<and>
    w_live w' = w_live w + machine_blocks new"
proof (induction names arbitrary: states b w)
  case (Cons name names)
  obtain ok h b1 w1 where o1: "wb_openInterface B name (b, w) = ((ok, h), b1, w1)" by (metis prod_cases3 surj_pair)
  note f = opened [OF o1]
  show ?case
  proof (cases ok)
    case False
    with Cons.IH [of states b1 w1] f o1 show ?thesis by auto
  next
    case True
    obtain m s e w2 where ms: "init_machines3 P w1 = Some ((m, s, e), w2)" "fresh3 (m, s, e)"
      "w_live w2 = w_live w1 + blocks3 (m, s, e)"
      using init_machines3_runs [OF assms, of w1] by auto
    let ?c = "\<lparr>lc_mapping = m, lc_session = s, lc_states = [], lc_enumeration = e\<rparr>"
    obtain new b' w' where n: "open_all B P names (states @ [(h, ?c)]) (b1, w2) = Some ((states @ [(h, ?c)]) @ new, b', w')"
      "\<forall>s \<in> set new. fresh3 (lc_mapping (snd s), lc_session (snd s), lc_enumeration (snd s)) \<and> lc_states (snd s) = []"
      "sessions b' = sessions b1" "handles b' = handles b1 + cost * int (length new)"
      "w_live w' = w_live w2 + machine_blocks new"
      using Cons.IH [of "states @ [(h, ?c)]" b1 w2] by blast
    with True f ms show ?thesis
      by (intro exI [of _ "(h, ?c) # new"] exI [of _ b'] exI [of _ w'])
        (simp add: o1 distrib_left)
  qed
qed simp

lemma round_runs:
  assumes "silent \<or> calm_clock P" "\<forall>s \<in> set states. full_ok (snd s)"
  shows "\<exists>states' b' w'. windows_round B P states (b, w) = Some (states', b', w') \<and>
    (\<forall>s \<in> set states'. full_ok (snd s)) \<and> length states' = length states \<and> (silent \<longrightarrow> states' = states) \<and>
    sessions b' = sessions b \<and> handles b' = handles b \<and>
    w_live w' = w_live w \<and> machine_blocks states' = machine_blocks states"
  using assms(2)
proof (induction states arbitrary: b w)
  case (Cons s states)
  obtain h c where s: "s = (h, c)" by fastforce
  obtain bytes buffer b1 w1 where r: "wb_receiveFrame B h 2048 (b, w) = ((bytes, buffer), b1, w1)"
    by (metis prod_cases3 surj_pair)
  note f = received [OF r]
  obtain c2 w2 where step: "(if bytes \<le> 0 then Some (c, b1, w1)
      else do {
        op \<leftarrow> load_u8 buffer 17;
        (c, w) \<leftarrow> raw_switches P op c w1;
        (c, w) \<leftarrow> raw_enumeration P op c w;
        Some (c, (b1, w))
      }) = Some (c2, b1, w2)" "full_ok c2" "ctx_blocks c2 = ctx_blocks c" "w_live w2 = w_live w1"
    "silent \<longrightarrow> c2 = c"
  proof (cases "bytes \<le> 0")
    case True
    then show ?thesis using that [of c w1] Cons.prems s by simp
  next
    case False
    then have "17 < length buffer" "\<not> silent" using f by (auto split: if_splits)
    then have l: "load_u8 buffer 17 = Some (buffer ! 17)" by (simp add: load_u8_def)
    have "calm_clock P" using assms(1) \<open>\<not> silent\<close> by simp
    with machines_run [of c P "buffer ! 17" w1] Cons.prems s obtain c1 w3 c2 w2 where
      "raw_switches P (buffer ! 17) c w1 = Some (c1, w3)" "raw_enumeration P (buffer ! 17) c1 w3 = Some (c2, w2)"
      "full_ok c2" "ctx_blocks c2 = ctx_blocks c" "w_live w2 = w_live w1" by auto
    with False l \<open>\<not> silent\<close> show ?thesis using that [of c2 w2] by simp
  qed
  obtain states' b' w' where IH: "windows_round B P states (b1, w2) = Some (states', b', w')"
    "\<forall>s \<in> set states'. full_ok (snd s)" "length states' = length states" "silent \<longrightarrow> states' = states"
    "sessions b' = sessions b1" "handles b' = handles b1" "w_live w' = w_live w2"
    "machine_blocks states' = machine_blocks states"
    using Cons.IH [of b1 w2] Cons.prems by auto
  have "windows_round B P (s # states) (b, w) = Some ((h, c2) # states', b', w')"
    unfolding s windows_round.simps r
    by (simp only: Let_def prod.case fst_conv snd_conv step(1) Option.bind.simps IH(1))
  with f step(2-) IH s show ?case by (auto simp: ctx_blocks_def)
qed simp

lemma rounds_run:
  assumes "silent \<or> calm_clock P" "\<forall>s \<in> set states. full_ok (snd s)"
  shows "\<exists>states' b' w'. windows_rounds B P n states (b, w) = Some (states', b', w') \<and>
    (\<forall>s \<in> set states'. full_ok (snd s)) \<and> length states' = length states \<and> (silent \<longrightarrow> states' = states) \<and>
    sessions b' = sessions b \<and> handles b' = handles b \<and>
    w_live w' = w_live w \<and> machine_blocks states' = machine_blocks states"
  using assms(2)
proof (induction n arbitrary: states b w)
  case (Suc n)
  obtain s1 b1 w1 where 1: "windows_round B P states (b, w) = Some (s1, b1, w1)"
    "\<forall>s \<in> set s1. full_ok (snd s)" "length s1 = length states" "silent \<longrightarrow> s1 = states"
    "sessions b1 = sessions b" "handles b1 = handles b" "w_live w1 = w_live w" "machine_blocks s1 = machine_blocks states"
    using round_runs [OF assms(1) Suc.prems, of b w] by blast
  with Suc.IH [OF 1(2), of b1 w1] show ?case by auto
qed simp

lemma close_all_eq:
  "close_all B states (b, w) = (b', w') \<Longrightarrow> sessions b' = sessions b \<and>
    handles b' = handles b - cost * int (length states) \<and> w_live w' = w_live w - machine_blocks states"
proof (induction states arbitrary: b w)
  case (Cons s states)
  obtain h c where s: "s = (h, c)" by fastforce
  obtain b1 w1 where c1: "wb_closeInterface B h (b, w) = (b1, w1)" by fastforce
  from Cons.prems have "close_all B states (b1, free_machines3 (lc_mapping c, lc_session c, lc_enumeration c) w1) = (b', w')"
    by (simp add: s c1)
  from Cons.IH [OF this] closed [OF c1] show ?case
    by (simp add: s three.machines_freed distrib_left)
qed simp

lemma run_serves:
  assumes "\<forall>k n. p_malloc P k n" "silent \<or> calm_clock P"
    and "wb_initialize B (b, w) = (True, b1, w1)" "wb_listInterfaces B (b1, w1) = ((True, Some names), b2, w2)"
    and "names \<noteq> []"
  shows "\<exists>new bw3 states b' w'. open_all B P names [] (b2, snd (lltd_port_malloc P (sz * length names) w2)) = Some (new, bw3) \<and>
    runWindowsBackend (Some B) P sz rounds (b, w) = Some (0, states, b', w') \<and>
    length states = length new \<and> (silent \<longrightarrow> states = new) \<and> (\<forall>s \<in> set states. full_ok (snd s)) \<and>
    (\<forall>s \<in> set new. fresh3 (lc_mapping (snd s), lc_session (snd s), lc_enumeration (snd s))) \<and>
    sessions b' = sessions b \<and> handles b' = handles b \<and> w_live w' = w_live w"
proof -
  obtain w3 where m: "lltd_port_malloc P (sz * length names) w2 = (True, w3)" "w_live w3 = w_live w2 + 1"
    using assms(1) by (simp add: lltd_port_malloc_def Let_def)
  obtain new b4 w4 where o: "open_all B P names [] (b2, w3) = Some (new, b4, w4)"
    "\<forall>s \<in> set new. fresh3 (lc_mapping (snd s), lc_session (snd s), lc_enumeration (snd s)) \<and> lc_states (snd s) = []"
    "sessions b4 = sessions b2" "handles b4 = handles b2 + cost * int (length new)"
    "w_live w4 = w_live w3 + machine_blocks new"
    using open_all_runs [OF assms(1), of names "[]" b2 w3] by auto
  obtain states b5 w5 where r: "windows_rounds B P rounds new (b4, w4) = Some (states, b5, w5)"
    "\<forall>s \<in> set states. full_ok (snd s)" "length states = length new" "silent \<longrightarrow> states = new"
    "sessions b5 = sessions b4" "handles b5 = handles b4" "w_live w5 = w_live w4"
    "machine_blocks states = machine_blocks new"
    using rounds_run [OF assms(2), of new rounds b4 w4] o(2) fresh3_full_ok by blast
  obtain b6 w6 where c: "close_all B states (b5, w5) = (b6, w6)" by fastforce
  obtain b7 w7 where f: "wb_freeInterfaceList B (Some names) (b6, lltd_port_free w6) = (b7, w7)" by fastforce
  obtain b8 w8 where h: "wb_shutdown B (b7, w7) = (b8, w8)" by fastforce
  have "runWindowsBackend (Some B) P sz rounds (b, w) = Some (0, states, b8, w8)"
    using assms(3-5) m(1) o(1) r(1) c f h by (simp add: runWindowsBackend_def list_count_def)
  moreover have "sessions b8 = sessions b" "handles b8 = handles b" "w_live w8 = w_live w"
    using initialized [OF assms(3)] listed [OF assms(4)] m(2) o(3-) r(3,5-) close_all_eq [OF c] list_freed [OF f]
      shut_down [OF h] by simp_all
  ultimately show ?thesis using o(1,2) r(2,3,4) unfolding m(1) snd_conv by blast
qed

lemma run_refuses:
  assumes "wb_initialize B (b, w) = (True, b1, w1)" "wb_listInterfaces B (b1, w1) = ((ok, l), b2, w2)"
    and "\<not> ok \<or> list_count l = 0"
  shows "\<exists>b' w'. runWindowsBackend (Some B) P sz rounds (b, w) = Some (1, [], b', w') \<and>
    sessions b' = sessions b \<and> handles b' = handles b \<and> w_live w' = w_live w + list_blocks l"
proof -
  obtain b' w' where h: "wb_shutdown B (b2, w2) = (b', w')" by fastforce
  then show ?thesis
    using assms initialized [OF assms(1)] listed [OF assms(2)] shut_down [OF h]
    by (simp add: runWindowsBackend_def)
qed

end

section \<open>The backends keep the contract\<close>

definition ndis_blocks :: "windows_interface_list \<Rightarrow> int" where
  "ndis_blocks l = (case l of None \<Rightarrow> 0 | Some names \<Rightarrow> 1 + names_blocks names)"

lemma live_free_names:
  "w_live (foldl (\<lambda>w n. free_if (n \<noteq> None) w) w names) = w_live w - names_blocks names"
  by (induction names arbitrary: w) (auto simp: names_blocks_def)

lemmas ndis_defs = getWindowsBackendNdis_def ndisInitialize_def ndisShutdown_def ndisListInterfaces_def
  ndisFreeInterfaceList_def ndisOpenInterface_def ndisCloseInterface_def ndisReceiveFrame_def ndis_blocks_def

interpretation ndis: windows_backend "getWindowsBackendNdis nd stale" "\<lambda>b. b" "\<lambda>b. 0" 1 0 ndis_blocks True
  for nd stale
  by unfold_locales
    (auto simp: ndis_defs Let_def live_free_names simp del: not_None_eq split: if_splits option.splits)

interpretation legacy: windows_backend "getWindowsBackendLegacy stale" "\<lambda>b. 0" "\<lambda>b. 0" 0 0 "\<lambda>l. 0" True
  for stale
  by unfold_locales
    (auto simp: getWindowsBackendLegacy_def legacyInitialize_def legacyListInterfaces_def legacyFreeInterfaceList_def
      legacyOpenInterface_def legacyCloseInterface_def legacyReceiveFrame_def legacyShutdown_def)

section \<open>Properties\<close>

lemma ndis_opens_all:
  "open_all (getWindowsBackendNdis nd stale) P names states bw = Some (new, bw') \<Longrightarrow>
   length new = length states + length names"
  by (induction names arbitrary: states bw)
    (fastforce simp: ndis_defs bind_eq_Some_conv)+

text \<open>
  C38.  The NDIS daemon, when Windows answers and memory suffices, has one state for every
  adapter that is no loopback and has a name; however long it runs, no frame reaches its
  machines, which stay in their first states.  It ends with 0 and everything given back, or
  with 1 when there is no such adapter; then the array of names is not freed.
\<close>

theorem ndis_daemon_idle:
  assumes "\<forall>k n. p_malloc P k n" "nd_startup nd" "nd_malloc nd (nd_size nd)" "nd_adapters nd = Some adapters"
    and "nd_calloc nd (length (filter (\<lambda>a. \<not> fst a) adapters))"
  shows "\<exists>states w'. windows_main_ndis nd stale P sz rounds w =
      Some (if copy_adapters nd adapters = [] then 1 else 0, states, 0, w') \<and>
    length states = length (copy_adapters nd adapters) \<and>
    (\<forall>s \<in> set states. fresh3 (lc_mapping (snd s), lc_session (snd s), lc_enumeration (snd s))) \<and>
    w_live w' = w_live w + (if copy_adapters nd adapters = [] then 1 else 0)"
proof -
  let ?names = "copy_adapters nd adapters"
  let ?w = "w\<lparr>w_live := w_live w + 1 + names_blocks ?names\<rparr>"
  have i: "wb_initialize (getWindowsBackendNdis nd stale) (0, w) = (True, 1, w)"
    using assms(2) by (simp add: ndis_defs)
  have l: "wb_listInterfaces (getWindowsBackendNdis nd stale) (1, w) = ((0 < length ?names, Some ?names), 1, ?w)"
    using assms(3-5) by (simp add: ndis_defs Let_def)
  show ?thesis
  proof (cases "?names = []")
    case True
    with ndis.run_refuses [OF i l, of P sz rounds] show ?thesis
      by (simp add: windows_main_ndis_def list_count_def ndis_blocks_def names_blocks_def)
  next
    case False
    then have "(0 < length ?names) = True" by simp
    from ndis.run_serves [OF assms(1) _ i l [unfolded this] False, of sz rounds]
    show ?thesis
      using False by (auto simp: windows_main_ndis_def dest!: ndis_opens_all)
  qed
qed

definition demo_ndis :: ndis_env where
  "demo_ndis = \<lparr>nd_startup = True, nd_size = 4096,
     nd_adapters = Some [(True, Some ''lo''), (False, Some ''{A}''), (False, None)],
     nd_malloc = (\<lambda>n. True), nd_calloc = (\<lambda>n. True), nd_strdup = (\<lambda>n. True)\<rparr>"

theorem ndis_daemon_idle_witness:
  "\<exists>states w'. windows_main_ndis demo_ndis [] (linux_port demo_linux_env (\<lambda>i. demo_linux)) 64 1000 world0 =
      Some (0, states, 0, w') \<and> length states = 1 \<and> w_live w' = 0"
  using ndis_daemon_idle [OF demo_linux_malloc, where nd = demo_ndis and stale = "[]" and sz = 64
      and rounds = 1000 and w = world0 and adapters = "[(True, Some ''lo''), (False, Some ''{A}''), (False, None)]"]
  by (auto simp: demo_ndis_def world0_def)

text \<open>The legacy backend lists no interface, so the daemon never starts.\<close>

lemma legacy_daemon_refuses: "windows_main_legacy stale P sz rounds w = Some (1, [], (), w)"
  by (simp add: windows_main_legacy_def runWindowsBackend_def getWindowsBackendLegacy_def legacyInitialize_def
      legacyListInterfaces_def legacyShutdown_def)

text \<open>What the firmware gets from the ESP32 set-up: machines the frame handler can run on.\<close>

lemma esp32_init_runs:
  assumes "\<forall>k n. p_malloc P k n"
  obtains c w' where "lltd_esp32_init P icon (Some c0) w = Some (Some c, w')" "full_ok (es_machines c)"
    "es_hostname (the (lltd_esp32_set_identity hostname uuid (Some c))) = hostname"
proof -
  obtain m s e w1 where "init_machines3 P w = Some ((m, s, e), w1)" "fresh3 (m, s, e)"
    using init_machines3_runs [OF assms, of w] by auto
  then show ?thesis
    by (intro that [of "\<lparr>es_machines = \<lparr>lc_mapping = m, lc_session = s, lc_states = [], lc_enumeration = e\<rparr>,
        es_icon = icon, es_icon_size = length icon, es_hostname = None, es_uuid = None\<rparr>" w1])
      (simp_all add: lltd_esp32_init_def fresh3_full_ok lltd_esp32_set_identity_def)
qed

end
