(* ===== verification/LltdSunos.thy ===== *)
theory LltdSunos
  imports LltdDaemonProps
begin

text \<open>
  The SunOS daemon, os/sunos/daemon/sunos-dlpi.c: the links NWAM names, a DLPI handle and a
  thread for each, and the end.  NWAM, DLPI and the allocations are parameters; the objects of
  NWAM are its own and not counted.
\<close>

section \<open>State\<close>

record sunos_env =
  nw_ncus :: "(bool \<times> string option) list option"  \<comment> \<open>is a link, name; none when NWAM fails\<close>
  nw_calloc :: bool
  nw_strdup :: "string \<Rightarrow> bool"
  dl_open :: "string option \<Rightarrow> int option"
  dl_bind :: "int \<Rightarrow> bool"

record sunos_interface =
  su_name :: "string option"
  su_handle :: int
  su_machines :: machines3
  su_thread :: bool

record sunos_daemon =
  sn_world :: world
  sn_handles :: "fd_event list"
  sn_states :: "sunos_interface list"

section \<open>Operations\<close>

text \<open>
  The names of the links; the copy of a name is not tested, the name itself is freed.  The
  array is not tested either: storing into a null pointer has no outcome.
\<close>

fun link_names :: "sunos_env \<Rightarrow> (bool \<times> string option) list \<Rightarrow> string option list" where
  "link_names env [] = []"
| "link_names env ((is_link, name) # ncus) =
     (if \<not> is_link then link_names env ncus
      else case name of
        None \<Rightarrow> link_names env ncus
      | Some n \<Rightarrow> (if nw_strdup env n then Some n else None) # link_names env ncus)"

definition copied_names :: "string option list \<Rightarrow> int" where
  "copied_names names = int (length (filter (\<lambda>n. n \<noteq> None) names))"

definition collectNwamLinks :: "sunos_env \<Rightarrow> world \<Rightarrow> (string option list option \<times> world) option" where
  "collectNwamLinks env w =
     (case nw_ncus env of
        None \<Rightarrow> Some (None, w)
      | Some ncus \<Rightarrow>
          let names = link_names env ncus in
          if names = [] then Some (None, w)
          else if \<not> nw_calloc env then None
          else Some (Some names, w\<lparr>w_live := w_live w + 1 + copied_names names\<rparr>))"

definition sunos_freeInterfaceList :: "string option list \<Rightarrow> world \<Rightarrow> world" where
  "sunos_freeInterfaceList names w = lltd_port_free (foldl (\<lambda>w n. free_if (n \<noteq> None) w) w names)"

fun sunos_start ::
    "sunos_env \<Rightarrow> port \<Rightarrow> (nat \<Rightarrow> bool) \<Rightarrow> string option list \<Rightarrow> sunos_daemon \<Rightarrow> sunos_daemon option" where
  "sunos_start env P spawn [] d = Some d"
| "sunos_start env P spawn (name # names) d =
     (case dl_open env name of
        None \<Rightarrow> sunos_start env P spawn names d
      | Some h \<Rightarrow>
          if \<not> dl_bind env h
          then sunos_start env P spawn names (d\<lparr>sn_handles := sn_handles d @ [FdOpen h, FdClose h]\<rparr>)
          else do {
            (ms, w) \<leftarrow> init_machines3 P (sn_world d);
            let s = \<lparr>su_name = name, su_handle = h, su_machines = ms, su_thread = spawn (length (sn_states d))\<rparr>;
            sunos_start env P spawn names
              (d\<lparr>sn_handles := sn_handles d @ [FdOpen h], sn_world := w, sn_states := sn_states d @ [s]\<rparr>)
          })"

fun sunos_stop ::
    "(nat \<Rightarrow> machines3 \<Rightarrow> machines3) \<Rightarrow> nat \<Rightarrow> sunos_interface list \<Rightarrow> sunos_daemon \<Rightarrow> sunos_daemon option" where
  "sunos_stop work k [] d = Some d"
| "sunos_stop work k (s # ss) d =
     (if \<not> su_thread s then None
      else sunos_stop work (k + 1) ss
        (d\<lparr>sn_handles := sn_handles d @ [FdClose (su_handle s)],
           sn_world := free_machines3 (work k (su_machines s)) (sn_world d)\<rparr>))"

definition runSunosDlpi ::
    "sunos_env \<Rightarrow> port \<Rightarrow> nat \<Rightarrow> (nat \<Rightarrow> bool) \<Rightarrow> (nat \<Rightarrow> machines3 \<Rightarrow> machines3) \<Rightarrow> world \<Rightarrow>
     (int \<times> sunos_daemon) option" where
  "runSunosDlpi env P sz spawn work w = do {
     (listed, w) \<leftarrow> collectNwamLinks env w;
     case listed of
       None \<Rightarrow> Some (1, \<lparr>sn_world = w, sn_handles = [], sn_states = []\<rparr>)
     | Some names \<Rightarrow>
         let (ok, w) = lltd_port_malloc P (sz * length names) w in
         if \<not> ok then
           Some (1, \<lparr>sn_world = sunos_freeInterfaceList names w, sn_handles = [], sn_states = []\<rparr>)
         else do {
           d \<leftarrow> sunos_start env P spawn names \<lparr>sn_world = w, sn_handles = [], sn_states = []\<rparr>;
           d \<leftarrow> sunos_stop work 0 (sn_states d) d;
           Some (0, d\<lparr>sn_world := sunos_freeInterfaceList names (lltd_port_free (sn_world d))\<rparr>)
         }
   }"

section \<open>Lemmas\<close>

definition sunos_blocks :: "sunos_interface list \<Rightarrow> int" where
  "sunos_blocks ss = sum_list (map (\<lambda>s. blocks3 (su_machines s)) ss)"

definition sunos_fds :: "sunos_interface list \<Rightarrow> int \<Rightarrow> int" where
  "sunos_fds ss h = int (length (filter (\<lambda>s. su_handle s = h) ss))"

lemma sunos_sums [simp]:
  "sunos_blocks [] = 0" "sunos_blocks (s # ss) = blocks3 (su_machines s) + sunos_blocks ss"
  "sunos_fds [] h = 0" "sunos_fds (s # ss) h = (if su_handle s = h then 1 else 0) + sunos_fds ss h"
  by (simp_all add: sunos_blocks_def sunos_fds_def)

lemma live_sunos_list: "w_live (sunos_freeInterfaceList names w) = w_live w - 1 - copied_names names"
proof -
  have "w_live (foldl (\<lambda>w n. free_if (n \<noteq> None) w) w names) = w_live w - copied_names names" for w
    by (induction names arbitrary: w) (auto simp: copied_names_def)
  then show ?thesis by (simp add: sunos_freeInterfaceList_def del: not_None_eq)
qed

definition dlpi_opens :: "sunos_env \<Rightarrow> string option \<Rightarrow> bool" where
  "dlpi_opens env name \<longleftrightarrow> (case dl_open env name of None \<Rightarrow> False | Some h \<Rightarrow> dl_bind env h)"

lemma sunos_start_runs:
  assumes "\<forall>k n. p_malloc P k n" "\<forall>k. spawn k"
  shows "\<exists>d' new. sunos_start env P spawn names d = Some d' \<and> sn_states d' = sn_states d @ new \<and>
    map su_name new = filter (dlpi_opens env) names \<and>
    (\<forall>s \<in> set new. su_thread s \<and> fresh3 (su_machines s)) \<and>
    (\<forall>h. fd_balance (sn_handles d') h = fd_balance (sn_handles d) h + sunos_fds new h) \<and>
    w_live (sn_world d') = w_live (sn_world d) + sunos_blocks new"
proof (induction names arbitrary: d)
  case (Cons name names)
  consider "dl_open env name = None" | h where "dl_open env name = Some h" "\<not> dl_bind env h"
    | h where "dl_open env name = Some h" "dl_bind env h" by (cases "dl_open env name") auto
  then show ?case
  proof cases
    case 1
    then show ?thesis using Cons.IH [of d] by (simp add: dlpi_opens_def)
  next
    case 2
    then show ?thesis
      using Cons.IH [of "d\<lparr>sn_handles := sn_handles d @ [FdOpen h, FdClose h]\<rparr>"] by (simp add: dlpi_opens_def)
  next
    case 3
    obtain ms w where ms: "init_machines3 P (sn_world d) = Some (ms, w)" "fresh3 ms"
      "w_live w = w_live (sn_world d) + blocks3 ms" using init_machines3_runs [OF assms(1)] by blast
    let ?s = "\<lparr>su_name = name, su_handle = h, su_machines = ms, su_thread = spawn (length (sn_states d))\<rparr>"
    let ?d = "d\<lparr>sn_handles := sn_handles d @ [FdOpen h], sn_world := w, sn_states := sn_states d @ [?s]\<rparr>"
    obtain d' new where r: "sunos_start env P spawn names ?d = Some d'" "sn_states d' = sn_states ?d @ new"
      "map su_name new = filter (dlpi_opens env) names" "\<forall>s \<in> set new. su_thread s \<and> fresh3 (su_machines s)"
      "\<forall>h. fd_balance (sn_handles d') h = fd_balance (sn_handles ?d) h + sunos_fds new h"
      "w_live (sn_world d') = w_live (sn_world ?d) + sunos_blocks new"
      using Cons.IH [of ?d] by blast
    have "sunos_start env P spawn (name # names) d = Some d'" using 3 ms(1) r(1) by simp
    moreover have "dlpi_opens env name" using 3 by (simp add: dlpi_opens_def)
    ultimately show ?thesis
      using r(2-) ms(2,3) spec [OF assms(2), of "length (sn_states d)"]
      by (intro exI [of _ d'] exI [of _ "?s # new"]) (simp del: sunos_start.simps)
  qed
qed simp

lemma sunos_stop_runs:
  assumes "\<forall>s \<in> set ss. su_thread s" "\<And>k m. blocks3 (work k m) = blocks3 m"
  shows "\<exists>d'. sunos_stop work k ss d = Some d' \<and> sn_states d' = sn_states d \<and>
    (\<forall>h. fd_balance (sn_handles d') h = fd_balance (sn_handles d) h - sunos_fds ss h) \<and>
    w_live (sn_world d') = w_live (sn_world d) - sunos_blocks ss"
  using assms(1)
proof (induction ss arbitrary: k d)
  case (Cons s ss)
  let ?d = "d\<lparr>sn_handles := sn_handles d @ [FdClose (su_handle s)],
    sn_world := free_machines3 (work k (su_machines s)) (sn_world d)\<rparr>"
  have "w_live (sn_world ?d) = w_live (sn_world d) - blocks3 (su_machines s)"
    by (simp add: three.machines_freed assms(2))
  with Cons.IH [of "k + 1" ?d] Cons.prems show ?case by auto
qed simp

section \<open>Property\<close>

text \<open>
  C37.  The SunOS daemon, when memory suffices and every thread is created, ends with 1 if
  NWAM names no link, and otherwise serves the links DLPI can open and bind and ends with 0;
  both ways every block it took is freed and every handle closed.
\<close>

theorem sunos_daemon_ends:
  assumes "\<forall>k n. p_malloc P k n" "\<forall>k. spawn k" "\<forall>k ms. blocks3 (work k ms) = blocks3 ms"
    and "nw_calloc env" "nw_ncus env = Some ncus"
  shows "\<exists>d. runSunosDlpi env P sz spawn work w = Some (if link_names env ncus = [] then 1 else 0, d) \<and>
    map su_name (sn_states d) = filter (dlpi_opens env) (link_names env ncus) \<and>
    (\<forall>h. fd_balance (sn_handles d) h = 0) \<and> w_live (sn_world d) = w_live w"
proof (cases "link_names env ncus = []")
  case True
  then show ?thesis using assms(5) by (simp add: runSunosDlpi_def collectNwamLinks_def)
next
  case False
  let ?names = "link_names env ncus"
  have work: "blocks3 (work k ms) = blocks3 ms" for k ms using assms(3) by blast
  let ?w1 = "w\<lparr>w_live := w_live w + 1 + copied_names ?names\<rparr>"
  obtain w2 where w2: "lltd_port_malloc P (sz * length ?names) ?w1 = (True, w2)" "w_live w2 = w_live ?w1 + 1"
    using assms(1) by (simp add: lltd_port_malloc_def Let_def)
  let ?d0 = "\<lparr>sn_world = w2, sn_handles = [], sn_states = []\<rparr>"
  obtain d1 new where 1: "sunos_start env P spawn ?names ?d0 = Some d1" "sn_states d1 = new"
    "map su_name new = filter (dlpi_opens env) ?names" "\<forall>s \<in> set new. su_thread s \<and> fresh3 (su_machines s)"
    "\<forall>h. fd_balance (sn_handles d1) h = sunos_fds new h" "w_live (sn_world d1) = w_live w2 + sunos_blocks new"
    using sunos_start_runs [OF assms(1,2), of env ?names ?d0] by auto
  obtain d2 where 2: "sunos_stop work 0 new d1 = Some d2" "sn_states d2 = new"
    "\<forall>h. fd_balance (sn_handles d2) h = fd_balance (sn_handles d1) h - sunos_fds new h"
    "w_live (sn_world d2) = w_live (sn_world d1) - sunos_blocks new"
    using sunos_stop_runs [of new work 0 d1] work 1(2,4) by auto
  show ?thesis
    using False assms(4,5) w2 1 2
    by (intro exI [of _ "d2\<lparr>sn_world := sunos_freeInterfaceList ?names (lltd_port_free (sn_world d2))\<rparr>"])
      (simp add: runSunosDlpi_def collectNwamLinks_def live_sunos_list Let_def)
qed

definition demo_sunos :: sunos_env where
  "demo_sunos = \<lparr>nw_ncus = Some [(False, Some ''ip''), (True, Some ''net0''), (True, Some ''net1'')], nw_calloc = True,
     nw_strdup = (\<lambda>n. True), dl_open = (\<lambda>n. if n = Some ''net0'' then Some 4 else Some 6), dl_bind = (\<lambda>h. h = 4)\<rparr>"

theorem sunos_daemon_ends_witness:
  "\<exists>d. runSunosDlpi demo_sunos (linux_port demo_linux_env (\<lambda>i. demo_linux)) 64 (\<lambda>k. True) (\<lambda>k ms. ms) world0 =
      Some (0, d) \<and> map su_name (sn_states d) = [Some ''net0''] \<and> fd_balance (sn_handles d) 6 = 0 \<and>
    w_live (sn_world d) = 0"
  using sunos_daemon_ends [OF demo_linux_malloc, where env = demo_sunos and spawn = "\<lambda>k. True"
      and work = "\<lambda>k ms. ms" and sz = 64 and w = world0
      and ncus = "[(False, Some ''ip''), (True, Some ''net0''), (True, Some ''net1'')]"]
  by (auto simp: demo_sunos_def dlpi_opens_def world0_def)

end
