(* ===== verification/LltdHostOps.thy ===== *)
theory LltdHostOps
  imports LltdDaemonProps LltdDarwinPort
begin

unbundle bit_operations_syntax

text \<open>
  The property sources of the daemons: os/linux/daemon/linux-ops.c,
  os/freebsd/daemon/freebsd-ops.c, os/esxi/daemon/esxi-ops.c, os/sunos/daemon/sunos-ops.c,
  os/beos/daemon/beos-ops.c, os/windows/win32-user/windows-ops.c, and the functions of
  os/darwin/daemon/darwin-ops.c that LltdDarwinPort does not need.

  A pointer that the function tests is an option, \<^term>\<open>None\<close> for null, and stands for the
  variable it points to; pointers that are not tested are valid.  A file of the first group
  is a \<open>host_ops\<close> record of its functions.
\<close>

section \<open>Strings\<close>

text \<open>
  Every file but linux-ops.c has the same \<open>copyAsciiToUcs2le\<close>.  The block of \<open>malloc\<close> holds
  arbitrary bytes, which the loop overwrites in bounds.
\<close>

fun ucs2_loop :: "u8 list \<Rightarrow> nat \<Rightarrow> u8 list \<Rightarrow> u8 list option" where
  "ucs2_loop [] i buffer = Some buffer"
| "ucs2_loop (c # input) i buffer = do {
     buffer \<leftarrow> store_u8 buffer (i * 2) c;
     buffer \<leftarrow> store_u8 buffer (i * 2 + 1) 0;
     ucs2_loop input (i + 1) buffer
   }"

definition copyAsciiToUcs2le ::
    "(nat \<Rightarrow> u8 list option) \<Rightarrow> u8 list option \<Rightarrow> (u8 list option \<times> nat) option" where
  "copyAsciiToUcs2le malloc input =
     (case input of
        None \<Rightarrow> Some (None, 0)
      | Some s \<Rightarrow>
          (case malloc (length s * 2) of
             None \<Rightarrow> Some (None, 0)
           | Some buffer \<Rightarrow> map_option (\<lambda>b. (Some b, length s * 2)) (ucs2_loop s 0 buffer)))"

text \<open>linux-ops.c copies the bytes with their terminator; both out-pointers are tested.\<close>

definition lltd_dup_string ::
    "(nat \<Rightarrow> u8 list option) \<Rightarrow> u8 list option \<Rightarrow> (u8 list option \<times> nat) option \<Rightarrow>
     (u8 list option \<times> nat) option option" where
  "lltd_dup_string malloc val out =
     (case out of
        None \<Rightarrow> Some None
      | Some _ \<Rightarrow>
          (case val of
             None \<Rightarrow> Some (Some (None, 0))
           | Some s \<Rightarrow>
               (case malloc (length s + 1) of
                  None \<Rightarrow> Some (Some (None, 0))
                | Some copy \<Rightarrow> map_option (\<lambda>b. Some (Some b, length s)) (store_bytes copy 0 (s @ [0])))))"

section \<open>Promiscuous mode on FreeBSD\<close>

abbreviation (input) IFF_PROMISC :: "'a::len word" where "IFF_PROMISC \<equiv> 0x100"
abbreviation (input) IFF_RUNNING :: "'a::len word" where "IFF_RUNNING \<equiv> 0x40"

text \<open>
  FreeBSD: \<open>sock\<close> is the result of \<open>socket\<close>, \<open>current\<close> the flags \<open>SIOCGIFFLAGS\<close> gives.  The result
  is what happened to descriptors and the flags handed to \<open>SIOCSIFFLAGS\<close>.
\<close>

definition freebsd_setPromiscuous ::
    "bool \<Rightarrow> int \<Rightarrow> u16 option \<Rightarrow> bool \<Rightarrow> fd_event list \<times> u16 option" where
  "freebsd_setPromiscuous named sock current on =
     (if \<not> named then ([], None)
      else if sock < 0 then ([], None)
      else
        ([FdOpen sock, FdClose sock],
         map_option (\<lambda>ifr_flags. if on then ifr_flags OR IFF_PROMISC else ifr_flags AND NOT IFF_PROMISC) current))"

section \<open>The sources of one platform\<close>

text \<open>
  What the system gives: the host name, a fresh identifier, and memory; \<open>malloc\<close> returns the
  bytes the block holds.  For \<open>setPromiscuous\<close>: whether the interface is known and has a name,
  the result of \<open>socket\<close>, and the flags of the interface.
\<close>

record host_env =
  he_little_endian :: bool
  he_malloc :: "nat \<Rightarrow> u8 list option"
  he_calloc :: bool
  he_gethostname :: "u8 list option"
  he_uuid :: "u8 list option"
  he_named :: bool
  he_socket :: int
  he_flags :: "u16 option"

record host_ops =
  ho_getUpnpUuid :: "u8 list option option"
  ho_getIconImage :: "u8 list option \<times> nat"
  ho_getMachineName :: "(u8 list option \<times> nat) option"
  ho_getFriendlyName :: "(u8 list option \<times> nat) option"
  ho_getSupportInfo :: "(u8 list option \<times> nat) option"
  ho_getWifiMode :: bool
  ho_getBSSID :: "bool \<times> u8 list option"
  ho_getHwId :: "u8 list option \<Rightarrow> u8 list option option"
  ho_getDetailedIconImage :: "u8 list option \<times> nat"
  ho_getHostCharacteristics :: "u16 option \<Rightarrow> u16 option"
  ho_getComponentTable :: "u8 list option \<times> nat"
  ho_setPromiscuous :: "bool \<Rightarrow> fd_event list \<times> u16 option"

text \<open>A copy of an identifier, the first \<open>n\<close> bytes of a buffer set to zero, the characteristics.\<close>

definition copy_uuid :: "host_env \<Rightarrow> u8 list option option" where
  "copy_uuid env =
     (case he_uuid env of
        None \<Rightarrow> Some None
      | Some uuid \<Rightarrow>
          (case he_malloc env (length uuid) of
             None \<Rightarrow> Some None
           | Some block \<Rightarrow> map_option Some (store_bytes block 0 uuid)))"

definition zero_hw_id :: "nat \<Rightarrow> u8 list option \<Rightarrow> u8 list option option" where
  "zero_hw_id n data =
     (case data of None \<Rightarrow> Some None | Some buf \<Rightarrow> map_option Some (store_bytes buf 0 (replicate n 0)))"

definition getHostCharacteristics :: "bool \<Rightarrow> u16 option \<Rightarrow> u16 option" where
  "getHostCharacteristics le data = map_option (\<lambda>_. lltd_htons le Config_TLV_HasManagementURL_Value) data"

definition machine_name :: "host_env \<Rightarrow> (u8 list option \<times> nat) option" where
  "machine_name env =
     (case he_gethostname env of
        None \<Rightarrow> Some (None, 0)
      | Some hostname \<Rightarrow> copyAsciiToUcs2le (he_malloc env) (Some hostname))"

definition esxi_ops :: "host_env \<Rightarrow> host_ops" where
  "esxi_ops env =
     \<lparr>ho_getUpnpUuid = copy_uuid env, ho_getIconImage = (None, 0),
      ho_getMachineName = machine_name env, ho_getFriendlyName = machine_name env,
      ho_getSupportInfo = Some (None, 0), ho_getWifiMode = False, ho_getBSSID = (False, None),
      ho_getHwId = zero_hw_id 16, ho_getDetailedIconImage = (None, 0),
      ho_getHostCharacteristics = getHostCharacteristics (he_little_endian env),
      ho_getComponentTable = (None, 0),
      ho_setPromiscuous = (\<lambda>on. ([], None))\<rparr>"

definition freebsd_ops :: "host_env \<Rightarrow> host_ops" where
  "freebsd_ops env =
     \<lparr>ho_getUpnpUuid = copy_uuid env, ho_getIconImage = (None, 0),
      ho_getMachineName = machine_name env, ho_getFriendlyName = machine_name env,
      ho_getSupportInfo = Some (None, 0), ho_getWifiMode = False, ho_getBSSID = (False, None),
      ho_getHwId = zero_hw_id 16, ho_getDetailedIconImage = (None, 0),
      ho_getHostCharacteristics = getHostCharacteristics (he_little_endian env),
      ho_getComponentTable = (None, 0),
      ho_setPromiscuous = freebsd_setPromiscuous (he_named env) (he_socket env) (he_flags env)\<rparr>"

definition sunos_ops :: "host_env \<Rightarrow> host_ops" where
  "sunos_ops env =
     \<lparr>ho_getUpnpUuid = Some None, ho_getIconImage = (None, 0),
      ho_getMachineName = machine_name env, ho_getFriendlyName = machine_name env,
      ho_getSupportInfo = Some (None, 0), ho_getWifiMode = False, ho_getBSSID = (False, None),
      ho_getHwId = zero_hw_id 16, ho_getDetailedIconImage = (None, 0),
      ho_getHostCharacteristics = getHostCharacteristics (he_little_endian env),
      ho_getComponentTable = (None, 0),
      ho_setPromiscuous = (\<lambda>on. ([], None))\<rparr>"

definition beos_ops :: "host_env \<Rightarrow> host_ops" where
  "beos_ops env =
     (let name = copyAsciiToUcs2le (he_malloc env) (Some (c_literal ''beos-host'')) in
      \<lparr>ho_getUpnpUuid = Some None, ho_getIconImage = (None, 0),
       ho_getMachineName = name, ho_getFriendlyName = name,
       ho_getSupportInfo = Some (None, 0), ho_getWifiMode = False, ho_getBSSID = (False, None),
       ho_getHwId = zero_hw_id 16, ho_getDetailedIconImage = (None, 0),
       ho_getHostCharacteristics = getHostCharacteristics (he_little_endian env),
       ho_getComponentTable = (None, 0),
       ho_setPromiscuous = (\<lambda>on. ([], None))\<rparr>)"

text \<open>On Windows the name is \<open>GetComputerNameA\<close>'s; elsewhere the file is built with a fixed one.\<close>

definition windows_ops :: "bool \<Rightarrow> host_env \<Rightarrow> host_ops" where
  "windows_ops on_windows env =
     (let name = (if on_windows then machine_name env
            else copyAsciiToUcs2le (he_malloc env) (Some (c_literal ''windows-host''))) in
      \<lparr>ho_getUpnpUuid = (if on_windows then copy_uuid env else Some None), ho_getIconImage = (None, 0),
       ho_getMachineName = name, ho_getFriendlyName = name,
       ho_getSupportInfo = Some (None, 0), ho_getWifiMode = False, ho_getBSSID = (False, None),
       ho_getHwId = zero_hw_id 16, ho_getDetailedIconImage = (None, 0),
       ho_getHostCharacteristics = getHostCharacteristics (he_little_endian env),
       ho_getComponentTable = (None, 0),
       ho_setPromiscuous = (\<lambda>on. ([], None))\<rparr>)"

text \<open>linux-ops.c, with valid pointers; the characteristics are left as they are.\<close>

definition dup_literal :: "host_env \<Rightarrow> string \<Rightarrow> (u8 list option \<times> nat) option" where
  "dup_literal env s = map_option the (lltd_dup_string (he_malloc env) (Some (c_literal s)) (Some (None, 0)))"

definition linux_ops :: "host_env \<Rightarrow> host_ops" where
  "linux_ops env =
     \<lparr>ho_getUpnpUuid = Some (if he_calloc env then Some (replicate 16 0) else None),
      ho_getIconImage = (None, 0),
      ho_getMachineName = dup_literal env ''lltd-linux'',
      ho_getFriendlyName = dup_literal env ''LLTD Responder'',
      ho_getSupportInfo = dup_literal env ''https://example.invalid/support'',
      ho_getWifiMode = False, ho_getBSSID = (False, None),
      ho_getHwId = zero_hw_id 64, ho_getDetailedIconImage = (None, 0),
      ho_getHostCharacteristics = (\<lambda>data. data),
      ho_getComponentTable = (None, 0),
      ho_setPromiscuous = (\<lambda>on. ([], None))\<rparr>"

text \<open>The wireless sources of linux-ops.c: nothing is known; what the pointers name is cleared.\<close>

definition linux_getSSID :: "u8 list option option \<Rightarrow> nat option \<Rightarrow> bool \<times> u8 list option option \<times> nat option" where
  "linux_getSSID ssid sz = (False, map_option (\<lambda>_. None) ssid, map_option (\<lambda>_. 0) sz)"

definition linux_getWifiMaxRate :: "u32 option \<Rightarrow> bool \<times> u32 option" where
  "linux_getWifiMaxRate rateMbps = (False, map_option (\<lambda>_. 0) rateMbps)"

definition linux_getWifiRssi :: "u8 option \<Rightarrow> bool \<times> u8 option" where
  "linux_getWifiRssi rssi = (False, map_option (\<lambda>_. 0) rssi)"

definition linux_getWifiPhyMedium :: "u32 option \<Rightarrow> bool \<times> u32 option" where
  "linux_getWifiPhyMedium phyMedium = (False, map_option (\<lambda>_. 0) phyMedium)"

section \<open>Promiscuous mode on macOS\<close>

text \<open>
  macOS: the name is copied into a block of the length of the name by a \<open>strncpy\<close> of 16 bytes,
  which always writes 16.  The flags of the record are cleared with the logical negation of
  the constant, which is zero.  \<open>current\<close> is zero when \<open>SIOCGIFFLAGS\<close> fails.
\<close>

definition darwin_setPromiscuous ::
    "(nat \<Rightarrow> u8 list option) \<Rightarrow> u8 list \<Rightarrow> u64 \<Rightarrow> u16 \<Rightarrow> bool \<Rightarrow> (u64 \<times> u16 option) option" where
  "darwin_setPromiscuous malloc deviceName flags current on = do {
     let ifNameLength = min (length deviceName) 16;
     block \<leftarrow> malloc ifNameLength;
     interfaceName \<leftarrow> store_bytes block 0 (take 16 (deviceName @ replicate 16 0));
     if flags AND IFF_UP \<noteq> 0 \<and> flags AND IFF_RUNNING \<noteq> 0 then
       (if flags AND IFF_PROMISC \<noteq> 0 \<and> on then Some (flags OR IFF_PROMISC, None)
        else Some (flags AND 0, Some (if on then current OR IFF_PROMISC else current AND NOT IFF_PROMISC)))
     else Some (flags, None)
   }"

section \<open>The other functions of darwin-ops.c\<close>

text \<open>
  The answer of \<open>SIOCGIFMEDIA\<close>: whether it is supported, the status, and what the macros
  \<open>IFM_TYPE\<close> and \<open>IFM_OPTIONS\<close> make of the active medium.  A failed allocation or second call
  is only logged.
\<close>

record media_request =
  me_supported :: bool
  me_status :: u32
  me_type :: u32
  me_options :: u32

abbreviation (input) IFM_AVALID :: u32 where "IFM_AVALID \<equiv> 1"
abbreviation (input) IFM_IEEE80211 :: u32 where "IFM_IEEE80211 \<equiv> 0x80"
abbreviation (input) IFM_IEEE80211_ADHOC :: u32 where "IFM_IEEE80211_ADHOC \<equiv> 0x100"

definition getWifiMode :: "media_request \<Rightarrow> bool" where
  "getWifiMode req =
     (if \<not> me_supported req then False
      else if me_status req AND IFM_AVALID \<noteq> 0 then
        (if me_type req = IFM_IEEE80211 then
           (if me_options req = IFM_IEEE80211_ADHOC then False else True)
         else False)
      else False)"

definition darwin_getUpnpUuid :: "(nat \<Rightarrow> u8 list option) \<Rightarrow> u8 list option \<Rightarrow> u8 list option option" where
  "darwin_getUpnpUuid malloc platform_uuid =
     (case platform_uuid of
        None \<Rightarrow> Some None
      | Some uuidBytes \<Rightarrow>
          do { block \<leftarrow> malloc (length uuidBytes); map_option Some (store_bytes block 0 uuidBytes) })"

text \<open>
  The names of the machine.  \<open>encoded\<close> are the bytes of the string in the encoding, \<open>maxSize\<close> what
  \<open>CFStringGetMaximumSizeForEncoding\<close> says of it, which does not count a terminator.  The size
  handed to \<open>CFStringGetCString\<close> is the address of \<open>stringSize\<close>, so it limits nothing: the bytes
  and the terminator are written.
\<close>

definition darwin_getMachineName :: "(nat \<Rightarrow> u8 list option) \<Rightarrow> nat \<Rightarrow> u8 list \<Rightarrow> (u8 list \<times> nat) option" where
  "darwin_getMachineName malloc maxSize encoded = do {
     data \<leftarrow> malloc maxSize;
     data \<leftarrow> store_bytes data 0 (encoded @ [0]);
     Some (data, maxSize)
   }"

definition darwin_getFriendlyName :: "(nat \<Rightarrow> u8 list option) \<Rightarrow> nat \<Rightarrow> u8 list \<Rightarrow> (u8 list \<times> nat) option" where
  "darwin_getFriendlyName malloc maxSize encoded = do {
     data \<leftarrow> malloc maxSize;
     data \<leftarrow> store_bytes data 0 (encoded @ [0]);
     Some (data, maxSize)
   }"

text \<open>\<open>CFStringGetBytes\<close> writes as many whole UTF-16 units as fit.\<close>

definition darwin_getHwId :: "u16 list option \<Rightarrow> u8 list option \<Rightarrow> u8 list option option" where
  "darwin_getHwId platformUUID data =
     (case data of
        None \<Rightarrow> Some None
      | Some buf \<Rightarrow>
          (case platformUUID of
             None \<Rightarrow> Some (Some buf)
           | Some units \<Rightarrow>
               map_option Some (do {
                 buf \<leftarrow> store_bytes buf 0 (replicate 64 0);
                 store_bytes buf 0 (take 64 (concat (map (mem_of_u16 True) units)))
               })))"

definition getQosCharacteristics :: "u16 option \<Rightarrow> bool \<times> u16 option" where
  "getQosCharacteristics characteristics =
     (case characteristics of None \<Rightarrow> (False, None) | Some _ \<Rightarrow> (True, Some (0x8000 OR 0x2000 OR 0x4000)))"

definition getIfPhysicalMedium :: "(iface \<Rightarrow> darwin_interface) \<Rightarrow> u32 option \<Rightarrow> iface \<Rightarrow> u32 option" where
  "getIfPhysicalMedium nif mediumType ctx =
     (case mediumType of None \<Rightarrow> None
      | Some old \<Rightarrow> Some (if ctx = 0 then old else ucast (dn_MediumType (nif ctx))))"

definition WgetApAssociationTable ::
    "u8 list option option \<Rightarrow> nat option \<Rightarrow> u8 list option option \<times> nat option" where
  "WgetApAssociationTable data dataSize = (map_option (\<lambda>_. None) data, map_option (\<lambda>_. 0) dataSize)"

definition getComponentTable :: "u8 list option \<times> nat" where
  "getComponentTable = (None, 0)"

end
