(* ===== verification/LltdHostProps.thy ===== *)
theory LltdHostProps
  imports LltdHostOps
begin

text \<open>
  The property sources of every platform keep one contract: they never write outside their
  blocks, report no more bytes than they hand over, and encode the host name so that it reads
  back.
\<close>

section \<open>UCS-2\<close>

text \<open>The reader: the 16-bit units of a little-endian byte string.\<close>

fun ucs2_units :: "u8 list \<Rightarrow> u16 list" where
  "ucs2_units (lo # hi # bytes) = (ucast lo OR push_bit 8 (ucast hi)) # ucs2_units bytes"
| "ucs2_units bytes = []"

definition ucs2_bytes :: "u8 list \<Rightarrow> u8 list" where
  "ucs2_bytes s = concat (map (\<lambda>c. [c, 0]) s)"

lemma ucs2_bytes_simps [simp]:
  "ucs2_bytes [] = []" "ucs2_bytes (c # s) = c # 0 # ucs2_bytes s" "length (ucs2_bytes s) = 2 * length s"
  by (auto simp: ucs2_bytes_def length_concat comp_def sum_list_triv)

lemma ucs2_read: "ucs2_units (ucs2_bytes s) = map ucast s"
  by (induction s) simp_all

lemma ucs2_loop_eq:
  "length pre = 2 * i \<Longrightarrow> length buf = 2 * length s \<Longrightarrow>
   ucs2_loop s i (pre @ buf) = Some (pre @ ucs2_bytes s)"
proof (induction s arbitrary: i pre buf)
  case (Cons c s)
  then obtain a b rest where buf: "buf = a # b # rest" "length rest = 2 * length s"
    by (cases buf rule: remdups_adj.cases) auto
  have "store_u8 (pre @ buf) (i * 2) c = Some (pre @ c # b # rest)"
    using Cons.prems(1) by (simp add: store_u8_def store_bytes_def buf(1))
  moreover have "store_u8 (pre @ c # b # rest) (i * 2 + 1) 0 = Some (pre @ c # 0 # rest)"
    using Cons.prems(1) by (simp add: store_u8_def store_bytes_def)
  ultimately show ?case
    using Cons.IH [of "pre @ [c, 0]" "i + 1" rest] Cons.prems(1) buf(2) by simp
qed simp

text \<open>What \<open>malloc\<close> promises.\<close>

definition blocks_fit :: "(nat \<Rightarrow> u8 list option) \<Rightarrow> bool" where
  "blocks_fit malloc \<longleftrightarrow> (\<forall>n b. malloc n = Some b \<longrightarrow> length b = n)"

lemma copyAsciiToUcs2le_eq:
  "blocks_fit malloc \<Longrightarrow> copyAsciiToUcs2le malloc (Some s) =
     Some (if malloc (length s * 2) = None then (None, 0) else (Some (ucs2_bytes s), length s * 2))"
  using ucs2_loop_eq [of "[]" 0 _ s]
  by (auto simp: copyAsciiToUcs2le_def blocks_fit_def split: option.split)

section \<open>The contract\<close>

definition name_fits :: "(u8 list option \<times> nat) option \<Rightarrow> bool" where
  "name_fits r \<longleftrightarrow> (case r of None \<Rightarrow> False | Some (d, n) \<Rightarrow> (case d of None \<Rightarrow> n = 0 | Some x \<Rightarrow> n \<le> length x))"

locale host_source =
  fixes enough :: bool and H :: host_ops
  assumes names_fit: "enough \<Longrightarrow> name_fits (ho_getMachineName H) \<and> name_fits (ho_getFriendlyName H) \<and>
      name_fits (ho_getSupportInfo H)"
    and uuid_fits: "enough \<Longrightarrow> ho_getUpnpUuid H = Some None \<or> (\<exists>u. ho_getUpnpUuid H = Some (Some u) \<and> length u = 16)"
    and hw_id_fits: "length buf = 64 \<Longrightarrow> \<exists>b. ho_getHwId H (Some buf) = Some (Some b) \<and> length b = 64"
    and hw_id_null: "ho_getHwId H None = Some None"
begin

text \<open>A caller that copies at most \<open>cap\<close> bytes of a name stays inside both blocks.\<close>

lemma name_copied:
  assumes "enough" "ho_getMachineName H = Some (Some d, n)" "length dst = cap"
  shows "\<exists>out. store_bytes dst 0 (take (min n cap) d) = Some out \<and> load_bytes d 0 (min n cap) \<noteq> None"
  using names_fit [OF assms(1)] assms(2,3) by (auto simp: name_fits_def store_bytes_def load_bytes_def min_def)

end

definition host_env_ok :: "host_env \<Rightarrow> bool" where
  "host_env_ok env \<longleftrightarrow> blocks_fit (he_malloc env) \<and> (\<forall>u. he_uuid env = Some u \<longrightarrow> length u = 16)"

lemma host_names_fit:
  assumes "host_env_ok env"
  shows "name_fits (machine_name env)" "name_fits (copyAsciiToUcs2le (he_malloc env) (Some s))"
    "name_fits (dup_literal env t)"
proof -
  have fit: "blocks_fit (he_malloc env)" using assms by (simp add: host_env_ok_def)
  show 1: "name_fits (copyAsciiToUcs2le (he_malloc env) (Some s))" for s
    by (simp add: copyAsciiToUcs2le_eq [OF fit] name_fits_def)
  show "name_fits (machine_name env)"
    using 1 by (auto simp: machine_name_def split: option.split) (simp add: name_fits_def)
  show "name_fits (dup_literal env t)"
  proof (cases "he_malloc env (length (c_literal t) + 1)")
    case None
    then show ?thesis by (simp add: dup_literal_def lltd_dup_string_def name_fits_def)
  next
    case (Some b)
    then have "length b = length (c_literal t @ [0])" using fit by (simp add: blocks_fit_def)
    then show ?thesis using Some by (simp add: dup_literal_def lltd_dup_string_def name_fits_def store_bytes_all)
  qed
qed

lemma host_uuid_fits:
  assumes "host_env_ok env"
  shows "copy_uuid env = Some None \<or> (\<exists>u. copy_uuid env = Some (Some u) \<and> length u = 16)"
  using assms by (auto simp: copy_uuid_def host_env_ok_def blocks_fit_def store_bytes_all split: option.split)

lemma zero_hw_id_fits:
  "n \<le> 64 \<Longrightarrow> length buf = 64 \<Longrightarrow> \<exists>b. zero_hw_id n (Some buf) = Some (Some b) \<and> length b = 64"
  "zero_hw_id n None = Some None"
  by (auto simp: zero_hw_id_def store_bytes_front)

lemma empty_name_fits: "name_fits (Some (None, 0))"
  by (simp add: name_fits_def)

interpretation esxi_host: host_source "host_env_ok env" "esxi_ops env" for env
  by unfold_locales
    (simp_all add: esxi_ops_def host_names_fit host_uuid_fits zero_hw_id_fits empty_name_fits del: not_None_eq)

interpretation freebsd_host: host_source "host_env_ok env" "freebsd_ops env" for env
  by unfold_locales
    (simp_all add: freebsd_ops_def host_names_fit host_uuid_fits zero_hw_id_fits empty_name_fits)

interpretation sunos_host: host_source "host_env_ok env" "sunos_ops env" for env
  by unfold_locales (simp_all add: sunos_ops_def host_names_fit zero_hw_id_fits empty_name_fits)

interpretation beos_host: host_source "host_env_ok env" "beos_ops env" for env
  by unfold_locales (simp_all add: beos_ops_def Let_def host_names_fit zero_hw_id_fits empty_name_fits)

interpretation windows_host: host_source "host_env_ok env" "windows_ops on_windows env" for on_windows env
  by unfold_locales
    (simp_all add: windows_ops_def Let_def host_names_fit host_uuid_fits zero_hw_id_fits empty_name_fits)

interpretation linux_host: host_source "host_env_ok env" "linux_ops env" for env
  by unfold_locales (simp_all add: linux_ops_def host_names_fit zero_hw_id_fits empty_name_fits)

section \<open>Properties\<close>

text \<open>
  C39.  The host name that the ESXi, FreeBSD, SunOS and Windows sources hand over is twice as
  long as the name, and its little-endian 16-bit units are the bytes of the name, one by one.
\<close>

theorem machine_name_reads_back:
  assumes "blocks_fit (he_malloc env)" "he_gethostname env = Some s" "he_malloc env (length s * 2) \<noteq> None"
    and "H = esxi_ops env \<or> H = freebsd_ops env \<or> H = sunos_ops env \<or> H = windows_ops True env"
  shows "\<exists>d. ho_getMachineName H = Some (Some d, length d) \<and> ho_getFriendlyName H = Some (Some d, length d) \<and>
    length d = 2 * length s \<and> ucs2_units d = map ucast s"
proof -
  have "machine_name env = Some (Some (ucs2_bytes s), length (ucs2_bytes s))"
    using assms(1-3) by (simp add: machine_name_def copyAsciiToUcs2le_eq)
  with assms(4) ucs2_read [of s] show ?thesis
    by (auto simp: esxi_ops_def freebsd_ops_def sunos_ops_def windows_ops_def Let_def)
qed

definition demo_host :: host_env where
  "demo_host = \<lparr>he_little_endian = True, he_malloc = (\<lambda>n. Some (replicate n 0xAA)), he_calloc = True,
     he_gethostname = Some [104, 105], he_uuid = Some (replicate 16 7),
     he_named = True, he_socket = 3, he_flags = Some 0x43\<rparr>"

theorem machine_name_reads_back_witness:
  "\<exists>d. ho_getMachineName (sunos_ops demo_host) = Some (Some d, 4) \<and> ucs2_units d = [104, 105]"
  using machine_name_reads_back [of demo_host "[104, 105]" "sunos_ops demo_host"]
  by (auto simp: demo_host_def blocks_fit_def)

lemma or_and_not: "a AND m = 0 \<Longrightarrow> (a OR m) AND NOT m = a" for a m :: "'a::len word"
proof (rule bit_word_eqI)
  fix n assume disjoint: "a AND m = 0" and "n < LENGTH('a)"
  moreover have "\<not> (bit a n \<and> bit m n)"
    using arg_cong [OF disjoint, of "\<lambda>x. bit x n"] by (simp add: bit_and_iff)
  ultimately show "bit ((a OR m) AND NOT m) n = bit a n"
    by (auto simp: bit_and_iff bit_or_iff bit_not_iff)
qed

text \<open>
  Setting and clearing promiscuous mode on FreeBSD leaves the other flags alone and closes the
  socket it opens; no other platform of the group changes anything.
\<close>

lemma freebsd_promiscuous_restores:
  assumes "he_named env" "0 \<le> he_socket env" "he_flags env = Some flags" "flags AND IFF_PROMISC = 0"
  shows "\<exists>g. ho_setPromiscuous (freebsd_ops env) True =
      ([FdOpen (he_socket env), FdClose (he_socket env)], Some g) \<and>
    snd (ho_setPromiscuous (freebsd_ops (env\<lparr>he_flags := Some g\<rparr>)) False) = Some flags"
  using assms or_and_not [OF assms(4)] by (simp add: freebsd_ops_def freebsd_setPromiscuous_def)

text \<open>On macOS the function writes past its block for every name of less than 16 characters.\<close>

lemma darwin_promiscuous_undefined:
  assumes "blocks_fit malloc" "length deviceName < 16"
  shows "darwin_setPromiscuous malloc deviceName flags current on = None"
proof -
  have "store_bytes block 0 (take 16 (deviceName @ replicate 16 0)) = None"
    if "malloc (min (length deviceName) 16) = Some block" for block
    using that assms by (simp add: blocks_fit_def)
  then show ?thesis
    unfolding darwin_setPromiscuous_def Let_def
    by (cases "malloc (min (length deviceName) 16)") (simp_all only: Option.bind.simps)
qed

text \<open>
  Its names are written one byte past their block: in UTF-16 the maximum size of a string is its
  size.
\<close>

lemma darwin_name_overflows:
  assumes "blocks_fit malloc" "length encoded = maxSize"
  shows "darwin_getMachineName malloc maxSize encoded = None" "darwin_getFriendlyName malloc maxSize encoded = None"
proof -
  have "store_bytes block 0 (encoded @ [0]) = None" if "malloc maxSize = Some block" for block
    using that assms by (simp add: blocks_fit_def store_bytes_def)
  then show "darwin_getMachineName malloc maxSize encoded = None" "darwin_getFriendlyName malloc maxSize encoded = None"
    unfolding darwin_getMachineName_def darwin_getFriendlyName_def
    by (cases "malloc maxSize"; simp only: Option.bind.simps)+
qed

text \<open>\<open>getWifiMode\<close> is true for an infrastructure network only.\<close>

lemma getWifiMode_infrastructure:
  "getWifiMode req \<longleftrightarrow> me_supported req \<and> me_status req AND IFM_AVALID \<noteq> 0 \<and> me_type req = IFM_IEEE80211 \<and>
     me_options req \<noteq> IFM_IEEE80211_ADHOC"
  by (simp add: getWifiMode_def)

text \<open>The identifier of a Mac is its first 32 characters; the rest of the buffer is zero.\<close>

lemma darwin_hw_id_truncates:
  assumes "length buf = 64"
  shows "\<exists>b. darwin_getHwId (Some units) (Some buf) = Some (Some b) \<and> length b = 64 \<and>
    take (2 * min 32 (length units)) b = concat (map (mem_of_u16 True) (take 32 units))"
proof -
  have len: "length (concat (map (mem_of_u16 True) us)) = 2 * length us" for us
    by (induction us) simp_all
  have cut: "take 64 (concat (map (mem_of_u16 True) us)) = concat (map (mem_of_u16 True) (take 32 us))" for us
  proof -
    have "take (2 * n) (concat (map (mem_of_u16 True) us)) = concat (map (mem_of_u16 True) (take n us))" for n
    proof (induction us arbitrary: n)
      case (Cons u us)
      then show ?case by (cases n) simp_all
    qed simp
    from this [of 32] show ?thesis by simp
  qed
  let ?bs = "concat (map (mem_of_u16 True) (take 32 units))"
  have "length ?bs = 2 * min 32 (length units)" by (simp add: len min.commute)
  moreover have "store_bytes buf 0 (replicate 64 0) = Some (replicate 64 0)" using assms by (simp add: store_bytes_all)
  ultimately show ?thesis
    by (simp add: darwin_getHwId_def cut store_bytes_front)
qed

end
