(* ===== verification/LltdWifiMetrics.thy ===== *)
theory LltdWifiMetrics
  imports LltdWifiProps LltdDarwinPort
begin

unbundle bit_operations_syntax

text \<open>
  Where the WiFi metrics come from and where they go: the searches of the IOKit registry in
  os/darwin/daemon/lltd_wifi_iokit.c and darwin-ops.c, the entry of
  \<open>lltd_darwin_wifi_get_metrics\<close>, and the command tools/lltd-wifi-metrics.c, which prints the
  metrics.  The registry is a parameter.  The references held on its objects are counted, so
  that every function can be shown to release what it does not hand over.
\<close>

section \<open>The registry\<close>

text \<open>
  The service of an interface name, and the two searches from a service: below it, and below
  and above it.  \<open>ir_key\<close> is whether a CFString could be made of a key.
\<close>

record io_registry =
  ir_service :: "string \<Rightarrow> nat option"
  ir_below :: "nat \<Rightarrow> string \<Rightarrow> cf_value option"
  ir_parents :: "nat \<Rightarrow> string \<Rightarrow> cf_value option"
  ir_key :: "string \<Rightarrow> bool"

definition copyWiFiPropertyByName ::
    "io_registry \<Rightarrow> string option \<Rightarrow> string option \<Rightarrow> int \<Rightarrow> cf_value option \<times> int" where
  "copyWiFiPropertyByName R interfaceName key refs =
     (case (interfaceName, key) of
        (Some n, Some k) \<Rightarrow>
          (case ir_service R n of
             None \<Rightarrow> (None, refs)
           | Some interfaceService \<Rightarrow>
               let refs = refs + 1;
                   val = ir_below R interfaceService k;
                   val = (if val = None then ir_parents R interfaceService k else val);
                   refs = (if val = None then refs else refs + 1)
               in (val, refs - 1))
      | _ \<Rightarrow> (None, refs))"

text \<open>darwin-ops.c has the same function once more; it does not test the key.\<close>

definition copyWiFiProperty :: "io_registry \<Rightarrow> string option \<Rightarrow> string \<Rightarrow> int \<Rightarrow> cf_value option \<times> int" where
  "copyWiFiProperty R interfaceName key refs =
     (case interfaceName of
        None \<Rightarrow> (None, refs)
      | Some n \<Rightarrow>
          (case ir_service R n of
             None \<Rightarrow> (None, refs)
           | Some interfaceService \<Rightarrow>
               let refs = refs + 1;
                   val = ir_below R interfaceService key;
                   val = (if val = None then ir_parents R interfaceService key else val);
                   refs = (if val = None then refs else refs + 1)
               in (val, refs - 1)))"

definition io_int_property ::
    "io_registry \<Rightarrow> string option \<Rightarrow> string \<Rightarrow> int \<Rightarrow> (int \<times> bool) \<times> int" where
  "io_int_property R ifname key refs =
     (if \<not> ir_key R key then ((0, False), refs)
      else
        let refs = refs + 1;
            (val, refs) = copyWiFiPropertyByName R ifname (Some key) refs;
            refs = refs - 1
        in case val of
             None \<Rightarrow> ((0, False), refs)
           | Some (CFNumber v) \<Rightarrow> ((sint v, True), refs - 1)
           | Some _ \<Rightarrow> ((0, False), refs - 1))"

definition isAssociated :: "io_registry \<Rightarrow> string option \<Rightarrow> int \<Rightarrow> bool \<times> int" where
  "isAssociated R ifname refs =
     (let (bssid, refs) = copyWiFiPropertyByName R ifname (Some ''IO80211BSSID'') refs
      in if bssid = None then (False, refs) else (True, refs - 1))"

text \<open>
  The properties as LltdWifi takes them, and the entry point with its null tests: \<open>out\<close> is
  whether the caller passes a structure.
\<close>

definition io_props :: "io_registry \<Rightarrow> string option \<Rightarrow> string \<Rightarrow> int option" where
  "io_props R ifname key = (case fst (io_int_property R ifname key 0) of (v, found) \<Rightarrow> if found then Some v else None)"

definition wifi_metrics_entry ::
    "io_registry \<Rightarrow> string option \<Rightarrow> bool \<Rightarrow> (int \<times> lltd_wifi_metrics_t option) option" where
  "wifi_metrics_entry R ifname out =
     (if ifname = None \<or> \<not> out then Some (-1, None)
      else map_option (\<lambda>(rc, m). (rc, Some m))
        (lltd_darwin_wifi_get_metrics (fst (isAssociated R ifname 0)) (io_props R ifname)))"

section \<open>The command\<close>

text \<open>\<open>%d\<close> and \<open>%04X\<close>.\<close>

fun dec_nat :: "nat \<Rightarrow> string" where
  "dec_nat n = (if n < 10 then [char_of (48 + n)] else dec_nat (n div 10) @ [char_of (48 + n mod 10)])"

definition dec :: "int \<Rightarrow> string" where
  "dec i = (if i < 0 then ''-'' @ dec_nat (nat (- i)) else dec_nat (nat i))"

definition hex_digit :: "nat \<Rightarrow> char" where
  "hex_digit d = (if d < 10 then char_of (48 + d) else char_of (55 + d))"

fun hex_nat :: "nat \<Rightarrow> string" where
  "hex_nat n = (if n < 16 then [hex_digit n] else hex_nat (n div 16) @ [hex_digit (n mod 16)])"

definition hex4 :: "nat \<Rightarrow> string" where
  "hex4 n = replicate (4 - length (hex_nat n)) (CHR ''0'') @ hex_nat n"

text \<open>\<open>print_flags\<close>: the names of the bits, in this order, with commas between them.\<close>

definition flag_names :: "(u32 \<times> string) list" where
  "flag_names = [(VALID_RSSI, ''RSSI''), (VALID_NOISE, ''NOISE''), (VALID_LINK, ''LINK''), (VALID_MAX, ''MAX''),
     (APPROX_MAX, ''APPROX''), (VALID_PHY, ''PHY''), (VALID_WIDTH, ''WIDTH''), (VALID_INFER, ''INFER'')]"

fun print_flag_names :: "(u32 \<times> string) list \<Rightarrow> u32 \<Rightarrow> bool \<Rightarrow> string" where
  "print_flag_names [] flags first = ''''"
| "print_flag_names ((f, name) # fs) flags first =
     (if flags AND f \<noteq> 0 then (if first then '''' else '','') @ name @ print_flag_names fs flags False
      else print_flag_names fs flags first)"

definition print_flags :: "u32 \<Rightarrow> string" where
  "print_flags flags = ''Flags:     0x'' @ hex4 (unat flags) @ '' ('' @ print_flag_names flag_names flags True @ '')''"

definition print_usage :: "string \<Rightarrow> string list" where
  "print_usage progname =
     [''Usage: '' @ progname @ '' [interface]'', '''',
      ''Query Wi-Fi metrics for the specified interface.'',
      ''If no interface is specified, defaults to 'en0'.'', '''',
      ''Examples:'', ''  '' @ progname @ ''           # Query en0'',
      ''  '' @ progname @ '' en1       # Query en1'']"

definition metrics_lines :: "string \<Rightarrow> lltd_wifi_metrics_t \<Rightarrow> string list" where
  "metrics_lines ifname m =
     ['''', ''=== Wi-Fi Metrics for '' @ ifname @ '' ==='', '''',
      (if wm_flags m AND VALID_PHY \<noteq> 0
       then ''PHY Mode:  '' @ lltd_wifi_phy_mode_name (wm_phy_mode m) @ '' ('' @ dec (wm_phy_mode m) @ '')''
       else ''PHY Mode:  unknown''),
      (if wm_flags m AND VALID_WIDTH \<noteq> 0 then ''Channel:   '' @ dec (wm_chan_width_mhz m) @ '' MHz''
       else ''Channel:   unknown''),
      (if wm_flags m AND VALID_RSSI \<noteq> 0 then ''RSSI:      '' @ dec (wm_rssi_dbm m) @ '' dBm''
       else ''RSSI:      unavailable''),
      (if wm_flags m AND VALID_NOISE \<noteq> 0 then ''Noise:     '' @ dec (wm_noise_dbm m) @ '' dBm''
       else ''Noise:     unavailable''),
      (if wm_flags m AND VALID_LINK \<noteq> 0 then ''Link:      '' @ dec (wm_link_mbps m) @ '' Mbps''
       else ''Link:      unavailable''),
      (if wm_flags m AND VALID_MAX \<noteq> 0
       then ''Max:       '' @ dec (wm_max_link_mbps m) @ '' Mbps'' @
         (if wm_flags m AND APPROX_MAX \<noteq> 0 then '' (approximate)'' else '''')
       else ''Max:       unavailable''),
      (if wm_flags m AND VALID_INFER \<noteq> 0
       then ''Inferred:  NSS='' @ dec (wm_nss_inferred m) @ '', MCS='' @ dec (wm_mcs_inferred m) @
         '', GI='' @ dec (wm_gi_ns_inferred m) @ ''ns''
       else if 0 < wm_nss_inferred m
       then ''Inferred:  NSS='' @ dec (wm_nss_inferred m) @ '' (assumed, could not match rate)''
       else ''Inferred:  none''),
      '''', print_flags (wm_flags m), '''']"

text \<open>The exit code, the lines on the standard output, and the lines on the error output.\<close>

definition wifi_metrics_main :: "io_registry \<Rightarrow> string list \<Rightarrow> (int \<times> string list \<times> string list) option" where
  "wifi_metrics_main R argv =
     (if 1 < length argv \<and> (argv ! 1 = ''-h'' \<or> argv ! 1 = ''--help'') then Some (0, [], print_usage (argv ! 0))
      else
        let ifname = (if 1 < length argv then argv ! 1 else ''en0'') in
        do {
          (result, metrics) \<leftarrow> wifi_metrics_entry R (Some ifname) True;
          Some (if result < 0
            then (1, [],
              [if result = -1 then ''Error: Invalid arguments''
               else if result = -2
               then ''Error: Interface '' @ [CHR 0x27] @ ifname @ [CHR 0x27] @ '' not found or not a Wi-Fi interface''
               else if result = -3
               then ''Error: Interface '' @ [CHR 0x27] @ ifname @ [CHR 0x27] @ '' is not associated to a network''
               else ''Error: Unknown error '' @ dec result])
            else (0, metrics_lines ifname (the metrics), []))
        })"

section \<open>The registry searches\<close>

text \<open>The two copies of the search agree, and hand over at most the value they found.\<close>

lemma copyWiFi_same: "copyWiFiPropertyByName R n (Some k) refs = copyWiFiProperty R n k refs"
  by (simp add: copyWiFiPropertyByName_def copyWiFiProperty_def split: option.split)

lemma copyWiFi_refs:
  "copyWiFiProperty R n k refs = (fst (copyWiFiProperty R n k 0),
     refs + (if fst (copyWiFiProperty R n k 0) = None then 0 else 1))"
  by (simp add: copyWiFiProperty_def Let_def split: option.split)

text \<open>What is below the service hides what is above it; the parents are searched for the rest.\<close>

lemma copyWiFi_order:
  "ir_service R n = Some s \<Longrightarrow> fst (copyWiFiProperty R (Some n) k refs) =
     (case ir_below R s k of Some v \<Rightarrow> Some v | None \<Rightarrow> ir_parents R s k)"
  by (simp add: copyWiFiProperty_def Let_def split: option.split)

text \<open>Reading a number or testing for a network leaves no reference behind.\<close>

lemma io_int_property_eq: "io_int_property R n k refs = (getIntProperty (io_props R n) k, refs)"
proof -
  have same: "copyWiFiPropertyByName R n (Some k) (r + 1) = (fst (copyWiFiProperty R n k 0),
      r + 1 + (if fst (copyWiFiProperty R n k 0) = None then 0 else 1))" for r
    unfolding copyWiFi_same by (rule copyWiFi_refs)
  have "io_int_property R n k r = (fst (io_int_property R n k 0), r)" for r
    unfolding io_int_property_def Let_def same [of r] same [of 0]
    by (simp split: option.split cf_value.split)
  moreover have "fst (io_int_property R n k 0) = getIntProperty (io_props R n) k"
    unfolding getIntProperty_def io_props_def io_int_property_def Let_def same [of 0]
    by (simp split: option.split cf_value.split)
  ultimately show ?thesis by simp
qed

lemma isAssociated_eq: "isAssociated R n refs = (fst (copyWiFiProperty R n ''IO80211BSSID'' 0) \<noteq> None, refs)"
  unfolding isAssociated_def copyWiFi_same copyWiFi_refs [of R n _ refs] by simp

section \<open>What the command prints\<close>

text \<open>Its numbers read back.\<close>

definition digit :: "char \<Rightarrow> nat" where "digit c = of_char c - 48"

definition read_nat :: "string \<Rightarrow> nat" where "read_nat s = foldl (\<lambda>n c. 10 * n + digit c) 0 s"

lemma digit_of: "d < 10 \<Longrightarrow> digit (char_of (48 + d)) = d"
  by (simp add: digit_def)

lemma read_dec_nat: "read_nat (dec_nat n) = n"
proof (induction n rule: dec_nat.induct)
  case (1 n)
  show ?case
  proof (cases "n < 10")
    case True
    then show ?thesis by (subst dec_nat.simps) (simp add: read_nat_def digit_of del: dec_nat.simps)
  next
    case False
    then have "read_nat (dec_nat (n div 10)) = n div 10" using 1 by simp
    then show ?thesis using False
      by (subst dec_nat.simps) (simp add: read_nat_def digit_of del: dec_nat.simps)
  qed
qed

text \<open>The flags are the names of the bits that are set, with commas between them.\<close>

fun join :: "string list \<Rightarrow> string" where
  "join [] = ''''"
| "join [s] = s"
| "join (s # t # ss) = s @ '','' @ join (t # ss)"

abbreviation (input) names_set :: "(u32 \<times> string) list \<Rightarrow> u32 \<Rightarrow> string list" where
  "names_set fs flags \<equiv> map snd (filter (\<lambda>p. flags AND fst p \<noteq> 0) fs)"

lemma print_flag_names_later:
  "print_flag_names fs flags False = (if names_set fs flags = [] then '''' else '','' @ join (names_set fs flags))"
proof (induction fs)
  case (Cons p fs)
  then show ?case by (cases p; cases "filter (\<lambda>p. flags AND fst p \<noteq> 0) fs") simp_all
qed simp

lemma print_flag_names_join: "print_flag_names fs flags True = join (names_set fs flags)"
proof (induction fs)
  case (Cons p fs)
  then show ?case by (cases p; cases "filter (\<lambda>p. flags AND fst p \<noteq> 0) fs") (simp_all add: print_flag_names_later)
qed simp

section \<open>What a result of 0 means\<close>

lemma flag_kept: "wm_flags m AND g \<noteq> 0 \<Longrightarrow> wm_flags (set_flag b f m) AND g \<noteq> 0"
  by (auto simp: set_flag_def bit.conj_disj_distrib2 or_eq_0_iff)

lemma flag_set: "f AND g \<noteq> 0 \<Longrightarrow> wm_flags (set_flag True f m) AND g \<noteq> 0"
  by (simp add: set_flag_def bit.conj_disj_distrib2 or_eq_0_iff)

lemma max_metrics_flags:
  assumes "wifi_max_metrics m = Some m'" "wm_flags m AND VALID_LINK \<noteq> 0"
  shows "wm_flags m' AND VALID_LINK \<noteq> 0 \<and> wm_flags m' AND VALID_MAX \<noteq> 0"
proof -
  define fam where "fam = lltd_wifi_phy_family_from_cwmode (wm_phy_mode m)"
  define width where "width = (if 0 < wm_chan_width_mhz m then wm_chan_width_mhz m else 20)"
  note def = wifi_max_metrics_def [of m, folded fam_def width_def, unfolded Let_def]
  have flags: "wm_flags (set_flag True f k) AND VALID_LINK \<noteq> 0 \<and> wm_flags (set_flag True f k) AND VALID_MAX \<noteq> 0"
    if "wm_flags k AND VALID_LINK \<noteq> 0" "f AND VALID_MAX \<noteq> 0" for f k
    using flag_kept [OF that(1)] flag_set [OF that(2)] by blast
  show ?thesis
  proof (cases "fam = WIFI_PHY_LEGACY_B \<or> fam = WIFI_PHY_LEGACY_AG \<or> fam = 0")
    case True
    then show ?thesis using assms flags [of "m\<lparr>wm_max_link_mbps := v\<rparr>" for v]
      unfolding def by (auto split: if_splits)
  next
    case False
    then obtain rc inf where r: "lltd_wifi_infer_params fam width (wm_link_mbps m) 15 = Some (rc, inf)"
      using assms(1) unfolding def by (auto split: bind_splits)
    have inferred: "wm_flags (set_flag True VALID_INFER k) AND VALID_LINK \<noteq> 0" if "wm_flags k = wm_flags m" for k
      using assms(2) that by (intro flag_kept) simp
    show ?thesis using False assms r unfolding def
      by (cases "rc = 0") (auto intro!: flags inferred)
  qed
qed

lemma metrics_result:
  assumes "lltd_darwin_wifi_get_metrics associated props = Some (rc, m)"
  shows "rc = -3 \<or> rc = 0 \<and> wm_flags m AND VALID_LINK \<noteq> 0 \<and> wm_flags m AND VALID_MAX \<noteq> 0"
proof (cases "rc = -3")
  case False
  have "\<exists>k. rc = 0 \<and> wifi_max_metrics (set_flag True VALID_LINK k) = Some m"
    using assms False by (auto simp: lltd_darwin_wifi_get_metrics_def Let_def split: if_splits prod.splits)
  then obtain k where k: "rc = 0" "wifi_max_metrics (set_flag True VALID_LINK k) = Some m" by blast
  have "wm_flags (set_flag True VALID_LINK k) AND VALID_LINK \<noteq> 0" by (rule flag_set) simp
  with max_metrics_flags [OF k(2)] k(1) show ?thesis by blast
qed simp

text \<open>
  The command knows two outcomes besides its help: the metrics, with a link rate and a maximum,
  or the message that the interface is not associated.  The messages for the results -1 and -2
  are never printed.
\<close>

lemma metrics_tool_outcomes:
  assumes "wifi_metrics_main R [prog, ifname] = Some (code, out, err)" "ifname \<noteq> ''-h''" "ifname \<noteq> ''--help''"
  shows "code = 0 \<and> err = [] \<and>
      (\<exists>m. out = metrics_lines ifname m \<and> wm_flags m AND VALID_LINK \<noteq> 0 \<and> wm_flags m AND VALID_MAX \<noteq> 0) \<or>
    code = 1 \<and> out = [] \<and>
      err = [''Error: Interface '' @ [CHR 0x27] @ ifname @ [CHR 0x27] @ '' is not associated to a network'']"
proof -
  obtain rc m where r: "lltd_darwin_wifi_get_metrics (fst (isAssociated R (Some ifname) 0)) (io_props R (Some ifname)) =
      Some (rc, m)"
    using assms by (auto simp: wifi_metrics_main_def wifi_metrics_entry_def split: bind_splits)
  from metrics_result [OF r] show ?thesis
    using assms r by (auto simp: wifi_metrics_main_def wifi_metrics_entry_def)
qed

end
