(* ===== verification/LltdInterleave.thy ===== *)
theory LltdInterleave
  imports LltdFrameProps LltdLinuxPort
begin

text \<open>
  The threads of a daemon call \<open>parseFrame\<close> on one list of interface states.  Whatever the
  order in which whole frames of different interfaces are handled, every interface ends in the
  same state and is given the same frames to send: the reaction to a frame depends on the state
  of its interface only, as long as memory does not run out, a link that fails does so each
  time, and the platform gives the same icon and name each time.  Threads that interrupt each other inside \<open>parseFrame\<close> are outside
  the model.
\<close>

section \<open>Definitions\<close>

text \<open>A port whose answers do not depend on what happened before.\<close>

definition steady_port :: "port \<Rightarrow> bool" where
  "steady_port P \<longleftrightarrow> (\<forall>i n. p_malloc P i n) \<and> (\<forall>i j c f. p_send P i c f < 0 \<longleftrightarrow> p_send P j c f < 0) \<and>
     (\<forall>w v. fst (p_icon_image P w) = fst (p_icon_image P v)) \<and>
     (\<forall>w v. fst (p_friendly_name P w) = fst (p_friendly_name P v))"

text \<open>The frames put on one interface.\<close>

definition sent_on :: "iface \<Rightarrow> port_event list \<Rightarrow> u8 list list" where
  "sent_on c es = concat (map (\<lambda>e. case e of SendFrame i f _ \<Rightarrow> if i = c then [f] else [] | _ \<Rightarrow> []) es)"

text \<open>Whole frames, each with its interface, in the order in which they are handled.\<close>

fun serve ::
    "port \<Rightarrow> (iface \<times> u8 list) list \<Rightarrow> lltd_iface_state list \<times> world \<Rightarrow>
     (lltd_iface_state list \<times> world) option" where
  "serve P [] s = Some s"
| "serve P ((ctx, f) # es) s = do { s \<leftarrow> parseFrame P (Some f) ctx s; serve P es s }"

text \<open>An action that, in every world, ends in \<open>st'\<close> and puts \<open>fs\<close> on \<open>ctx\<close> and nothing elsewhere.\<close>

definition answers ::
    "iface \<Rightarrow> (world \<Rightarrow> (lltd_iface_state \<times> world) option) \<Rightarrow> lltd_iface_state \<Rightarrow> u8 list list \<Rightarrow> bool" where
  "answers ctx act st' fs \<longleftrightarrow> (\<forall>w. \<exists>w'. act w = Some (st', w') \<and>
     (\<forall>c. sent_on c (w_events w') = sent_on c (w_events w) @ (if c = ctx then fs else [])))"

lemma sent_on_simps [simp]:
  "sent_on c [] = []" "sent_on c (SleepMs ms # es) = sent_on c es"
  "sent_on c (SendFrame i f rc # es) = (if i = c then f # sent_on c es else sent_on c es)"
  "sent_on c (es @ es') = sent_on c es @ sent_on c es'"
  by (simp_all add: sent_on_def)

lemma steadyD:
  assumes "steady_port P"
  shows "p_malloc P i n" "p_send P i c f < 0 \<longleftrightarrow> p_send P 0 c f < 0"
  using assms unfolding steady_port_def by blast+

lemma answers_same: "answers ctx (\<lambda>w. Some (st, w)) st []"
  by (simp add: answers_def)

lemma answers_sleep: "answers ctx act st' fs \<Longrightarrow> answers ctx (\<lambda>w. act (lltd_port_sleep_ms ms w)) st' fs"
  unfolding answers_def
proof
  fix w
  assume "\<forall>w. \<exists>w'. act w = Some (st', w') \<and>
    (\<forall>c. sent_on c (w_events w') = sent_on c (w_events w) @ (if c = ctx then fs else []))"
  from spec [OF this, of "lltd_port_sleep_ms ms w"]
  show "\<exists>w'. act (lltd_port_sleep_ms ms w) = Some (st', w') \<and>
    (\<forall>c. sent_on c (w_events w') = sent_on c (w_events w) @ (if c = ctx then fs else []))"
    by (simp add: world_simps)
qed

section \<open>The handlers\<close>

lemma hello_answers:
  assumes "steady_port P" "lltd_port_contract P" "hello_room \<le> port_mtu P ctx"
    and "load_demux_header (p_little_endian P) f = Some h" "load_u16 (p_little_endian P) f 32 = Some raw"
  shows "\<exists>st' fs. answers ctx (\<lambda>w. answerHello P f ctx (st, w)) st' fs"
proof -
  let ?st = "hello_state (p_little_endian P) h (lltd_ntohs (p_little_endian P) raw) st"
  have "answers ctx (\<lambda>w. answerHello P f ctx (st, w)) ?st
    [hello_bytes P ctx h (get_slot (mapper_generation_for_tos (tos h)) ?st)]"
    unfolding answers_def
  proof
    fix w
    show "\<exists>w'. answerHello P f ctx (st, w) = Some (?st, w') \<and>
        (\<forall>c. sent_on c (w_events w') = sent_on c (w_events w) @
          (if c = ctx then [hello_bytes P ctx h (get_slot (mapper_generation_for_tos (tos h)) ?st)] else []))"
      by (cases rule: answerHello_runs [OF assms(2-5), where st = st and w = w])
        (use steadyD(1) [OF assms(1)] in auto)
  qed
  then show ?thesis by blast
qed

lemma query_answers:
  assumes "steady_port P" "34 \<le> port_mtu P ctx" "load_demux_header (p_little_endian P) f = Some h"
  shows "\<exists>st' fs. answers ctx (\<lambda>w. parseQuery P f ctx (st, w)) st' fs"
proof -
  let ?st = "st\<lparr>mapper_seq := lltd_ntohs (p_little_endian P) (seqNumber h), mapper_real := realSource h,
    mapper_apparent := source (frameHeader h), mapper_known := 1, see_list := [], see_list_count := 0\<rparr>"
  have "answers ctx (\<lambda>w. parseQuery P f ctx (st, w)) ?st [query_resp_bytes P ctx h st]"
    unfolding answers_def
  proof
    fix w
    show "\<exists>w'. parseQuery P f ctx (st, w) = Some (?st, w') \<and> (\<forall>c. sent_on c (w_events w') =
        sent_on c (w_events w) @ (if c = ctx then [query_resp_bytes P ctx h st] else []))"
      by (cases rule: parseQuery_runs [OF assms(3,2), where st = st and w = w])
        (use steadyD(1) [OF assms(1)] in auto)
  qed
  then show ?thesis by blast
qed

lemma probe_answers:
  assumes "steady_port P" "load_demux_header (p_little_endian P) f = Some h"
  shows "\<exists>st' fs. answers ctx (\<lambda>w. parseProbe P f ctx (st, w)) st' fs"
proof -
  let ?p = "received_probe (p_little_endian P) h"
  let ?st = "if realDestination h \<noteq> port_mac P ctx \<or> probe_key ?p \<in> probe_key ` set (see_list st) then st
    else st\<lparr>see_list := ?p # see_list st, see_list_count := see_list_count st + 1\<rparr>"
  have "answers ctx (\<lambda>w. parseProbe P f ctx (st, w)) ?st []"
    unfolding answers_def
  proof
    fix w
    show "\<exists>w'. parseProbe P f ctx (st, w) = Some (?st, w') \<and>
        (\<forall>c. sent_on c (w_events w') = sent_on c (w_events w) @ (if c = ctx then [] else []))"
    proof (cases rule: parseProbe_cases [OF assms(2), where ctx = ctx and st = st and w = w,
        case_names other ours])
      case other
      then show ?thesis by simp
    next
      case (ours w1)
      have "w_events w1 = w_events w" using malloc_world(4) [of P 28 w] ours(2) by simp
      then show ?thesis using ours steadyD(1) [OF assms(1)] by (auto simp: world_simps)
    qed
  qed
  then show ?thesis by blast
qed

lemma emit_loop_answers:
  assumes "steady_port P" "34 + unat off + 14 * k \<le> length f"
  shows "\<exists>fs. \<forall>w. \<exists>w'. emit_loop P f ctx st k off w = Some w' \<and>
    (\<forall>c. sent_on c (w_events w') = sent_on c (w_events w) @ (if c = ctx then fs else []))"
  using assms(2)
proof (induction k arbitrary: off)
  case 0
  show ?case by (intro exI [of _ "[]"]) simp
next
  case (Suc k)
  obtain e where e: "load_u8 f (34 + unat off) = Some (emitee_type e)" "load_emitee f (34 + unat off) = Some e"
    by (rule load_emitee_in [of "34 + unat off" f]) (use Suc.prems in auto)
  have "34 + unat (off + 14) + 14 * k \<le> length f" using Suc.prems unat_add_14_le [of off] by simp
  from Suc.IH [OF this] obtain fs where fs: "\<And>w. \<exists>w'. emit_loop P f ctx st k (off + 14) w = Some w' \<and>
      (\<forall>c. sent_on c (w_events w') = sent_on c (w_events w) @ (if c = ctx then fs else []))" by blast
  show ?case
  proof (cases "known_emitee e")
    case True
    let ?lost = "p_send P 0 ctx (probe_frame P ctx st e) < 0"
    let ?out = "probe_frame P ctx st e # (if k = 0 \<and> \<not> ?lost then [ack_frame P ctx st] else [])"
    have "\<exists>w'. emit_loop P f ctx st (Suc k) off w = Some w' \<and>
        (\<forall>c. sent_on c (w_events w') = sent_on c (w_events w) @ (if c = ctx then ?out @ fs else []))" for w
    proof -
      obtain ok w1 where w1: "sendProbeMsg P (emitee_source e) (emitee_dest e) st ctx (emitee_pause e)
          (emitee_type e) (k = 0) w = Some (ok, w1)"
        "w_events w1 = w_events w @ emitee_events P ctx st (k = 0) e (w_mallocs w) (length (w_events w))"
        using sendProbeMsg_runs [OF True] by blast
      have "sent_on c (w_events w1) = sent_on c (w_events w) @ (if c = ctx then ?out else [])" for c
        using w1(2) True steadyD(1) [OF assms(1)]
          steadyD(2) [OF assms(1), of "Suc (length (w_events w))" ctx "probe_frame P ctx st e"]
        by (auto simp: emitee_events_def Let_def)
      with fs [of w1] w1(1) e True show ?thesis by (auto simp del: emit_loop.simps(1))
    qed
    then show ?thesis by blast
  next
    case False
    then have "emit_loop P f ctx st (Suc k) off w = emit_loop P f ctx st k (off + 14) w" for w
      using e by simp
    with fs show ?thesis by metis
  qed
qed

lemma emit_answers:
  assumes "steady_port P" "emit_complete P ctx f" "load_demux_header (p_little_endian P) f = Some h"
  shows "\<exists>st' fs. answers ctx (\<lambda>w. parseEmit P f ctx (st, w)) st' fs"
proof -
  let ?le = "p_little_endian P"
  have "load_u16 ?le f 32 \<noteq> None" using assms(2) by (simp add: emit_complete_def)
  then obtain raw where raw: "load_u16 ?le f 32 = Some raw" by blast
  let ?st = "set_active_mapper (realSource h) (source (frameHeader h))
    (st\<lparr>mapper_seq := lltd_ntohs ?le (seqNumber h)\<rparr>)"
  obtain fs where fs: "\<And>w. \<exists>w'. emit_loop P f ctx ?st (unat (lltd_ntohs ?le raw)) 0 w = Some w' \<and>
      (\<forall>c. sent_on c (w_events w') = sent_on c (w_events w) @ (if c = ctx then fs else []))"
    using emit_loop_answers [OF assms(1), of 0 "unat (lltd_ntohs ?le raw)" f ctx ?st] assms(2) raw
    by (auto simp: emit_complete_def)
  have "answers ctx (\<lambda>w. parseEmit P f ctx (st, w)) ?st fs"
    unfolding answers_def
  proof
    fix w
    from fs [of w] show "\<exists>w'. parseEmit P f ctx (st, w) = Some (?st, w') \<and>
        (\<forall>c. sent_on c (w_events w') = sent_on c (w_events w) @ (if c = ctx then fs else []))"
      using assms(3) raw by (auto simp: parseEmit_def Let_def)
  qed
  then show ?thesis by blast
qed

text \<open>What the switch of the large properties finds is the same every time.\<close>

lemma large_tlv_data_same:
  assumes "steady_port P" "large_tlv_data P typ (st, w) = Some (r, st1, w1)"
    "large_tlv_data P typ (st, v) = Some (r', st2, v1)"
  shows "r' = r \<and> st2 = st1"
proof -
  obtain i w2 v2 where icon: "p_icon_image P w = (i, w2)" "p_icon_image P v = (i, v2)"
    using assms(1) unfolding steady_port_def by (metis prod.collapse)
  obtain j w3 v3 where name: "p_friendly_name P w = (j, w3)" "p_friendly_name P v = (j, v3)"
    using assms(1) unfolding steady_port_def by (metis prod.collapse)
  obtain w4 v4 where mem: "lltd_port_malloc P 64 w = (True, w4)" "lltd_port_malloc P 64 v = (True, v4)"
    using steadyD(1) [OF assms(1)] by (simp add: lltd_port_malloc_def Let_def)
  show ?thesis
    using assms(2,3) icon name mem
    by (cases i; cases j) (auto simp: large_tlv_data_def Let_def split: if_splits bind_splits)
qed

lemma large_tlv_answers:
  assumes "steady_port P" "lltd_port_heap P" "36 \<le> length f" "state_ok st"
    and h: "load_demux_header (p_little_endian P) f = Some h"
  shows "\<exists>st' fs. answers ctx (\<lambda>w. parseQueryLargeTlv P f ctx (st, w)) st' fs"
proof (cases "lltd_ntohs (p_little_endian P) (seqNumber h) = 0")
  case True
  then have "parseQueryLargeTlv P f ctx (st, w) = Some (st, w)" for w
    using h by (simp add: parseQueryLargeTlv_def)
  with answers_same [of ctx st] show ?thesis by auto
next
  case False
  let ?le = "p_little_endian P"
  let ?st = "set_active_mapper (realSource h) (source (frameHeader h))
    (st\<lparr>mapper_seq := lltd_ntohs ?le (seqNumber h)\<rparr>)"
  have "load_u16 ?le f 34 \<noteq> None" "load_u8 f 32 \<noteq> None" using assms(3) by simp_all
  then obtain raw ty where b: "load_u16 ?le f 34 = Some raw" "load_u8 f 32 = Some ty" by blast
  have ok: "state_ok ?st" using assms(4) by simp
  obtain data n fr st1 w1 where d: "large_tlv_data P ty (?st, world0) = Some ((data, n, fr), st1, w1)"
    "case data of None \<Rightarrow> n = 0 \<or> \<not> fr | Some d \<Rightarrow> n \<le> length d"
    by (rule lltd_port_heap.large_tlv_data_runs [OF assms(2) ok]) blast
  let ?fr = "large_tlv_frame P ctx h st1
    (large_tlv_chunk (large_tlv_max_payload (port_mtu P ctx)) data n (lltd_ntohs ?le raw))"
  have "answers ctx (\<lambda>w. parseQueryLargeTlv P f ctx (st, w)) st1 [?fr]"
    unfolding answers_def
  proof
    fix w
    obtain data' n' fr' st2 w2 where d': "large_tlv_data P ty (?st, w) = Some ((data', n', fr'), st2, w2)"
      "w_events w2 = w_events w"
      by (rule lltd_port_heap.large_tlv_data_runs [OF assms(2) ok]) blast
    from large_tlv_data_same [OF assms(1) d(1) d'(1)] have same: "data' = data" "n' = n" "fr' = fr" "st2 = st1" by auto
    have fits: "case data of None \<Rightarrow> True | Some d \<Rightarrow> n \<le> length d" using d(2) by (simp split: option.splits)
    obtain w3 where w3: "sendLargeTlvResponse P f ctx st1 data n (lltd_ntohs ?le raw) w2 = Some w3"
      "w_events w3 = w_events w2 @ [SendFrame ctx ?fr (p_send P (length (w_events w2)) ctx ?fr)]"
      by (rule sendLargeTlvResponse_runs [OF h fits]) (use steadyD(1) [OF assms(1)] in auto)
    show "\<exists>w'. parseQueryLargeTlv P f ctx (st, w) = Some (st1, w') \<and>
        (\<forall>c. sent_on c (w_events w') = sent_on c (w_events w) @ (if c = ctx then [?fr] else []))"
      using h b False d' w3 unfolding same by (auto simp: parseQueryLargeTlv_def Let_def world_simps)
  qed
  then show ?thesis by blast
qed

section \<open>Frames\<close>

lemma dispatch_answers:
  assumes steady: "steady_port P"
    and h: "load_demux_header (p_little_endian P) f = Some h"
    and len: "frame_needs (p_little_endian P) f \<le> length f" "32 \<le> length f"
    and port: "usable_port P ctx" and ok: "state_ok st"
  shows "\<exists>st' fs. answers ctx (\<lambda>w. frame_dispatch P f ctx h (st, w)) st' fs"
proof -
  have contract: "lltd_port_heap P" "lltd_port_contract P" "hello_room \<le> port_mtu P ctx" "34 \<le> port_mtu P ctx"
    using port by (simp_all add: usable_port_def lltd_port_heap_def)
  have hello: "\<exists>st' fs. answers ctx (\<lambda>w. answerHello P f ctx (st, w)) st' fs" if "opcode h = opcode_discover"
  proof -
    have "load_u16 (p_little_endian P) f 32 \<noteq> None" using that h len by (simp add: frame_needs_def)
    then show ?thesis using hello_answers [OF steady contract(2,3) h] by blast
  qed
  have large: "\<exists>st' fs. answers ctx (\<lambda>w. parseQueryLargeTlv P f ctx (st, w)) st' fs"
    if "opcode h = opcode_queryLargeTlv"
    using that h len by (intro large_tlv_answers [OF steady contract(1) _ ok h]) (simp add: frame_needs_def)
  have emit: "\<exists>st' fs. answers ctx (\<lambda>w. parseEmit P f ctx (st, w)) st' fs"
    if "opcode h = opcode_emit" "tos h = tos_discovery"
    using that h len by (intro emit_answers [OF steady _ h]) (simp add: frame_needs_def emit_complete_def)
  note query = query_answers [OF steady contract(4) h, of st] and probe = probe_answers [OF steady h, of ctx st]
  have idle: "\<exists>st' fs. answers ctx (\<lambda>w. Some (st, w)) st' fs" using answers_same by blast
  consider (d) "tos h = tos_discovery" | (q) "tos h = tos_quick_discovery"
    | (o) "tos h \<noteq> tos_discovery" "tos h \<noteq> tos_quick_discovery" by blast
  then show ?thesis
  proof cases
    case d
    show ?thesis
    proof (cases "opcode h = opcode_reset")
      case True
      have "frame_dispatch P f ctx h (st, w) = Some (st\<lparr>see_list := [], see_list_count := 0,
          small_icon := None, small_icon_size := 0, mapper_known := 0, mapper_seq := 0,
          mapper_gen_topology := 0, mapper_gen_quick := 0\<rparr>,
          if small_icon st \<noteq> None then lltd_port_free (free_probes (see_list st) w) else free_probes (see_list st) w)" for w
        using d True by (simp add: frame_dispatch_def lltd_state_clear_seen_probes_def lltd_state_clear_icon_cache_def)
      then show ?thesis by (auto simp: answers_def world_simps)
    next
      case False
      have slow: "\<exists>st' fs. answers ctx (\<lambda>w. answerHello P f ctx (st, lltd_port_sleep_ms 10 w)) st' fs"
        if "opcode h = opcode_discover"
        using hello [OF that] answers_sleep [of ctx "\<lambda>w. answerHello P f ctx (st, w)"] by blast
      consider "opcode h = opcode_discover" "mapper_matches st (realSource h)"
        | "opcode h = opcode_discover" "\<not> mapper_matches st (realSource h)" | "opcode h = opcode_emit"
        | "opcode h = opcode_train" | "opcode h = opcode_probe" | "opcode h = opcode_query"
        | "opcode h = opcode_queryLargeTlv" | "opcode h \<notin> {opcode_discover, opcode_emit, opcode_train,
            opcode_probe, opcode_query, opcode_queryLargeTlv}" by auto
      then show ?thesis
        unfolding frame_dispatch_def using d False slow large emit query probe idle by cases auto
    qed
  next
    case q
    have quick: "\<exists>st' fs. answers ctx (\<lambda>w. Some (st\<lparr>mapper_known := 0, mapper_gen_quick := 0\<rparr>, w)) st' fs"
      using answers_same by blast
    consider "opcode h = opcode_discover" "mapper_matches st (realSource h)"
      | "opcode h = opcode_discover" "\<not> mapper_matches st (realSource h)" | "opcode h = opcode_queryLargeTlv"
      | "opcode h = opcode_reset"
      | "opcode h \<notin> {opcode_discover, opcode_queryLargeTlv, opcode_reset}" by auto
    then show ?thesis
      unfolding frame_dispatch_def using q hello large idle quick by cases auto
  next
    case o
    then show ?thesis unfolding frame_dispatch_def using idle by simp
  qed
qed

lemma step_answers:
  assumes steady: "steady_port P" and complete: "frame_complete P ctx f" and ok: "state_ok st"
  obtains st' fs where "answers ctx (\<lambda>w. frame_step P f ctx (st, w)) st' fs" "state_ok st'"
    "iface_ctx st' = iface_ctx st"
proof -
  have len: "frame_needs (p_little_endian P) f \<le> length f" "32 \<le> length f" and port: "usable_port P ctx"
    using complete by (simp_all add: frame_complete_def)
  obtain h where h: "load_demux_header (p_little_endian P) f = Some h" by (rule header_of [OF len(2)])
  obtain go st1 where st1: "frame_prologue P f h st = Some (go, st1)" "state_ok st1"
    by (rule frame_prologue_runs [OF h len(1) ok])
  have "\<exists>st' fs. answers ctx (\<lambda>w. frame_step P f ctx (st, w)) st' fs"
  proof (cases go)
    case True
    then have "(\<lambda>w. frame_step P f ctx (st, w)) = (\<lambda>w. frame_dispatch P f ctx h (st1, w))"
      using h st1(1) by (simp add: frame_step_def fun_eq_iff)
    then show ?thesis using dispatch_answers [OF steady h len port st1(2)] by simp
  next
    case False
    then have "(\<lambda>w. frame_step P f ctx (st, w)) = (\<lambda>w. Some (st1, w))"
      using h st1(1) by (simp add: frame_step_def fun_eq_iff)
    then show ?thesis using answers_same by metis
  qed
  then obtain st' fs where a: "answers ctx (\<lambda>w. frame_step P f ctx (st, w)) st' fs" by blast
  obtain st2 w2 where "frame_step P f ctx (st, world0) = Some (st2, w2)" "state_ok st2" "iface_ctx st2 = iface_ctx st"
    by (rule step.outcome [OF complete ok])
  moreover obtain w3 where "frame_step P f ctx (st, world0) = Some (st', w3)" using a by (auto simp: answers_def)
  ultimately show thesis using that [OF a] by simp
qed

definition state_of :: "lltd_iface_state list \<Rightarrow> iface \<Rightarrow> lltd_iface_state" where
  "state_of states ctx = (case iface_map states ctx of None \<Rightarrow> fresh_state ctx | Some st \<Rightarrow> st)"

lemma state_of_ok: "states_ok states \<Longrightarrow> state_ok (state_of states ctx) \<and> iface_ctx (state_of states ctx) = ctx"
  using iface_map_Some_iff [of states ctx] by (auto simp: state_of_def states_ok_def split: option.split)

lemma parseFrame_answers:
  assumes steady: "steady_port P" and ok: "states_ok states"
    and a: "answers ctx (\<lambda>w. frame_step P f ctx (state_of states ctx, w)) st' fs"
    and st': "state_ok st'" "iface_ctx st' = ctx"
  shows "\<exists>states' w'. parseFrame P (Some f) ctx (states, w) = Some (states', w') \<and> states_ok states' \<and>
    iface_map states' = (iface_map states)(ctx \<mapsto> st') \<and>
    (\<forall>c. sent_on c (w_events w') = sent_on c (w_events w) @ (if c = ctx then fs else []))"
proof (cases "iface_map states ctx")
  case (Some st)
  then obtain w' where w': "frame_step P f ctx (st, w) = Some (st', w')"
    "\<forall>c. sent_on c (w_events w') = sent_on c (w_events w) @ (if c = ctx then fs else [])"
    using a by (auto simp: answers_def state_of_def)
  show ?thesis by (rule parseFrame_known [OF ok Some w'(1) st'(2)]) (use w'(2) st'(1) in blast)
next
  case None
  let ?w = "snd (lltd_port_malloc P sizeof_iface_state w)"
  have "state_of states ctx = fresh_state ctx" using None by (simp add: state_of_def)
  then obtain w' where w': "frame_step P f ctx (fresh_state ctx, ?w) = Some (st', w')"
    "\<forall>c. sent_on c (w_events w') = sent_on c (w_events ?w) @ (if c = ctx then fs else [])"
    using a unfolding answers_def by metis
  have "states_ok (st' # states)" using ok st' None by (auto simp: states_ok_def iface_map_None_iff)
  with parseFrame_new(2) [OF ok None steadyD(1) [OF steady] w'(1)] w'(2) st'(2) show ?thesis
    by (auto simp: iface_map_Cons world_simps)
qed

section \<open>Interleavings\<close>

text \<open>
  Serving the frames of all interfaces does to interface \<open>c\<close> what serving its own frames alone
  does, whatever else is in the list of states.
\<close>

lemma serve_own_frames:
  assumes steady: "steady_port P" and "states_ok s" "states_ok t" "iface_map s c = iface_map t c"
    and "\<forall>(i, f) \<in> set es. frame_complete P i f"
  shows "\<exists>s1 w1 t1 v1 fs. serve P es (s, w) = Some (s1, w1) \<and>
    serve P (filter (\<lambda>e. fst e = c) es) (t, v) = Some (t1, v1) \<and> iface_map s1 c = iface_map t1 c \<and>
    sent_on c (w_events w1) = sent_on c (w_events w) @ fs \<and> sent_on c (w_events v1) = sent_on c (w_events v) @ fs"
  using assms(2-)
proof (induction es arbitrary: s t w v)
  case (Cons e es)
  obtain i f where e: "e = (i, f)" by (cases e)
  have complete: "frame_complete P i f" "\<forall>(i, f) \<in> set es. frame_complete P i f" using Cons.prems(4) e by auto
  obtain st' fs where a: "answers i (\<lambda>w. frame_step P f i (state_of s i, w)) st' fs" "state_ok st'" "iface_ctx st' = i"
    using step_answers [OF steady complete(1)] state_of_ok [OF Cons.prems(1)] by metis
  obtain s' w' where s': "parseFrame P (Some f) i (s, w) = Some (s', w')" "states_ok s'"
    "iface_map s' = (iface_map s)(i \<mapsto> st')"
    "\<forall>c. sent_on c (w_events w') = sent_on c (w_events w) @ (if c = i then fs else [])"
    using parseFrame_answers [OF steady Cons.prems(1) a] by blast
  show ?case
  proof (cases "i = c")
    case False
    then have "iface_map s' c = iface_map t c" using s'(3) Cons.prems(3) by simp
    from Cons.IH [OF s'(2) Cons.prems(2) this complete(2), of w' v] s'(1,4) False e show ?thesis by auto
  next
    case True
    have "state_of t i = state_of s i" using True Cons.prems(3) by (simp add: state_of_def)
    then obtain t' v' where t': "parseFrame P (Some f) i (t, v) = Some (t', v')" "states_ok t'"
      "iface_map t' = (iface_map t)(i \<mapsto> st')"
      "\<forall>c. sent_on c (w_events v') = sent_on c (w_events v) @ (if c = i then fs else [])"
      using parseFrame_answers [OF steady Cons.prems(2), of i f st' fs v] a by auto
    have "iface_map s' c = iface_map t' c" using True s'(3) t'(3) by simp
    from Cons.IH [OF s'(2) t'(2) this complete(2), of w' v'] obtain s1 w1 t1 v1 gs where
      "serve P es (s', w') = Some (s1, w1)" "serve P (filter (\<lambda>e. fst e = c) es) (t', v') = Some (t1, v1)"
      "iface_map s1 c = iface_map t1 c" "sent_on c (w_events w1) = sent_on c (w_events w') @ gs"
      "sent_on c (w_events v1) = sent_on c (w_events v') @ gs" by blast
    with s'(1,4) t'(1,4) True e show ?thesis
      by (intro exI [of _ s1] exI [of _ w1] exI [of _ t1] exI [of _ v1] exI [of _ "fs @ gs"]) auto
  qed
qed simp

text \<open>
  C3.  The order in which the threads of a daemon handle frames of different interfaces does
  not matter: two sequences of complete frames that have the same frames in the same order on
  each interface leave every interface in the same state and hand the same frames to it, on a
  port with enough memory that answers the same each time.
\<close>

theorem interleavings_agree:
  assumes steady: "steady_port P" and ok: "states_ok states"
    and complete: "\<forall>(i, f) \<in> set es. frame_complete P i f"
    and same: "\<forall>c. filter (\<lambda>e. fst e = c) es = filter (\<lambda>e. fst e = c) es'"
  shows "\<exists>s1 w1 s2 w2. serve P es (states, w) = Some (s1, w1) \<and> serve P es' (states, w) = Some (s2, w2) \<and>
    iface_map s1 = iface_map s2 \<and> (\<forall>c. sent_on c (w_events w1) = sent_on c (w_events w2))"
proof -
  have "e \<in> set es" if "e \<in> set es'" for e
  proof -
    have "e \<in> set (filter (\<lambda>x. fst x = fst e) es')" using that by simp
    then show ?thesis using same by (metis filter_is_subset subsetD)
  qed
  then have complete': "\<forall>(i, f) \<in> set es'. frame_complete P i f" using complete by blast
  note one = serve_own_frames [OF steady ok ok refl complete, of w _ w]
    and two = serve_own_frames [OF steady ok ok refl complete', of w _ w]
  obtain s1 w1 where 1: "serve P es (states, w) = Some (s1, w1)" using one by blast
  obtain s2 w2 where 2: "serve P es' (states, w) = Some (s2, w2)" using two by blast
  have "iface_map s1 c = iface_map s2 c \<and> sent_on c (w_events w1) = sent_on c (w_events w2)" for c
    using one [of c] two [of c] 1 2 same by auto
  with 1 2 show ?thesis by (intro exI [of _ s1] exI [of _ w1] exI [of _ s2] exI [of _ w2]) auto
qed

text \<open>The ports of POSIX and Linux are steady when the system is.\<close>

lemma linux_steady:
  assumes "\<And>i n. le_malloc os i n" "\<And>i j s f. le_sendto os i s f = le_sendto os j s f"
  shows "steady_port (linux_port os nif)"
proof -
  have "(linux_send_frame os nif i c f < 0) = (linux_send_frame os nif j c f < 0)" for i j c f
    by (simp add: linux_send_frame_def Let_def assms(2) [of i _ _ j])
  moreover have "\<forall>i n. le_malloc os i n" using assms(1) by blast
  ultimately show ?thesis
    unfolding steady_port_def
    by (simp add: linux_port_def linux_get_icon_image_def linux_get_friendly_name_def alloc_with_def Let_def)
qed

lemma posix_steady: "(\<And>i n. os_malloc os i n) \<Longrightarrow> steady_port (posix_port os)"
  by (simp add: steady_port_def posix_port_def posix_send_frame_def posix_get_icon_image_def
      posix_get_friendly_name_def alloc_with_def Let_def)

lemma demo_steady: "steady_port demo_port"
  by (simp add: steady_port_def demo_port_def posix_port_def posix_get_icon_image_def
      posix_get_friendly_name_def alloc_with_def demo_os_def Let_def)

theorem interleavings_agree_witness:
  "\<exists>s1 w1 s2 w2.
    serve demo_port [(3, demo_frame 0 0 (be16 5)), (4, demo_frame 0 8 []), (3, demo_frame 0 8 [])]
      ([fresh_state 4], world0) = Some (s1, w1) \<and>
    serve demo_port [(3, demo_frame 0 0 (be16 5)), (3, demo_frame 0 8 []), (4, demo_frame 0 8 [])]
      ([fresh_state 4], world0) = Some (s2, w2) \<and>
    iface_map s1 = iface_map s2 \<and> (\<forall>c. sent_on c (w_events w1) = sent_on c (w_events w2))"
  by (rule interleavings_agree [OF demo_steady]) (auto simp: states_ok_def demo_frame_complete)

end
