(* ===== verification/Spec2Isabelle.thy ===== *)
theory Spec2Isabelle
  imports LltdFrameProps LltdTickProps LltdLinuxPort LltdWindowsPort LltdDarwinProps LltdInterfaces LltdWifiProps LltdIcon
    LltdDarwinDeviceProps LltdDarwinMain LltdDaemonProps LltdSystemdProps LltdWindowsProps
    LltdSunos LltdHostProps LltdWifiMetrics LltdInterleave
begin

text \<open>
  A verification library for the LLTD responder (Link Layer Topology Discovery, MS-LLTD):
  the portable protocol core of src/lltdResponder/, the platform ports of src/os/, and the
  daemons that connect the two.

  \<^bold>\<open>The program.\<close>  A daemon finds the network interfaces, opens a raw socket for each and runs
  a loop per interface.  The loop hands every frame to \<open>parseFrame\<close> (lltdBlock.c), which keeps
  a state per interface (the mapper it is bound to, the probes seen, an icon cache), answers a
  Discover with a Hello, an Emit with Probes and Trains and an Ack, a Query with the probes
  seen, and a QueryLargeTlv with chunks of a large property.  Beside it the loop drives three
  table-driven machines (lltdAutomata.c: mapping, session, enumeration), the session table and
  the RepeatBand timers.  The core reaches the system through the functions of lltdPort.h only;
  each platform has its own implementation of them, and its own sources for the properties
  (host name, icon, WiFi rates) a Hello carries.

  \<^bold>\<open>Conventions.\<close>  A result of type \<open>option\<close> is \<open>None\<close> when the C program has no defined
  outcome: an access outside a buffer or a freed block, a signed overflow, a null pointer, a
  join of a thread that was never created, an array that \<open>realloc\<close> moves while a thread works
  on its elements, or a computation that does not end
  (\<open>partial_function (option)\<close>).  Theorems that say an operation returns therefore say that the
  result is \<open>Some\<close>.  Errors the program handles are values: return codes, booleans, inner
  options.  Machine integers are words of their width; a C \<open>int\<close> whose range is not checked is
  an \<open>int\<close>, with \<open>c_int\<close> where it can overflow.  Buffers are lists of bytes, structures are read
  and written at their packed offsets, byte order of the host is the parameter \<open>le\<close>.  The
  record \<open>world\<close> counts clock readings, allocations and live blocks, and logs pauses and sent
  frames; the record \<open>port\<close> holds the platform functions of lltdPort.h.  Where a daemon owns
  sockets, they are a log of descriptors opened and closed.

  \<^bold>\<open>Theories.\<close>
  \<^item> LltdPrelude: words, byte memory, shared lemmas and the collections \<open>mem_simps\<close>,
    \<open>wire_simps\<close>, \<open>world_simps\<close>.
  \<^item> LltdEndian, LltdProtocol, LltdPort, LltdWire: lltdEndian.h, lltdProtocol.h (with the linear
    order of addresses), lltdPort.h with the contract of a port as the locales
    \<open>lltd_port_contract\<close> and \<open>lltd_port_heap\<close>, and lltdWire.c.
  \<^item> LltdTlvOps: lltdTlvOps.c, one writer per property; the locale \<open>tlv_op\<close> says what a writer
    appends and how much room it needs, and every writer is an interpretation.
  \<^item> LltdBlockState, LltdProbe, LltdQuery, LltdLargeTlv, LltdHello, LltdFrame: lltdBlock.c, the
    interface states and one theory per handler; the locale \<open>frame_handler\<close> is what the
    dispatcher relies on (no fault, invariant kept, heap balanced).  LltdFrameProps has the
    properties of \<open>parseFrame\<close>: memory safety with heap balance, refinement of a map from
    interfaces to states, what each kind of frame is answered with, and that Hellos and large
    properties read back.  LltdInterleave: the order in which threads handle frames of different
    interfaces does not matter.
  \<^item> LltdAutomata, LltdSessionTable, LltdTick, LltdTickLemmas, LltdTickProgress: lltdAutomata.c.
    LltdAutomataProps: the tables refine machines on named states, the session machine returns
    when its clock calms down, the session table is a finite map (locale \<open>session_store\<close>), the
    classification of events.  LltdTickProps: the RepeatBand numbers, the invariant of a tick,
    the rate limit of Hellos, the expiry of sessions idle for a minute.
  \<^item> LltdPosixPort, LltdLinuxPort, LltdWindowsPort, LltdDarwinPort: the files lltd_port.c of
    os/posix, os/linux, os/windows/win32-user and os/darwin (the last with the functions of
    darwin-ops.c it calls), interpretations of the port locales where they keep them.
  \<^item> LltdDarwinHello, LltdDarwinLoop, LltdDarwinProps: \<open>sendHelloMessageEx\<close> and the receive loop
    \<open>lltdLoop\<close> of darwin-main.c, the only loop with a session table and a tick: it never faults,
    a Discover opens or renews a session unless it comes too late or the table is full, the
    blocks that make the two kinds of Hello write the same bytes exactly on WiFi interfaces,
    silence makes the interface quiet.
  \<^item> LltdLoops, LltdBpf, LltdLoopProps: the loops of linux-main.c, linux-embedded-main.c,
    esxi-main.c, beos-shared.c, sunos-dlpi.c and lltd_esp32.c, four of
    them over the locale \<open>loop_body\<close>, and the walk over a BPF buffer of freebsd-main.c with the
    buffers the kernel returns.  The enumeration machine of ESXi, BeOS and FreeBSD follows the
    frames alike.
  \<^item> LltdInterfaces: how these daemons list and open interfaces, and the array of contexts of
    linux-main.c.  LltdDaemons with LltdDaemonProps, LltdSystemd with LltdSystemdProps, LltdSunos,
    LltdWindowsDaemon with LltdWindowsProps: the mains, from the list of interfaces to the exit
    code.  The locales \<open>interface_filler\<close>, \<open>machine_set\<close>, \<open>daemon_parts\<close> and \<open>windows_backend\<close> are
    what a main relies on; the properties are that a daemon serves the interfaces it can
    open, closes what it opened and frees what it took, up to the blocks they name.
  \<^item> LltdHostOps, LltdHostProps: the property sources linux-ops.c, freebsd-ops.c, esxi-ops.c,
    sunos-ops.c, beos-ops.c, windows-ops.c and the rest of darwin-ops.c, under the locale
    \<open>host_source\<close>.
  \<^item> LltdDarwinDevice, LltdDarwinDeviceProps, LltdDarwinMain: the life of a macOS interface
    (\<open>deviceAppeared\<close>, \<open>validateInterface\<close>, \<open>deviceDisappeared\<close>) over a heap of records, and main
    with its run loop as an inductive relation on the events IOKit delivers.
  \<^item> LltdWifi, LltdWifiProps, LltdWifiMetrics: lltd_wifi_rates.c, lltd_wifi_iokit.c with the search
    of the IOKit registry, and the command tools/lltd-wifi-metrics.c.  LltdIcon: the choice of an
    icon and the ICO files of darwin-ops.c.

  \<^bold>\<open>Parameters.\<close>  Operating systems and frameworks are arguments: the clock as a function of the
  number of readings, the success of each allocation, the addresses \<open>realloc\<close> returns, answers
  of D-Bus, NWAM, DLPI, IOKit, CoreFoundation, ImageIO and the Windows calls, what \<open>sendto\<close>
  returns, whether a thread is created.  What a theorem needs of them is a hypothesis, and its
  witness discharges it for a concrete environment.

  \<^bold>\<open>Bounds.\<close>  No loop is cut off by fuel.  Receive loops run over the list of what \<open>recv\<close>
  returns until the exit flag is set, so every theorem on them holds for runs of any length;
  \<open>windows_rounds\<close> counts the passes of its loop and is quantified likewise.  Switches of
  machines, the walk over a BPF buffer, the search of the IOKit plane and of type identifiers
  are \<open>partial_function\<close>s, for which returning is proved or shown to fail
  (\<open>session_switch_returns\<close>, \<open>session_switch_diverges\<close>, \<open>freebsd_empty_record_hangs\<close>).

  \<^bold>\<open>Documentation.\<close>  In some places the files of src/Documentation or a comment say something
  else than the code.  The definitions follow the code; the properties keep to the inputs on
  which both agree, and lemmas beside them say what the code does on the others:
  \<^item> the Command state expires after 1 s in the documentation and after 5 s in the code, and a
    Reset in Emit is ignored in the first and quiets the machine in the second;
  \<^item> a tick forgets sessions idle for more than 1 s in the first, for more than 60 s in the
    second;
  \<^item> a Discover of another mapper with the same generation is a conflict in the first, while the
    test for it in the second cannot succeed (\<open>conflicting_discover_unreachable\<close>);
  \<^item> the estimate of RepeatBand is a product without bound in the first, and wraps at 32 bits in
    the second (\<open>band_update_wraps\<close>);
  \<^item> the comments of darwin-main.c ask for a link that is valid and active and for an interface
    that is up and has broadcast, the tests accept more (\<open>dead_link_passes\<close>).

  \<^bold>\<open>Not modelled.\<close>
  \<^item> The log functions and macros (os/daemon/lltdDaemon.h, \<open>log_debug\<close> and the like) and the
    texts they print; signal handlers, of which only the exit flag is visible to the loops.
  \<^item> Data races: the list of interface states of lltdBlock.c is shared between the threads of a
    daemon without a lock.  LltdInterleave orders whole frames; threads that interrupt each
    other inside \<open>parseFrame\<close> are not modelled, and each loop has states of its own.
  \<^item> CoreWLAN (lltd_wifi_corewlan.m, Objective-C), the PNG encoder behind \<open>copyPngThumbnail\<close> and
    what the CoreFoundation string functions write, which are parameters.
  \<^item> The tests, which exercise the modelled functions, and the declarations of the platform
    headers.
  \<^item> The stubs of os/windows/win16-diagnostic, win9x-vxd and lltd_win32_stubs.c, and the
    demonstration tools/automata/main_autom.c, which carry no protocol logic.
\<close>

end
